(* ===== verification/Prelude.thy ===== *)
theory Prelude
  imports Main "HOL-Library.Word"
begin

text \<open>
  Prelude of the TCP development: the error type by which every assertion,
  abort and fatal error of the C++ code is a value, the result type with its
  sequencing operator, packets as byte lists, and the generic facts on words,
  lists and results that the components share.
\<close>

unbundle bit_operations_syntax

subsection \<open>Types shared by all components\<close>

type_synonym u8 = "8 word"
type_synonym u16 = "16 word"
type_synonym u32 = "32 word"
type_synonym u64 = "64 word"
type_synonym packet = "u8 list"

text \<open>
  \<open>NsAssert n\<close> is a failed \<open>NS_ASSERT\<close> at line \<open>n\<close> of the modelled file,
  \<open>NsAbort n\<close> an \<open>NS_ABORT*\<close>, \<open>NsFatal n\<close> an \<open>NS_FATAL_ERROR\<close> and
  \<open>Undefined n\<close> a step with no defined C++ meaning (the dereference of an
  end iterator or of a null pointer); \<open>Diverges n\<close> marks a loop or recursion
  at line \<open>n\<close> that has not ended within the fuel of the model.
\<close>

datatype ns_error = NsAssert nat | NsAbort nat | NsFatal nat | Undefined nat | Diverges nat

type_synonym 'a result = "ns_error + 'a"

named_theorems result_simps \<open>evaluation rules of the result type\<close>
named_theorems seq_simps \<open>circular sequence number comparisons as comparisons of stream offsets\<close>

definition bindE :: "'a result \<Rightarrow> ('a \<Rightarrow> 'b result) \<Rightarrow> 'b result" where
  "bindE r f = (case r of Inl e \<Rightarrow> Inl e | Inr x \<Rightarrow> f x)"

definition ns_assert :: "nat \<Rightarrow> bool \<Rightarrow> 'a result \<Rightarrow> 'a result" where
  "ns_assert n P r = (if P then r else Inl (NsAssert n))"

definition ns_abort_if :: "nat \<Rightarrow> bool \<Rightarrow> 'a result \<Rightarrow> 'a result" where
  "ns_abort_if n P r = (if P then Inl (NsAbort n) else r)"

definition is_ok :: "'a result \<Rightarrow> bool" where
  "is_ok r = (case r of Inl _ \<Rightarrow> False | Inr _ \<Rightarrow> True)"

lemma bindE_simps [simp, result_simps]:
  "bindE (Inl e) f = Inl e"
  "bindE (Inr x) f = f x"
  by (simp_all add: bindE_def)

lemma ns_assert_True [simp, result_simps]: "P \<Longrightarrow> ns_assert n P r = r"
  by (simp add: ns_assert_def)

lemma ns_assert_Inr [result_simps]: "ns_assert n P r = Inr y \<longleftrightarrow> P \<and> r = Inr y"
  by (simp add: ns_assert_def)

lemma ns_abort_if_False [simp, result_simps]: "\<not> P \<Longrightarrow> ns_abort_if n P r = r"
  by (simp add: ns_abort_if_def)

lemma ns_abort_if_Inr [result_simps]: "ns_abort_if n P r = Inr y \<longleftrightarrow> \<not> P \<and> r = Inr y"
  by (simp add: ns_abort_if_def)

lemma bindE_Inr [result_simps]: "bindE r f = Inr y \<longleftrightarrow> (\<exists>x. r = Inr x \<and> f x = Inr y)"
  by (cases r) simp_all

lemma is_ok_simps [simp, result_simps]: "is_ok (Inr x)" "\<not> is_ok (Inl e)"
  by (simp_all add: is_ok_def)

lemma is_ok_iff: "is_ok r \<longleftrightarrow> (\<exists>x. r = Inr x)"
  by (cases r) simp_all

subsection \<open>Packets\<close>

text \<open>
  \<open>Packet::GetSize\<close>, a \<open>uint32_t\<close>, and \<open>Packet::CreateFragment\<close> of
  src/network/model/packet.cc with its range assertion (32-bit sum).
\<close>

definition pkt_size :: "packet \<Rightarrow> u32" where
  "pkt_size p = of_nat (length p)"

definition create_fragment :: "packet \<Rightarrow> u32 \<Rightarrow> u32 \<Rightarrow> packet result" where
  "create_fragment p start len =
    ns_assert 244 (pkt_size p \<ge> start + len) (Inr (take (unat len) (drop (unat start) p)))"

text \<open>The bytes \<open>S k, ..., S (k + n - 1)\<close> of a byte stream \<open>S\<close>.\<close>

definition stream_seg :: "(nat \<Rightarrow> u8) \<Rightarrow> nat \<Rightarrow> nat \<Rightarrow> packet" where
  "stream_seg S k n = map S [k ..< k + n]"

lemma length_stream_seg [simp]: "length (stream_seg S k n) = n"
  by (simp add: stream_seg_def)

lemma stream_seg_0 [simp]: "stream_seg S k 0 = []"
  by (simp add: stream_seg_def)

lemma stream_seg_eq_Nil [simp]: "stream_seg S k n = [] \<longleftrightarrow> n = 0"
  by (metis length_0_conv length_stream_seg)

lemma drop_stream_seg [simp]: "drop m (stream_seg S k n) = stream_seg S (k + m) (n - m)"
  by (cases "m \<le> n") (simp_all add: stream_seg_def drop_map)

lemma take_stream_seg [simp]: "take m (stream_seg S k n) = stream_seg S k (min m n)"
  by (cases "m \<le> n") (simp_all add: stream_seg_def take_map min_def)

lemma stream_seg_append: "stream_seg S k m @ stream_seg S (k + m) n = stream_seg S k (m + n)"
proof -
  have "[k ..< k + (m + n)] = [k ..< k + m] @ [k + m ..< k + m + n]"
    by (metis add.assoc le_add1 upt_add_eq_append)
  then show ?thesis
    by (simp add: stream_seg_def)
qed

lemma stream_seg_nth [simp]: "i < n \<Longrightarrow> stream_seg S k n ! i = S (k + i)"
  by (simp add: stream_seg_def)

subsection \<open>Words\<close>

lemma unat_of_nat_32 [simp]: "n < 2 ^ 32 \<Longrightarrow> unat (of_nat n :: u32) = n"
  by (simp add: unsigned_of_nat take_bit_nat_eq_self)

lemma unat_lt_32: "unat (x :: u32) < 2 ^ 32"
  using unsigned_less [of x] by simp

lemma sint_word_of_int_32:
  "- (2 ^ 31) \<le> z \<Longrightarrow> z < 2 ^ 31 \<Longrightarrow> sint (word_of_int z :: u32) = z"
  by (simp add: signed_of_int signed_take_bit_int_eq_self)

lemma of_nat_diff_word: "n \<le> m \<Longrightarrow> of_nat m - of_nat n = (of_nat (m - n) :: 'a::len word)"
  by (simp add: of_nat_diff)

lemma of_nat_eq_32 [simp]:
  "m < 2 ^ 32 \<Longrightarrow> n < 2 ^ 32 \<Longrightarrow> (of_nat m = (of_nat n :: u32)) \<longleftrightarrow> m = n"
  by (metis unat_of_nat_32)

lemma pkt_size_unat [simp]: "length p < 2 ^ 32 \<Longrightarrow> unat (pkt_size p) = length p"
  by (simp add: pkt_size_def)

lemma create_fragment_ok:
  assumes "a + l \<le> length p" "length p < 2 ^ 32"
  shows "create_fragment p (of_nat a) (of_nat l) = Inr (take l (drop a p))"
proof -
  have "of_nat a + of_nat l = (of_nat (a + l) :: u32)"
    by simp
  then have "unat (of_nat a + of_nat l :: u32) = a + l"
    using assms by (metis le_less_trans unat_of_nat_32)
  then show ?thesis
    using assms by (simp add: create_fragment_def word_le_nat_alt)
qed

lemma create_fragment_stream_seg:
  assumes "a + l \<le> n" "n < 2 ^ 32"
  shows "create_fragment (stream_seg S k n) (of_nat a) (of_nat l) = Inr (stream_seg S (k + a) l)"
  using assms by (simp add: create_fragment_ok)

subsection \<open>Intervals\<close>

lemma interval_disjoint:
  fixes a :: nat
  assumes "{a ..< b} \<inter> {c ..< d} = {}" "a < b" "c < d"
  shows "b \<le> c \<or> d \<le> a"
proof (rule ccontr)
  assume "\<not> (b \<le> c \<or> d \<le> a)"
  then have "max a c \<in> {a ..< b} \<inter> {c ..< d}"
    using assms by auto
  with assms(1) show False by blast
qed

lemma unat_and_0xffff: "unat ((s :: u32) AND 0xffff) = unat s mod 65536"
proof -
  have "(0xffff :: u32) = mask 16" by (simp add: mask_eq_exp_minus_1)
  then have "s AND 0xffff = take_bit 16 s" by (simp only: take_bit_eq_mask)
  then show ?thesis by (simp only: unsigned_take_bit_eq) (simp add: take_bit_eq_mod)
qed

lemma unat_drop_bit_16: "unat (drop_bit 16 (s :: u32)) = unat s div 65536"
  by (simp add: drop_bit_eq_div unat_div)

lemma unat_ucast_mod: "unat (ucast (x :: 'a::len word) :: 'b::len word) = unat x mod 2 ^ LENGTH('b)"
  unfolding unsigned_ucast_eq unsigned_take_bit_eq by (simp add: take_bit_eq_mod)

lemma take_bit_word_self: "unat (x :: 'a::len word) < 2 ^ n \<Longrightarrow> take_bit n x = x"
  unfolding word_unat_eq_iff unsigned_take_bit_eq by (simp add: take_bit_nat_eq_self)

end
