(* ===== verification/SeqNum.thy ===== *)
theory SeqNum
  imports Prelude
begin

text \<open>
  The class \<open>SequenceNumber<uint32_t, int32_t>\<close> of
  src/network/utils/sequence-number.h.  A sequence number is its
  \<open>m_value\<close>, a 32-bit word; addition wraps.  The signed difference is returned
  as the word whose two's complement reading (\<open>sint\<close>) is the \<open>int32_t\<close>.
\<close>

type_synonym seq = u32

subsection \<open>Operators\<close>

definition maxValue :: u32 where
  "maxValue = 0xFFFFFFFF"

definition halfMaxValue :: u32 where
  "halfMaxValue = maxValue div 2"

definition seq_minus :: "seq \<Rightarrow> seq \<Rightarrow> u32" where
  "seq_minus x y =
    (if x > y then
       let diff = x - y in
       if diff < halfMaxValue then diff
       else - (maxValue - x + 1 + y)
     else
       let diff = y - x in
       if diff < halfMaxValue then - diff
       else maxValue - y + 1 + x)"

definition seq_gt :: "seq \<Rightarrow> seq \<Rightarrow> bool" where
  "seq_gt x y \<longleftrightarrow>
    (x > y \<and> x - y \<le> halfMaxValue) \<or> (y > x \<and> y - x > halfMaxValue)"

definition seq_le :: "seq \<Rightarrow> seq \<Rightarrow> bool" where
  "seq_le x y \<longleftrightarrow> \<not> seq_gt x y"

definition seq_ge :: "seq \<Rightarrow> seq \<Rightarrow> bool" where
  "seq_ge x y \<longleftrightarrow> seq_gt x y \<or> x = y"

definition seq_lt :: "seq \<Rightarrow> seq \<Rightarrow> bool" where
  "seq_lt x y \<longleftrightarrow> \<not> seq_gt x y \<and> x \<noteq> y"

text \<open>
  Position \<open>k\<close> of a byte stream whose first byte carries the sequence number
  \<open>b\<close>.  The stream is unbounded: the sequence number wraps every \<open>2 ^ 32\<close> bytes.
\<close>

definition seqof :: "seq \<Rightarrow> nat \<Rightarrow> seq" where
  "seqof b k = b + of_nat k"

subsection \<open>Facts\<close>

lemma halfMaxValue_eq: "halfMaxValue = 0x7FFFFFFF"
  by (simp add: halfMaxValue_def maxValue_def)

lemma seq_minus_wraps: "seq_minus x y = x - y"
proof -
  have "maxValue + 1 = 0"
    by (simp add: maxValue_def)
  moreover have "maxValue - a + 1 + c = (maxValue + 1) + (c - a)" for a c
    by (simp only: algebra_simps)
  ultimately have "maxValue - a + 1 + c = c - a" for a c
    by (simp only: add_0)
  then show ?thesis
    by (simp only: seq_minus_def Let_def) simp
qed

lemma seq_gt_cases:
  "seq_gt x y \<longleftrightarrow>
    (0 < unat (x - y) \<and> unat (x - y) < 2 ^ 31) \<or> (unat (x - y) = 2 ^ 31 \<and> x < y)"
proof -
  have "unat x < 4294967296" "unat y < 4294967296"
    using unat_lt_32 [of x] unat_lt_32 [of y] by simp_all
  then show ?thesis
    unfolding seq_gt_def halfMaxValue_eq word_less_nat_alt word_le_nat_alt unat_sub_if'
    by auto
qed

lemma unat_diff_seqof:
  assumes "l \<le> k" "k < l + 2 ^ 32"
  shows "unat (seqof b k - seqof b l) = k - l"
proof -
  have "seqof b k - seqof b l = of_nat (k - l)"
    using assms by (simp add: seqof_def of_nat_diff)
  moreover have "k - l < 2 ^ 32"
    using assms by simp
  ultimately show ?thesis
    by (metis unat_of_nat_32)
qed

lemma seqof_eq [seq_simps]:
  assumes "k < l + 2 ^ 32" "l < k + 2 ^ 32"
  shows "seqof b k = seqof b l \<longleftrightarrow> k = l"
proof
  assume eq: "seqof b k = seqof b l"
  show "k = l"
  proof (cases "l \<le> k")
    case True
    with unat_diff_seqof [of l k b] assms eq show ?thesis by simp
  next
    case False
    with unat_diff_seqof [of k l b] assms eq show ?thesis by simp
  qed
qed simp

lemma seq_gt_seqof [seq_simps]:
  assumes "k < l + 2 ^ 31" "l < k + 2 ^ 31"
  shows "seq_gt (seqof b k) (seqof b l) \<longleftrightarrow> l < k"
proof (cases "l \<le> k")
  case True
  then have "unat (seqof b k - seqof b l) = k - l"
    using assms by (intro unat_diff_seqof) auto
  with True assms show ?thesis
    by (auto simp: seq_gt_cases)
next
  case False
  then have d: "unat (seqof b l - seqof b k) = l - k"
    using assms by (intro unat_diff_seqof) auto
  have "seqof b k \<noteq> seqof b l"
    using False assms by (subst seqof_eq) auto
  then have "unat (seqof b k) \<noteq> unat (seqof b l)"
    by (metis word_unat_eq_iff)
  with d have "unat (seqof b k - seqof b l) = 2 ^ 32 - (l - k)"
    using unat_lt_32 [of "seqof b k"] unat_lt_32 [of "seqof b l"]
    by (simp add: unat_sub_if' split: if_splits)
  with False assms show ?thesis
    by (auto simp: seq_gt_cases)
qed

lemma seq_ord_seqof [seq_simps]:
  assumes "k < l + 2 ^ 31" "l < k + 2 ^ 31"
  shows "seq_le (seqof b k) (seqof b l) \<longleftrightarrow> k \<le> l"
    and "seq_lt (seqof b k) (seqof b l) \<longleftrightarrow> k < l"
    and "seq_ge (seqof b k) (seqof b l) \<longleftrightarrow> l \<le> k"
  using assms seq_gt_seqof [of k l b] seqof_eq [of k l b]
  by (auto simp: seq_le_def seq_lt_def seq_ge_def)

lemma seqof_add: "seqof b k + of_nat n = seqof b (k + n)"
  by (simp add: seqof_def)

lemma seqof_Suc: "seqof b k + 1 = seqof b (Suc k)"
  by (simp add: seqof_def)

lemma seqof_pkt_size: "seqof b k + pkt_size p = seqof b (k + length p)"
  by (simp add: seqof_add pkt_size_def)

lemma seqof_word: "seqof b k + w = seqof b (k + unat w)"
  by (simp add: seqof_def)

lemma seqof_0 [simp]: "seqof b 0 = b"
  by (simp add: seqof_def)

lemma seqof_seqof: "seqof (seqof b k) l = seqof b (k + l)"
  by (simp add: seqof_def)

lemma seq_minus_seqof:
  assumes "l \<le> k"
  shows "seq_minus (seqof b k) (seqof b l) = of_nat (k - l)"
  using assms by (simp add: seq_minus_wraps seqof_def of_nat_diff)

lemma sint_seqof_diff:
  assumes "k < l + 2 ^ 31" "l < k + 2 ^ 31"
  shows "sint (seq_minus (seqof b k) (seqof b l)) = int k - int l"
proof -
  have "seq_minus (seqof b k) (seqof b l) = word_of_int (int k - int l)"
    by (simp add: seq_minus_wraps seqof_def)
  moreover have "sint (word_of_int (int k - int l) :: u32) = int k - int l"
    using assms by (intro sint_word_of_int_32) auto
  ultimately show ?thesis by simp
qed

lemma seq_trichotomy:
  "(seq_lt x y \<and> \<not> seq_gt x y \<and> x \<noteq> y) \<or> (x = y \<and> \<not> seq_lt x y \<and> \<not> seq_gt x y)
    \<or> (seq_gt x y \<and> \<not> seq_lt x y \<and> x \<noteq> y)"
  by (auto simp: seq_lt_def seq_gt_def)

lemma seq_gt_asym: "seq_gt x y \<Longrightarrow> \<not> seq_gt y x"
  by (auto simp: seq_gt_def)

lemma seq_gt_iff_lt: "seq_gt x y \<longleftrightarrow> seq_lt y x"
  unfolding seq_lt_def seq_gt_def by auto

subsection \<open>Properties\<close>

text \<open>
  C38: the comparison and subtraction operators agree with the order and the distance
  of positions in an unbounded stream whenever the positions are less than half the
  sequence space apart, at every wrap of the 32-bit value.
\<close>

theorem seq_operators_are_stream_order:
  assumes "k < l + 2 ^ 31" "l < k + 2 ^ 31"
  shows "(seq_gt (seqof b k) (seqof b l) \<longleftrightarrow> l < k) \<and> (seq_ge (seqof b k) (seqof b l) \<longleftrightarrow> l \<le> k)
    \<and> (seq_lt (seqof b k) (seqof b l) \<longleftrightarrow> k < l) \<and> (seq_le (seqof b k) (seqof b l) \<longleftrightarrow> k \<le> l)
    \<and> sint (seq_minus (seqof b k) (seqof b l)) = int k - int l"
proof -
  have "sint (seq_minus (seqof b k) (seqof b l)) = int k - int l"
    using assms by (simp add: sint_seqof_diff)
  then show ?thesis
    using assms by (simp add: seq_simps)
qed

theorem seq_operators_are_stream_order_witness:
  "seq_gt (seqof 4294967295 3) (seqof 4294967295 0)
    \<and> sint (seq_minus (seqof 4294967295 0) (seqof 4294967295 3)) = - 3"
  using seq_operators_are_stream_order [of 3 0 4294967295]
    seq_operators_are_stream_order [of 0 3 4294967295] by simp

text \<open>
  Exactly one of \<open><\<close>, \<open>==\<close> and \<open>>\<close> holds of any two sequence numbers, \<open>>\<close> is the
  converse of \<open><\<close>, and the subtraction operator is the wrapping 32-bit difference on
  all of its four branches.
\<close>

theorem seq_operators_total:
  "((seq_lt x y \<and> \<not> seq_gt x y \<and> x \<noteq> y) \<or> (x = y \<and> \<not> seq_lt x y \<and> \<not> seq_gt x y)
      \<or> (seq_gt x y \<and> \<not> seq_lt x y \<and> x \<noteq> y))
    \<and> (seq_gt x y \<longleftrightarrow> seq_lt y x) \<and> seq_minus x y = x - y"
  using seq_trichotomy seq_gt_iff_lt seq_minus_wraps by blast

end
