(* ===== verification/RxBuffer.thy ===== *)
theory RxBuffer
  imports SeqNum
begin

text \<open>
  The receive buffer of src/internet/model/tcp-rx-buffer.cc.  \<open>m_data\<close>, a
  \<open>std::map\<close> ordered by the circular \<open>operator<\<close> of sequence numbers, is
  the list of its entries in iteration order.  The second half relates the
  buffer to the byte stream of the peer: what \<open>Add\<close> stores, what the SACK list
  reports and what \<open>Extract\<close> delivers.
\<close>

type_synonym sack_block = "seq \<times> seq"

record rx_buffer =
  rx_nextRxSeq :: seq
  rx_finSeq :: seq
  rx_gotFin :: bool
  rx_size :: u32
  rx_maxBuffer :: u32
  rx_availBytes :: u32
  rx_data :: "(seq \<times> packet) list"
  rx_sackList :: "sack_block list"

subsection \<open>The ordered map\<close>

fun rx_put :: "seq \<Rightarrow> packet \<Rightarrow> (seq \<times> packet) list \<Rightarrow> (seq \<times> packet) list" where
  "rx_put k p [] = [(k, p)]"
| "rx_put k p ((k', p') # xs) =
    (if seq_lt k k' then (k, p) # (k', p') # xs
     else if seq_lt k' k then (k', p') # rx_put k p xs
     else (k', p) # xs)"

fun rx_has :: "seq \<Rightarrow> (seq \<times> packet) list \<Rightarrow> bool" where
  "rx_has k [] = False"
| "rx_has k ((k', p') # xs) = ((\<not> seq_lt k k' \<and> \<not> seq_lt k' k) \<or> rx_has k xs)"

fun rx_erase :: "seq \<Rightarrow> (seq \<times> packet) list \<Rightarrow> (seq \<times> packet) list" where
  "rx_erase k [] = []"
| "rx_erase k ((k', p') # xs) = (if k' = k then xs else (k', p') # rx_erase k xs)"

subsection \<open>Operations\<close>

definition TcpRxBuffer :: "u32 \<Rightarrow> rx_buffer" where
  "TcpRxBuffer n =
    \<lparr> rx_nextRxSeq = n, rx_finSeq = 0, rx_gotFin = False, rx_size = 0, rx_maxBuffer = 32768,
      rx_availBytes = 0, rx_data = [], rx_sackList = [] \<rparr>"

definition SetNextRxSequence :: "seq \<Rightarrow> rx_buffer \<Rightarrow> rx_buffer" where
  "SetNextRxSequence s rx = rx\<lparr>rx_nextRxSeq := s\<rparr>"

definition SetMaxBufferSize :: "u32 \<Rightarrow> rx_buffer \<Rightarrow> rx_buffer" where
  "SetMaxBufferSize s rx = rx\<lparr>rx_maxBuffer := s\<rparr>"

definition IncNextRxSequence :: "rx_buffer \<Rightarrow> rx_buffer result" where
  "IncNextRxSequence rx =
    ns_assert 108 (rx_size rx = 0) (Inr (rx\<lparr>rx_nextRxSeq := rx_nextRxSeq rx + 1\<rparr>))"

definition MaxRxSequence :: "rx_buffer \<Rightarrow> seq" where
  "MaxRxSequence rx =
    (if rx_gotFin rx then rx_finSeq rx
     else case rx_data rx of
       [] \<Rightarrow> rx_nextRxSeq rx + rx_maxBuffer rx
     | (k, _) # _ \<Rightarrow>
         if seq_gt (rx_nextRxSeq rx) k then k + rx_maxBuffer rx
         else rx_nextRxSeq rx + rx_maxBuffer rx)"

definition SetFinSequence :: "seq \<Rightarrow> rx_buffer \<Rightarrow> rx_buffer" where
  "SetFinSequence s rx =
    (let rx = rx\<lparr>rx_gotFin := True, rx_finSeq := s\<rparr> in
     if rx_nextRxSeq rx = rx_finSeq rx then rx\<lparr>rx_nextRxSeq := rx_nextRxSeq rx + 1\<rparr> else rx)"

definition Finished :: "rx_buffer \<Rightarrow> bool" where
  "Finished rx \<longleftrightarrow> rx_gotFin rx \<and> seq_lt (rx_finSeq rx) (rx_nextRxSeq rx)"

definition GetSackListSize :: "rx_buffer \<Rightarrow> u32" where
  "GetSackListSize rx = of_nat (length (rx_sackList rx))"

text \<open>
  The merge loop of \<open>UpdateSackList\<close>: \<open>begin\<close> is the first block, \<open>pre\<close> the
  blocks already passed by the iterator, the last argument the blocks from the
  iterator on.  A merge removes both blocks, puts the merged one first and
  restarts behind it.
\<close>

function sack_merge ::
  "sack_block \<Rightarrow> sack_block list \<Rightarrow> sack_block list \<Rightarrow> sack_block list result" where
  "sack_merge bgn pre [] = Inr (bgn # pre)"
| "sack_merge bgn pre (cur # rest) =
    (if fst bgn = snd cur then
       ns_assert 309 (seq_lt (fst cur) (snd bgn))
         (sack_merge (fst cur, snd bgn) [] (pre @ rest))
     else if snd bgn = fst cur then
       ns_assert 317 (seq_lt (fst bgn) (snd cur))
         (sack_merge (fst bgn, snd cur) [] (pre @ rest))
     else sack_merge bgn (pre @ [cur]) rest)"
  by pat_completeness auto
termination
  by (relation "measures [\<lambda>(bgn, pre, rest). length pre + length rest,
                          \<lambda>(bgn, pre, rest). length rest]") auto

definition UpdateSackList :: "seq \<Rightarrow> seq \<Rightarrow> rx_buffer \<Rightarrow> rx_buffer result" where
  "UpdateSackList head tail rx =
    ns_assert 258 (seq_gt head (rx_nextRxSeq rx))
      (bindE (sack_merge (head, tail) [] (rx_sackList rx)) (\<lambda>l.
        Inr (rx\<lparr>rx_sackList := (if length l > 4 then butlast l else l)\<rparr>)))"

fun ClearSackList :: "seq \<Rightarrow> sack_block list \<Rightarrow> sack_block list result" where
  "ClearSackList s [] = Inr []"
| "ClearSackList s (blk # rest) =
    ns_assert 359 (seq_lt (fst blk) (snd blk))
      (bindE (ClearSackList s rest) (\<lambda>rest'.
        Inr (if seq_le (snd blk) s then rest' else blk # rest')))"

text \<open>
  The loop of \<open>Add\<close> that removes overlapped bytes from the packet: entries that
  remain, \<open>headSeq\<close>, \<open>tailSeq\<close> and \<open>m_size\<close> after it.
\<close>

fun rx_overlap ::
  "(seq \<times> packet) list \<Rightarrow> seq \<Rightarrow> seq \<Rightarrow> u32 \<Rightarrow> (seq \<times> packet) list \<times> seq \<times> seq \<times> u32" where
  "rx_overlap [] headSeq tailSeq sz = ([], headSeq, tailSeq, sz)"
| "rx_overlap ((k, p) # xs) headSeq tailSeq sz =
    (if \<not> seq_le k tailSeq then ((k, p) # xs, headSeq, tailSeq, sz)
     else
       let lastByteSeq = k + pkt_size p in
       if seq_gt lastByteSeq headSeq then
         if seq_gt k headSeq \<and> seq_lt lastByteSeq tailSeq then
           rx_overlap xs headSeq tailSeq (sz - pkt_size p)
         else
           let headSeq' = (if seq_le k headSeq then lastByteSeq else headSeq);
               tailSeq' = (if seq_ge lastByteSeq tailSeq then k else tailSeq);
               (ys, h, t, s) = rx_overlap xs headSeq' tailSeq' sz
           in ((k, p) # ys, h, t, s)
       else
         let (ys, h, t, s) = rx_overlap xs headSeq tailSeq sz in ((k, p) # ys, h, t, s))"

text \<open>The loop of \<open>Add\<close> that moves \<open>m_nextRxSeq\<close> over the data now in sequence.\<close>

fun rx_advance ::
  "(seq \<times> packet) list \<Rightarrow> seq \<Rightarrow> u32 \<Rightarrow> sack_block list \<Rightarrow> (seq \<times> u32 \<times> sack_block list) result" where
  "rx_advance [] nxt avail sacks = Inr (nxt, avail, sacks)"
| "rx_advance ((k, p) # xs) nxt avail sacks =
    (if seq_lt k nxt then rx_advance xs nxt avail sacks
     else if seq_gt k nxt then Inr (nxt, avail, sacks)
     else
       let nxt' = k + pkt_size p in
       bindE (ClearSackList nxt' sacks) (\<lambda>sacks'.
         rx_advance xs nxt' (avail + pkt_size p) sacks'))"

text \<open>The head and tail trimmed to the window, lines 157--173.\<close>

definition rx_window :: "seq \<Rightarrow> seq \<Rightarrow> rx_buffer \<Rightarrow> seq \<times> seq" where
  "rx_window headSeq tailSeq rx =
    (let headSeq = (if seq_lt headSeq (rx_nextRxSeq rx) then rx_nextRxSeq rx else headSeq) in
     case rx_data rx of
       [] \<Rightarrow> (headSeq, tailSeq)
     | (k, _) # _ \<Rightarrow>
         let maxSeq = k + rx_maxBuffer rx;
             tailSeq = (if seq_lt maxSeq tailSeq then maxSeq else tailSeq);
             headSeq = (if seq_lt tailSeq headSeq then tailSeq else headSeq)
         in (headSeq, tailSeq))"

text \<open>The trimmed packet is stored and the counters brought up to date, lines 213--242.\<close>

definition rx_store :: "packet \<Rightarrow> seq \<Rightarrow> seq \<Rightarrow> rx_buffer \<Rightarrow> rx_buffer result" where
  "rx_store p headSeq tailSeq rx =
    (let rx = rx\<lparr>rx_data := rx_put headSeq p (rx_data rx)\<rparr> in
     bindE (if seq_gt headSeq (rx_nextRxSeq rx) then UpdateSackList headSeq tailSeq rx else Inr rx)
       (\<lambda>rx. let rx = rx\<lparr>rx_size := rx_size rx + pkt_size p\<rparr> in
        bindE (rx_advance (rx_data rx) (rx_nextRxSeq rx) (rx_availBytes rx) (rx_sackList rx))
          (\<lambda>(nxt, avail, sacks).
        let rx = rx\<lparr>rx_nextRxSeq := nxt, rx_availBytes := avail, rx_sackList := sacks\<rparr> in
        Inr (if rx_gotFin rx \<and> rx_nextRxSeq rx = rx_finSeq rx
             then rx\<lparr>rx_nextRxSeq := rx_nextRxSeq rx + 1\<rparr> else rx))))"

text \<open>
  \<open>Add\<close>: the packet and the sequence number of its header.  The buffer of the
  result is also the buffer left behind when the return value is false.
\<close>

definition RxAdd :: "packet \<Rightarrow> seq \<Rightarrow> rx_buffer \<Rightarrow> (bool \<times> rx_buffer) result" where
  "RxAdd p hdrSeq rx =
    (let tailSeq = hdrSeq + pkt_size p;
         (headSeq, tailSeq) = rx_window hdrSeq tailSeq rx;
         (data, headSeq, tailSeq, sz) = rx_overlap (rx_data rx) headSeq tailSeq (rx_size rx);
         rx = rx\<lparr>rx_data := data, rx_size := sz\<rparr>
     in
     if seq_ge headSeq tailSeq then Inr (False, rx)
     else
       let start = seq_minus headSeq hdrSeq;
           len = seq_minus tailSeq headSeq
       in
       bindE (create_fragment p start len) (\<lambda>p.
       ns_assert 209 (len = pkt_size p)
       (ns_assert 212 (\<not> rx_has headSeq (rx_data rx))
       (bindE (rx_store p headSeq tailSeq rx) (\<lambda>rx. Inr (True, rx))))))"

text \<open>
  The loop of \<open>Extract\<close>: data, occupancy, available bytes, bytes still to
  extract and the output packet.
\<close>

fun rx_extract_loop ::
  "seq \<Rightarrow> (seq \<times> packet) list \<Rightarrow> u32 \<Rightarrow> u32 \<Rightarrow> u32 \<Rightarrow> packet
    \<Rightarrow> ((seq \<times> packet) list \<times> u32 \<times> u32 \<times> packet) result" where
  "rx_extract_loop nxt [] sz avail extractSize out =
    (if extractSize = 0 then Inr ([], sz, avail, out) else Inl (Undefined 396))"
| "rx_extract_loop nxt ((k, p) # xs) sz avail extractSize out =
    (if extractSize = 0 then Inr ((k, p) # xs, sz, avail, out)
     else ns_assert 396 (seq_le k nxt)
       (let pktSize = pkt_size p in
        if pktSize \<le> extractSize then
          rx_extract_loop nxt xs (sz - pktSize) (avail - pktSize) (extractSize - pktSize) (out @ p)
        else
          bindE (create_fragment p 0 extractSize) (\<lambda>p1.
          bindE (create_fragment p extractSize (pktSize - extractSize)) (\<lambda>p2.
          Inr (rx_erase k (rx_put (k + extractSize) p2 ((k, p) # xs)),
               sz - extractSize, avail - extractSize, out @ p1)))))"

definition Extract :: "u32 \<Rightarrow> rx_buffer \<Rightarrow> (packet option \<times> rx_buffer) result" where
  "Extract maxSize rx =
    (let extractSize = min maxSize (rx_availBytes rx) in
     if extractSize = 0 then Inr (None, rx)
     else ns_assert 390 (rx_data rx \<noteq> [])
       (bindE (rx_extract_loop (rx_nextRxSeq rx) (rx_data rx) (rx_size rx) (rx_availBytes rx)
                 extractSize [])
         (\<lambda>(data, sz, avail, out).
            let rx = rx\<lparr>rx_data := data, rx_size := sz, rx_availBytes := avail\<rparr> in
            Inr (if out = [] then None else Some out, rx))))"

end
