(* ===== verification/RxBlocks.thy ===== *)
theory RxBlocks
  imports RxBuffer
begin

text \<open>
  Correctness of the receive buffer against the byte stream \<open>S\<close> of the peer,
  whose byte \<open>k\<close> carries sequence number \<open>seqof b k\<close>.  The entries of the buffer
  are related to entries keyed by stream offsets; on these the two loops of
  \<open>Add\<close> have natural-number counterparts (\<open>noverlap\<close>, \<open>nadvance\<close>) that the
  word-level loops refine as long as all offsets lie within half the sequence
  space.
\<close>

type_synonym nblocks = "(nat \<times> packet) list"

subsection \<open>Abstract blocks\<close>

definition img :: "seq \<Rightarrow> nblocks \<Rightarrow> (seq \<times> packet) list" where
  "img b = map (\<lambda>(k, p). (seqof b k, p))"

definition simg :: "seq \<Rightarrow> (nat \<times> nat) list \<Rightarrow> sack_block list" where
  "simg b = map (\<lambda>(l, r). (seqof b l, seqof b r))"

text \<open>
  \<open>blocks S lo hi xs\<close>: the entries are nonempty, disjoint, ascending, between
  \<open>lo\<close> and \<open>hi\<close>, and hold the bytes of the stream.
\<close>

fun blocks :: "(nat \<Rightarrow> u8) \<Rightarrow> nat \<Rightarrow> nat \<Rightarrow> nblocks \<Rightarrow> bool" where
  "blocks S lo hi [] \<longleftrightarrow> lo \<le> hi"
| "blocks S lo hi ((k, p) # xs) \<longleftrightarrow>
    lo \<le> k \<and> p \<noteq> [] \<and> stream_seg S k (length p) = p \<and> blocks S (k + length p) hi xs"

fun covers :: "nblocks \<Rightarrow> nat set" where
  "covers [] = {}"
| "covers ((k, p) # xs) = {k ..< k + length p} \<union> covers xs"

definition nbytes :: "nblocks \<Rightarrow> nat" where
  "nbytes xs = (\<Sum>(k, p) \<leftarrow> xs. length p)"

fun nput :: "nat \<Rightarrow> packet \<Rightarrow> nblocks \<Rightarrow> nblocks" where
  "nput k p [] = [(k, p)]"
| "nput k p ((k', p') # xs) =
    (if k < k' then (k, p) # (k', p') # xs else if k' < k then (k', p') # nput k p xs
     else (k', p) # xs)"

fun noverlap :: "nblocks \<Rightarrow> nat \<Rightarrow> nat \<Rightarrow> nblocks \<times> nat \<times> nat" where
  "noverlap [] h t = ([], h, t)"
| "noverlap ((k, p) # xs) h t =
    (if t < k then ((k, p) # xs, h, t)
     else
       let e = k + length p in
       if h < e then
         if h < k \<and> e < t then noverlap xs h t
         else
           let (ys, h', t') = noverlap xs (if k \<le> h then e else h) (if t \<le> e then k else t)
           in ((k, p) # ys, h', t')
       else let (ys, h', t') = noverlap xs h t in ((k, p) # ys, h', t'))"

fun nadvance :: "nblocks \<Rightarrow> nat \<Rightarrow> nat" where
  "nadvance [] n = n"
| "nadvance ((k, p) # xs) n =
    (if k < n then nadvance xs n else if n < k then n else nadvance xs (k + length p))"

text \<open>A SACK block is truthful when all its bytes are held beyond the next expected one.\<close>

definition sack_good :: "nat \<Rightarrow> nat set \<Rightarrow> nat \<times> nat \<Rightarrow> bool" where
  "sack_good n R x \<longleftrightarrow> n < fst x \<and> fst x < snd x \<and> {fst x ..< snd x} \<subseteq> R"

subsection \<open>Facts on blocks\<close>

lemma img_simps [simp]:
  "img b [] = []"
  "img b ((k, p) # xs) = (seqof b k, p) # img b xs"
  "img b xs = [] \<longleftrightarrow> xs = []"
  by (simp_all add: img_def)

lemma simg_simps [simp]:
  "simg b [] = []"
  "simg b (x # xs) = (seqof b (fst x), seqof b (snd x)) # simg b xs"
  "simg b (xs @ ys) = simg b xs @ simg b ys"
  "length (simg b xs) = length xs"
  by (simp_all add: simg_def split: prod.splits)

lemma simg_butlast [simp]: "butlast (simg b xs) = simg b (butlast xs)"
  by (simp add: simg_def map_butlast)

lemma nbytes_simps [simp]:
  "nbytes [] = 0"
  "nbytes ((k, p) # xs) = length p + nbytes xs"
  by (simp_all add: nbytes_def)

lemma blocks_bounds: "blocks S lo hi xs \<Longrightarrow> lo \<le> hi"
  by (induction xs arbitrary: lo) fastforce+

lemma blocks_lower: "blocks S lo hi xs \<Longrightarrow> lo' \<le> lo \<Longrightarrow> blocks S lo' hi xs"
proof (cases xs)
  case Nil
  then show "blocks S lo hi xs \<Longrightarrow> lo' \<le> lo \<Longrightarrow> blocks S lo' hi xs"
    by simp
next
  case (Cons x xs')
  then show "blocks S lo hi xs \<Longrightarrow> lo' \<le> lo \<Longrightarrow> blocks S lo' hi xs"
    by (cases x) simp
qed

lemma blocks_upper: "blocks S lo hi xs \<Longrightarrow> hi \<le> hi' \<Longrightarrow> blocks S lo hi' xs"
  by (induction xs arbitrary: lo) fastforce+

lemma covers_bounds: "blocks S lo hi xs \<Longrightarrow> covers xs \<subseteq> {lo ..< hi}"
proof (induction xs arbitrary: lo)
  case (Cons x xs)
  obtain k p where [simp]: "x = (k, p)" by (cases x)
  have "covers xs \<subseteq> {k + length p ..< hi}" "k + length p \<le> hi"
    using Cons blocks_bounds [of S "k + length p"] by auto
  with Cons.prems show ?case
    by auto
qed simp

lemma blocks_nbytes: "blocks S lo hi xs \<Longrightarrow> nbytes xs \<le> hi - lo"
proof (induction xs arbitrary: lo)
  case (Cons x xs)
  obtain k p where [simp]: "x = (k, p)" by (cases x)
  have "nbytes xs \<le> hi - (k + length p)" "k + length p \<le> hi" "lo \<le> k"
    using Cons blocks_bounds [of S "k + length p"] by auto
  then show ?case
    by simp
qed simp

subsection \<open>The overlap loop\<close>

lemma noverlap_lower:
  "blocks S lo hi xs \<Longrightarrow> noverlap xs h t = (ys, h', t') \<Longrightarrow> blocks S lo hi ys"
proof (induction xs h t arbitrary: lo ys h' t' rule: noverlap.induct)
  case (2 k p xs h t)
  let ?e = "k + length p"
  have b: "lo \<le> k" "p \<noteq> []" "stream_seg S k (length p) = p" "blocks S ?e hi xs"
    using "2.prems"(1) by simp_all
  have lo: "blocks S lo hi xs"
    using b(4,1) by (elim blocks_lower) simp
  have keep: "blocks S lo hi ys" if "ys = (k, p) # zs" "blocks S ?e hi zs" for zs
    using that b by simp
  consider "t < k" | "k \<le> t" "?e \<le> h" | "k \<le> t" "h < ?e" "h < k \<and> ?e < t"
    | "k \<le> t" "h < ?e" "\<not> (h < k \<and> ?e < t)"
    by linarith
  then show ?case
  proof cases
    case 1
    with "2.prems"(2) have "ys = (k, p) # xs" by simp
    with b show ?thesis by simp
  next
    case 2
    with "2.prems"(2) obtain zs where "noverlap xs h t = (zs, h', t')" "ys = (k, p) # zs"
      by (auto simp: Let_def split: prod.splits)
    with 2 "2.IH"(3) [OF _ refl _ b(4)] show ?thesis
      by (intro keep) auto
  next
    case 3
    with "2.prems"(2) have "noverlap xs h t = (ys, h', t')"
      by (simp add: Let_def)
    with 3 "2.IH"(1) [OF _ refl _ _ lo] show ?thesis
      by simp
  next
    case 4
    with "2.prems"(2) obtain zs
      where "noverlap xs (if k \<le> h then ?e else h) (if t \<le> ?e then k else t) = (zs, h', t')"
        "ys = (k, p) # zs"
      unfolding noverlap.simps Let_def by (auto simp del: not_less split: prod.splits)
    with 4 "2.IH"(2) [OF _ refl _ _ b(4)] show ?thesis
      by (intro keep) auto
  qed
qed simp

text \<open>Entries at or behind the current tail leave the loop at once.\<close>

lemma noverlap_stop:
  assumes "blocks S lo hi xs" "t < lo"
  shows "noverlap xs h t = (xs, h, t)"
  using assms by (cases xs) auto

lemma noverlap_empty:
  assumes "blocks S lo hi xs" "t \<le> h" "noverlap xs h t = (ys, h', t')"
  shows "ys = xs \<and> t' \<le> h'"
  using assms
proof (induction xs h t arbitrary: lo ys h' t' rule: noverlap.induct)
  case (2 k p xs h t)
  let ?e = "k + length p"
  have b: "length p > 0" "blocks S ?e hi xs"
    using "2.prems" by auto
  consider "t < k" | "k \<le> t" "?e \<le> h" | "k \<le> t" "h < ?e"
    by linarith
  then show ?case
  proof cases
    case 2
    with "2.prems" obtain zs where "noverlap xs h t = (zs, h', t')" "ys = (k, p) # zs"
      by (auto simp: Let_def split: prod.splits)
    with "2.IH"(3) [OF _ refl _ b(2) "2.prems"(2)] 2 show ?thesis
      by auto
  next
    case 3
    have "noverlap xs ?e k = (xs, ?e, k)"
      using b by (intro noverlap_stop) auto
    with "2.prems" 3 show ?thesis
      by (auto simp: Let_def)
  qed (use "2.prems" in auto)
qed auto

lemma noverlap_spec:
  assumes "blocks S lo hi xs" "h < t" "noverlap xs h t = (ys, h', t')"
  shows "covers ys \<union> {h' ..< t'} = covers xs \<union> {h ..< t} \<and> h \<le> h' \<and> t' \<le> t
    \<and> covers ys \<inter> {h' ..< t'} = {}"
  using assms
proof (induction xs h t arbitrary: lo ys h' t' rule: noverlap.induct)
  case (2 k p xs h t)
  let ?e = "k + length p"
  have b: "lo \<le> k" "length p > 0" "blocks S ?e hi xs"
    using "2.prems" by auto
  have c: "covers xs \<subseteq> {?e ..< hi}"
    using b(3) by (rule covers_bounds)
  consider "t < k" | "k \<le> t" "?e \<le> h" | "k \<le> t" "h < k" "?e < t"
    | "k \<le> t" "h < ?e" "k \<le> h" "?e < t" | "k \<le> t" "h < ?e" "t \<le> ?e"
    by linarith
  then show ?case
  proof cases
    case 1
    with "2.prems" c show ?thesis by auto
  next
    case 2
    with "2.prems" obtain zs where z: "noverlap xs h t = (zs, h', t')" "ys = (k, p) # zs"
      by (auto simp: Let_def split: prod.splits)
    with "2.IH"(3) [OF _ refl _ b(3) "2.prems"(2) z(1)] 2 show ?thesis
      by (auto simp: set_eq_iff)
  next
    case 3
    with "2.prems" have z: "noverlap xs h t = (ys, h', t')"
      by (auto simp: Let_def)
    with "2.IH"(1) [OF _ refl _ _ b(3) "2.prems"(2) z(1)] 3 show ?thesis
      by (auto simp: set_eq_iff)
  next
    case 4
    with "2.prems" obtain zs where z: "noverlap xs ?e t = (zs, h', t')" "ys = (k, p) # zs"
      by (auto simp: Let_def split: prod.splits)
    have "covers zs \<union> {h' ..< t'} = covers xs \<union> {?e ..< t} \<and> ?e \<le> h' \<and> t' \<le> t
        \<and> covers zs \<inter> {h' ..< t'} = {}"
      using "2.IH"(2) [OF _ refl, of ?e] b(3) z(1) 4 by auto
    with z(2) 4 show ?thesis
      by (auto simp: set_eq_iff)
  next
    case 5
    let ?h = "if k \<le> h then ?e else h"
    have "noverlap xs ?h k = (xs, ?h, k)"
      using b by (intro noverlap_stop) auto
    with "2.prems" 5 have z: "ys = (k, p) # xs" "h' = ?h" "t' = k"
      by (auto simp: Let_def)
    show ?thesis
    proof (cases "k \<le> h")
      case True
      with 5 have "{h ..< t} \<subseteq> {k ..< ?e}" by auto
      with True 5 z show ?thesis by auto
    next
      case False
      with 5 have "{h ..< k} \<union> {k ..< ?e} \<union> {h ..< t} = {h ..< k} \<union> {k ..< ?e}" by auto
      moreover have "covers xs \<inter> {h ..< k} = {}"
        using c by auto
      ultimately show ?thesis
        using False 5 z by auto
    qed
  qed
qed simp

lemma noverlap_subset: "noverlap xs h t = (ys, h', t') \<Longrightarrow> set ys \<subseteq> set xs"
proof (induction xs h t arbitrary: ys h' t' rule: noverlap.induct)
  case (2 k p xs h t)
  then show ?case
    by (fastforce simp: Let_def split: if_splits prod.splits)
qed simp

text \<open>When entries were dropped, or bytes remain, the head is a byte not held before.\<close>

lemma noverlap_new:
  assumes "blocks S lo hi xs" "h < t" "noverlap xs h t = (ys, h', t')"
  shows "(h' < t' \<longrightarrow> h' \<notin> covers xs) \<and> (t' \<le> h' \<longrightarrow> ys = xs)"
  using assms
proof (induction xs h t arbitrary: lo ys h' t' rule: noverlap.induct)
  case (2 k p xs h t)
  let ?e = "k + length p"
  have b: "length p > 0" "blocks S ?e hi xs"
    using "2.prems" by auto
  have c: "covers xs \<subseteq> {?e ..< hi}"
    using b(2) by (rule covers_bounds)
  consider "t < k" | "k \<le> t" "?e \<le> h" | "k \<le> t" "h < k" "?e < t"
    | "k \<le> t" "h < ?e" "k \<le> h" "?e < t" | "k \<le> t" "h < ?e" "t \<le> ?e"
    by linarith
  then show ?case
  proof cases
    case 1
    with "2.prems" c show ?thesis by auto
  next
    case 2
    with "2.prems" obtain zs where z: "noverlap xs h t = (zs, h', t')" "ys = (k, p) # zs"
      by (auto simp: Let_def split: prod.splits)
    have "h \<le> h'"
      using noverlap_spec [OF b(2) "2.prems"(2) z(1)] by simp
    with "2.IH"(3) [OF _ refl _ b(2) "2.prems"(2) z(1)] 2 z(2) show ?thesis
      by auto
  next
    case 3
    with "2.prems" have z: "noverlap xs h t = (ys, h', t')"
      by (auto simp: Let_def)
    have "covers ys \<subseteq> {?e ..< hi}"
      using noverlap_lower [OF b(2) z] by (rule covers_bounds)
    with 3 have "h \<notin> covers ys" by auto
    with noverlap_spec [OF b(2) "2.prems"(2) z] "2.prems"(2) have "h' = h" "h < t'"
      by (auto simp: set_eq_iff)
    with 3 c show ?thesis by auto
  next
    case 4
    with "2.prems" obtain zs where z: "noverlap xs ?e t = (zs, h', t')" "ys = (k, p) # zs"
      by (auto simp: Let_def split: prod.splits)
    have "?e \<le> h'"
      using noverlap_spec [OF b(2) 4(4) z(1)] by simp
    moreover have "(h' < t' \<longrightarrow> h' \<notin> covers xs) \<and> (t' \<le> h' \<longrightarrow> zs = xs)"
      using "2.IH"(2) [OF _ refl, of ?e] b(2) z(1) 4 by auto
    ultimately show ?thesis
      using z(2) by auto
  next
    case 5
    let ?h = "if k \<le> h then ?e else h"
    have "noverlap xs ?h k = (xs, ?h, k)"
      using b by (intro noverlap_stop) auto
    with "2.prems" 5 have z: "ys = (k, p) # xs" "h' = ?h" "t' = k"
      by (auto simp: Let_def)
    with c 5 show ?thesis by auto
  qed
qed simp

lemma covers_mono: "set ys \<subseteq> set xs \<Longrightarrow> covers ys \<subseteq> covers xs"
proof -
  have "covers zs = (\<Union>(k, p) \<in> set zs. {k ..< k + length p})" for zs
    by (induction zs) auto
  then show "set ys \<subseteq> set xs \<Longrightarrow> covers ys \<subseteq> covers xs"
    by auto
qed

lemma covers_member: "(k, p) \<in> set xs \<Longrightarrow> {k ..< k + length p} \<subseteq> covers xs"
  using covers_mono [of "[(k, p)]" xs] by simp

lemma noverlap_bounds:
  assumes "blocks S lo hi xs" "c \<le> lo" "hi \<le> e" "c \<le> h" "h \<le> e" "c \<le> t" "t \<le> e"
    and "noverlap xs h t = (ys, h', t')"
  shows "c \<le> h' \<and> h' \<le> e \<and> c \<le> t' \<and> t' \<le> e"
  using assms
proof (induction xs h t arbitrary: lo ys h' t' rule: noverlap.induct)
  case (2 k p xs h t)
  let ?e = "k + length p"
  have b: "blocks S ?e hi xs" "c \<le> k" "c \<le> ?e" "?e \<le> e" "k \<le> e"
    using "2.prems"(1-3) blocks_bounds [of S ?e hi xs] by auto
  consider "t < k" | "k \<le> t" "?e \<le> h" | "k \<le> t" "h < ?e" "h < k \<and> ?e < t"
    | "k \<le> t" "h < ?e" "\<not> (h < k \<and> ?e < t)"
    by linarith
  then show ?case
  proof cases
    case 1
    with "2.prems" show ?thesis by simp
  next
    case 2
    with "2.prems"(8) obtain zs where "noverlap xs h t = (zs, h', t')"
      by (auto simp: Let_def split: prod.splits)
    with 2 "2.IH"(3) [OF _ refl _ b(1,3) "2.prems"(3-7)] show ?thesis by simp
  next
    case 3
    with "2.prems"(8) have "noverlap xs h t = (ys, h', t')"
      by (simp add: Let_def)
    with 3 "2.IH"(1) [OF _ refl _ _ b(1,3) "2.prems"(3-7)] show ?thesis by simp
  next
    case 4
    let ?h = "if k \<le> h then ?e else h" and ?t = "if t \<le> ?e then k else t"
    from 4 "2.prems"(8) obtain zs where z: "noverlap xs ?h ?t = (zs, h', t')"
      unfolding noverlap.simps Let_def by (auto simp del: not_less split: prod.splits)
    have "c \<le> ?h" "?h \<le> e" "c \<le> ?t" "?t \<le> e"
      using b "2.prems" by auto
    with 4 z "2.IH"(2) [OF _ refl _ _ b(1,3) "2.prems"(3)] show ?thesis by simp
  qed
qed simp

text \<open>Word comparisons of offsets inside one half of the sequence space.\<close>

lemma win_seq:
  assumes "c \<le> k" "k < c + 2 ^ 31" "c \<le> l" "l < c + 2 ^ 31"
  shows "seq_gt (seqof b k) (seqof b l) \<longleftrightarrow> l < k"
    and "seq_le (seqof b k) (seqof b l) \<longleftrightarrow> k \<le> l"
    and "seq_lt (seqof b k) (seqof b l) \<longleftrightarrow> k < l"
    and "seq_ge (seqof b k) (seqof b l) \<longleftrightarrow> l \<le> k"
    and "seqof b k = seqof b l \<longleftrightarrow> k = l"
  using assms by (simp_all add: seq_simps)

lemma rx_overlap_sim:
  assumes "blocks S lo hi xs" "c \<le> lo" "hi < c + 2 ^ 31"
    and "c \<le> h" "h < c + 2 ^ 31" "c \<le> t" "t < c + 2 ^ 31"
    and "noverlap xs h t = (ys, h', t')"
  shows "rx_overlap (img b xs) (seqof b h) (seqof b t) sz
    = (img b ys, seqof b h', seqof b t', sz - of_nat (nbytes xs) + of_nat (nbytes ys))"
  using assms
proof (induction xs h t arbitrary: lo ys h' t' sz rule: noverlap.induct)
  case (2 k p xs h t)
  let ?e = "k + length p"
  have b: "lo \<le> k" "blocks S ?e hi xs"
    using "2.prems"(1) by simp_all
  have e: "?e \<le> hi"
    using b(2) by (rule blocks_bounds)
  have bnd: "c \<le> k" "k < c + 2 ^ 31" "c \<le> ?e" "?e < c + 2 ^ 31"
    using b e "2.prems" by auto
  note w = win_seq [OF bnd(1,2) "2.prems"(4,5), of b] win_seq [OF bnd(1,2) "2.prems"(6,7), of b]
    win_seq [OF bnd(3,4) "2.prems"(4,5), of b] win_seq [OF bnd(3,4) "2.prems"(6,7), of b]
  show ?case
  proof (cases "k \<le> t")
    case False
    then have "ys = (k, p) # xs" "h' = h" "t' = t"
      using "2.prems"(8) by simp_all
    with False w(7) show ?thesis by simp
  next
    case True
    show ?thesis
    proof (cases "h < ?e")
      case False
      with True "2.prems"(8) obtain zs where z: "noverlap xs h t = (zs, h', t')" "ys = (k, p) # zs"
        by (auto simp: Let_def split: prod.splits)
      with "2.IH"(3) [OF _ refl _ b(2) bnd(3) "2.prems"(3-7) z(1)] True False w show ?thesis
        by (auto simp: Let_def seqof_pkt_size)
    next
      case h: True
      show ?thesis
      proof (cases "h < k \<and> ?e < t")
        case True
        with h \<open>k \<le> t\<close> "2.prems"(8) have z: "noverlap xs h t = (ys, h', t')"
          by (auto simp: Let_def)
        have "rx_overlap (img b xs) (seqof b h) (seqof b t) (sz - pkt_size p)
          = (img b ys, seqof b h', seqof b t',
             sz - of_nat (nbytes ((k, p) # xs)) + of_nat (nbytes ys))"
          using "2.IH"(1) [OF _ refl _ _ b(2) bnd(3) "2.prems"(3-7) z] True h \<open>k \<le> t\<close>
          by (simp add: pkt_size_def algebra_simps)
        with True h \<open>k \<le> t\<close> w show ?thesis
          by (simp add: Let_def seqof_pkt_size)
      next
        case False
        let ?h = "if k \<le> h then ?e else h" and ?t = "if t \<le> ?e then k else t"
        obtain zs where z: "noverlap xs ?h ?t = (zs, h', t')" "ys = (k, p) # zs"
          using False h \<open>k \<le> t\<close> "2.prems"(8) unfolding noverlap.simps Let_def
          by (auto simp del: not_less split: prod.splits)
        have "c \<le> ?h" "?h < c + 2 ^ 31" "c \<le> ?t" "?t < c + 2 ^ 31"
          using bnd "2.prems" by auto
        with z "2.IH"(2) [OF _ refl _ _ b(2) bnd(3) "2.prems"(3) _ _ _ _ z(1)] False h \<open>k \<le> t\<close>
        have "rx_overlap (img b xs) (seqof b ?h) (seqof b ?t) sz
          = (img b zs, seqof b h', seqof b t', sz - of_nat (nbytes xs) + of_nat (nbytes zs))"
          by auto
        moreover have "(if seq_le (seqof b k) (seqof b h) then seqof b ?e else seqof b h) = seqof b ?h"
          "(if seq_ge (seqof b ?e) (seqof b t) then seqof b k else seqof b t) = seqof b ?t"
          using w by auto
        moreover have "\<not> (seq_gt (seqof b k) (seqof b h) \<and> seq_lt (seqof b ?e) (seqof b t))"
          "seq_gt (seqof b ?e) (seqof b h)" "seq_le (seqof b k) (seqof b t)"
          using False h \<open>k \<le> t\<close> w by auto
        ultimately show ?thesis
          using z(2) by (auto simp: Let_def seqof_pkt_size)
      qed
    qed
  qed
qed simp

subsection \<open>Insertion\<close>

lemma nput_blocks:
  assumes "blocks S lo hi xs" "lo \<le> h" "h + length p \<le> hi" "p \<noteq> []" "stream_seg S h (length p) = p"
    and "covers xs \<inter> {h ..< h + length p} = {}"
  shows "blocks S lo hi (nput h p xs) \<and> covers (nput h p xs) = covers xs \<union> {h ..< h + length p}
    \<and> nbytes (nput h p xs) = nbytes xs + length p"
  using assms
proof (induction xs arbitrary: lo)
  case (Cons x xs)
  obtain k q where x: "x = (k, q)" by (cases x)
  let ?e = "k + length q"
  have b: "lo \<le> k" "q \<noteq> []" "stream_seg S k (length q) = q" "blocks S ?e hi xs"
    using Cons.prems(1) unfolding x by simp_all
  have disj: "{k ..< ?e} \<inter> {h ..< h + length p} = {}" "covers xs \<inter> {h ..< h + length p} = {}"
    using Cons.prems(6) unfolding x covers.simps by blast+
  consider "h + length p \<le> k" | "?e \<le> h"
    using interval_disjoint [OF disj(1)] Cons.prems(4) b(2)
    by (metis length_greater_0_conv less_add_same_cancel1)
  then show ?case
  proof cases
    case 1
    then have "h < k"
      using Cons.prems(4) by (cases p) auto
    with 1 Cons.prems(2,4,5) b x show ?thesis by auto
  next
    case 2
    have "0 < length q"
      using b(2) by simp
    with 2 have lt: "\<not> h < k" "k < h" by linarith+
    show ?thesis
      using Cons.IH [OF b(4) 2 Cons.prems(3-5) disj(2)] b x lt by auto
  qed
qed simp

lemma rx_put_sim:
  assumes "blocks S lo hi xs" "c \<le> lo" "hi < c + 2 ^ 31" "c \<le> h" "h < c + 2 ^ 31"
  shows "rx_put (seqof b h) p (img b xs) = img b (nput h p xs)"
  using assms
proof (induction xs arbitrary: lo)
  case (Cons x xs)
  obtain k q where x: "x = (k, q)" by (cases x)
  have b: "lo \<le> k" "q \<noteq> []" "blocks S (k + length q) hi xs"
    using Cons.prems(1) x by simp_all
  have bnd: "c \<le> k" "k < c + 2 ^ 31"
    using b Cons.prems blocks_bounds [OF b(3)] by auto
  show ?case
    using Cons.IH [OF b(3)] Cons.prems bnd x
      win_seq [OF bnd Cons.prems(4,5), of b] win_seq [OF Cons.prems(4,5) bnd, of b] by auto
qed simp

lemma rx_has_sim:
  assumes "blocks S lo hi xs" "c \<le> lo" "hi < c + 2 ^ 31" "c \<le> h" "h < c + 2 ^ 31"
    and "h \<notin> covers xs"
  shows "\<not> rx_has (seqof b h) (img b xs)"
  using assms
proof (induction xs arbitrary: lo)
  case (Cons x xs)
  obtain k q where x: "x = (k, q)" by (cases x)
  have b: "lo \<le> k" "q \<noteq> []" "blocks S (k + length q) hi xs"
    using Cons.prems(1) x by simp_all
  have bnd: "c \<le> k" "k < c + 2 ^ 31"
    using b Cons.prems blocks_bounds [OF b(3)] by auto
  have "k \<noteq> h"
    using Cons.prems(6) x b(2) by auto
  then show ?case
    using Cons.IH [OF b(3)] Cons.prems bnd x
      win_seq [OF bnd Cons.prems(4,5), of b] win_seq [OF Cons.prems(4,5) bnd, of b] by auto
qed simp

lemma set_nput: "set (nput h p xs) \<subseteq> insert (h, p) (set xs)"
  by (induction xs) (auto split: if_splits)

subsection \<open>The SACK list\<close>

lemma sack_good_merge:
  assumes "sack_good n R (l, m)" "sack_good n R (m, r)"
  shows "sack_good n R (l, r)"
proof -
  have "{l ..< r} \<subseteq> {l ..< m} \<union> {m ..< r}" by auto
  with assms show ?thesis
    by (auto simp: sack_good_def)
qed

lemma sack_good_bound: "sack_good n R x \<Longrightarrow> R \<subseteq> {..< hi} \<Longrightarrow> snd x \<le> hi"
proof -
  assume x: "sack_good n R x" and R: "R \<subseteq> {..< hi}"
  then have "snd x - 1 \<in> {fst x ..< snd x}"
    by (auto simp: sack_good_def)
  then have "snd x - 1 < hi"
    using x R unfolding sack_good_def by blast
  then show "snd x \<le> hi" by simp
qed

lemma sack_merge_ok:
  assumes "sack_good n R bgn" "\<forall>x \<in> set pre. sack_good n R x" "\<forall>x \<in> set rest. sack_good n R x"
    and "R \<subseteq> {..< hi}" "hi < n + 2 ^ 31"
  shows "\<exists>rs. sack_merge (seqof b (fst bgn), seqof b (snd bgn)) (simg b pre) (simg b rest) = Inr (simg b rs)
    \<and> (\<forall>x \<in> set rs. sack_good n R x) \<and> length rs \<le> Suc (length pre + length rest)
    \<and> rs \<noteq> [] \<and> fst (hd rs) \<le> fst bgn \<and> snd bgn \<le> snd (hd rs)"
  using assms(1-3)
proof (induction "(length pre + length rest) * Suc (length pre + length rest) + length rest"
    arbitrary: bgn pre rest rule: less_induct)
  case less
  show ?case
  proof (cases rest)
    case Nil
    with less.prems show ?thesis
      by (intro exI [of _ "bgn # pre"]) auto
  next
    case (Cons cur more)
    have g: "sack_good n R cur" "\<forall>x \<in> set more. sack_good n R x"
      using less.prems Cons by auto
    have bnd: "n < fst bgn" "fst bgn < snd bgn" "snd bgn \<le> hi"
      "n < fst cur" "fst cur < snd cur" "snd cur \<le> hi"
      using less.prems g sack_good_bound [OF _ assms(4)] by (auto simp: sack_good_def)
    have eqs: "seqof b (fst bgn) = seqof b (snd cur) \<longleftrightarrow> fst bgn = snd cur"
      "seqof b (snd bgn) = seqof b (fst cur) \<longleftrightarrow> snd bgn = fst cur"
      using bnd assms(5) by (auto simp: seq_simps)
    let ?T = "length pre + length rest"
    have IH: "\<exists>rs. sack_merge (seqof b (fst bg), seqof b (snd bg)) (simg b []) (simg b (pre @ more))
        = Inr (simg b rs) \<and> (\<forall>x \<in> set rs. sack_good n R x)
        \<and> length rs \<le> Suc (length ([] :: (nat \<times> nat) list) + length (pre @ more))
        \<and> rs \<noteq> [] \<and> fst (hd rs) \<le> fst bg \<and> snd bg \<le> snd (hd rs)"
      if "sack_good n R bg" for bg
    proof (rule less.hyps [OF _ that])
      show "(length ([] :: (nat \<times> nat) list) + length (pre @ more))
          * Suc (length ([] :: (nat \<times> nat) list) + length (pre @ more)) + length (pre @ more)
        < ?T * Suc ?T + length rest"
        using Cons by (simp add: algebra_simps)
    qed (use g(2) less.prems(2) in auto)
    consider "fst bgn = snd cur" | "fst bgn \<noteq> snd cur" "snd bgn = fst cur"
      | "fst bgn \<noteq> snd cur" "snd bgn \<noteq> fst cur" by blast
    then show ?thesis
    proof cases
      case 1
      have "sack_good n R (fst cur, snd bgn)"
        using sack_good_merge [of n R "fst cur" "snd cur" "snd bgn"] g(1) less.prems(1) 1
        by (metis prod.collapse)
      from IH [OF this] obtain rs where rs:
        "sack_merge (seqof b (fst cur), seqof b (snd bgn)) [] (simg b (pre @ more)) = Inr (simg b rs)"
        "\<forall>x \<in> set rs. sack_good n R x" "length rs \<le> Suc (length pre + length more)"
        "rs \<noteq> []" "fst (hd rs) \<le> fst cur" "snd bgn \<le> snd (hd rs)"
        unfolding simg_simps(1) fst_conv snd_conv length_append list.size(3) add_0 by blast
      have "seq_lt (seqof b (fst cur)) (seqof b (snd bgn))"
        using bnd 1 assms(5) by (simp add: seq_simps)
      then have "sack_merge (seqof b (fst bgn), seqof b (snd bgn)) (simg b pre) (simg b rest)
          = Inr (simg b rs)"
        using rs(1) 1 eqs by (simp add: Cons)
      moreover have "fst (hd rs) \<le> fst bgn" "length rs \<le> Suc (length pre + length rest)"
        using rs(3,5,6) bnd 1 Cons by simp_all
      ultimately show ?thesis
        using rs(2,4-6) by blast
    next
      case 2
      have "sack_good n R (fst bgn, snd cur)"
        using sack_good_merge [of n R "fst bgn" "snd bgn" "snd cur"] g(1) less.prems(1) 2
        by (metis prod.collapse)
      from IH [OF this] obtain rs where rs:
        "sack_merge (seqof b (fst bgn), seqof b (snd cur)) [] (simg b (pre @ more)) = Inr (simg b rs)"
        "\<forall>x \<in> set rs. sack_good n R x" "length rs \<le> Suc (length pre + length more)"
        "rs \<noteq> []" "fst (hd rs) \<le> fst bgn" "snd cur \<le> snd (hd rs)"
        unfolding simg_simps(1) fst_conv snd_conv length_append list.size(3) add_0 by blast
      have "seq_lt (seqof b (fst bgn)) (seqof b (snd cur))"
        using bnd 2 assms(5) by (simp add: seq_simps)
      then have "sack_merge (seqof b (fst bgn), seqof b (snd bgn)) (simg b pre) (simg b rest)
          = Inr (simg b rs)"
        using rs(1) 2 eqs by (simp add: Cons)
      moreover have "snd bgn \<le> snd (hd rs)" "length rs \<le> Suc (length pre + length rest)"
        using rs(3,5,6) bnd 2 Cons by simp_all
      ultimately show ?thesis
        using rs(2,4-6) by blast
    next
      case 3
      have "sack_merge (seqof b (fst bgn), seqof b (snd bgn)) (simg b pre) (simg b rest)
        = sack_merge (seqof b (fst bgn), seqof b (snd bgn)) (simg b (pre @ [cur])) (simg b more)"
        using 3 eqs Cons by simp
      moreover have "(length (pre @ [cur]) + length more) * Suc (length (pre @ [cur]) + length more)
        + length more < ?T * Suc ?T + length rest"
        using Cons by simp
      ultimately show ?thesis
        using less.hyps [of "pre @ [cur]" more bgn] less.prems g Cons by auto
    qed
  qed
qed

lemma ClearSackList_sim:
  assumes "\<forall>x \<in> set ss. sack_good n R x" "R \<subseteq> {..< hi}" "hi < n + 2 ^ 31" "n \<le> m" "m \<le> hi"
  shows "ClearSackList (seqof b m) (simg b ss) = Inr (simg b (filter (\<lambda>x. m < snd x) ss))"
  using assms(1)
proof (induction ss)
  case (Cons x ss)
  have "n < fst x" "fst x < snd x" "snd x \<le> hi"
    using Cons.prems sack_good_bound [OF _ assms(2)] by (auto simp: sack_good_def)
  with assms(3-5) have "seq_lt (seqof b (fst x)) (seqof b (snd x))"
    "seq_le (seqof b (snd x)) (seqof b m) \<longleftrightarrow> snd x \<le> m"
    by (simp_all add: seq_simps)
  with Cons show ?case by auto
qed simp

end
