(* ===== verification/RxStream.thy ===== *)
theory RxStream
  imports RxBlocks
begin

text \<open>
  The receive buffer against the peer's byte stream: the representation relation
  \<open>rx_rel\<close>, the specification of \<open>Add\<close>, \<open>Extract\<close> and \<open>SetFinSequence\<close> over it,
  and the runs of the buffer.
\<close>

text \<open>
  \<open>rx_rel b S d n f R rx\<close>: \<open>d\<close> bytes have been delivered, \<open>R\<close> is the set of
  offsets of the bytes held, \<open>n\<close> is the first byte missing, \<open>f\<close> the offset of
  the FIN when one has been announced.  All bytes held lie within \<open>2 ^ 29\<close> of \<open>d\<close>.
\<close>

definition rx_rel ::
  "seq \<Rightarrow> (nat \<Rightarrow> u8) \<Rightarrow> nat \<Rightarrow> nat \<Rightarrow> nat \<Rightarrow> nat set \<Rightarrow> rx_buffer \<Rightarrow> bool" where
  "rx_rel b S d n f R rx \<longleftrightarrow>
    d \<le> n \<and> {d ..< n} \<subseteq> R \<and> n \<notin> R \<and>
    (\<exists>xs. rx_data rx = img b xs \<and> blocks S d (d + 2 ^ 29) xs \<and> R = covers xs
      \<and> rx_size rx = of_nat (nbytes xs)) \<and>
    (\<exists>ss. rx_sackList rx = simg b ss \<and> length ss \<le> 4 \<and> (\<forall>x \<in> set ss. sack_good n R x)) \<and>
    rx_availBytes rx = of_nat (n - d) \<and>
    rx_nextRxSeq rx = seqof b (if rx_gotFin rx \<and> n = f then Suc n else n) \<and>
    (rx_gotFin rx \<longrightarrow> rx_finSeq rx = seqof b f \<and> R \<subseteq> {..< f} \<and> n \<le> f \<and> f \<le> d + 2 ^ 29) \<and>
    unat (rx_maxBuffer rx) \<le> 2 ^ 29"

text \<open>The offsets a segment \<open>{h ..< h + l}\<close> adds: those not yet passed and inside the window.\<close>

definition rx_accepted :: "nat \<Rightarrow> nat set \<Rightarrow> nat \<Rightarrow> nat \<Rightarrow> nat \<Rightarrow> nat set" where
  "rx_accepted n R maxBuffer h l =
    {k \<in> {h ..< h + l}. n \<le> k \<and> (R = {} \<or> k < Min R + maxBuffer)}"

text \<open>
  Runs of a buffer fed with segments of a stream of \<open>F\<close> bytes, in any order, with
  any overlap and repetition, with the bytes delivered so far.  Segments and the
  FIN are no farther than \<open>2 ^ 29\<close> bytes from the bytes delivered.
\<close>

inductive rx_run :: "seq \<Rightarrow> (nat \<Rightarrow> u8) \<Rightarrow> nat \<Rightarrow> rx_buffer \<Rightarrow> packet \<Rightarrow> bool"
  for b :: seq and S :: "nat \<Rightarrow> u8" and F :: nat where
  rx_start: "unat m \<le> 2 ^ 29 \<Longrightarrow> rx_run b S F (SetMaxBufferSize m (TcpRxBuffer b)) []"
| rx_seg: "rx_run b S F rx out \<Longrightarrow> length out \<le> h + 2 ^ 29 \<Longrightarrow> h + l \<le> length out + 2 ^ 29
    \<Longrightarrow> h + l \<le> F
    \<Longrightarrow> RxAdd (stream_seg S h l) (seqof b h) rx = Inr (stored, rx') \<Longrightarrow> rx_run b S F rx' out"
| rx_fin: "rx_run b S F rx out \<Longrightarrow> \<not> rx_gotFin rx \<Longrightarrow> F \<le> length out + 2 ^ 29
    \<Longrightarrow> rx_run b S F (SetFinSequence (seqof b F) rx) out"
| rx_read: "rx_run b S F rx out \<Longrightarrow> Extract m rx = Inr (None, rx') \<Longrightarrow> rx_run b S F rx' out"
| rx_read_some: "rx_run b S F rx out \<Longrightarrow> Extract m rx = Inr (Some p, rx')
    \<Longrightarrow> rx_run b S F rx' (out @ p)"

text \<open>The invariant of all runs.\<close>

definition rx_run_inv :: "seq \<Rightarrow> (nat \<Rightarrow> u8) \<Rightarrow> nat \<Rightarrow> rx_buffer \<Rightarrow> packet \<Rightarrow> bool" where
  "rx_run_inv b S F rx out \<longleftrightarrow> out = stream_seg S 0 (length out) \<and> length out \<le> F
    \<and> (\<exists>n R. rx_rel b S (length out) n F R rx \<and> R \<subseteq> {..< F})"

subsection \<open>The advance loop\<close>

lemma nadvance_spec:
  assumes "blocks S lo hi xs" "\<forall>(k, p) \<in> set xs. k < n \<longrightarrow> k + length p \<le> n"
  shows "n \<le> nadvance xs n \<and> {n ..< nadvance xs n} \<subseteq> covers xs \<and> nadvance xs n \<notin> covers xs
    \<and> nadvance xs n \<le> max n hi"
  using assms
proof (induction xs arbitrary: lo n)
  case (Cons x xs)
  obtain k p where x: "x = (k, p)" by (cases x)
  let ?e = "k + length p"
  have b: "blocks S ?e hi xs" "length p > 0" "?e \<le> hi"
    using Cons.prems(1) blocks_bounds [of S ?e hi xs] by (auto simp: x)
  have c: "covers xs \<subseteq> {?e ..< hi}"
    using b(1) by (rule covers_bounds)
  consider "k < n" | "k = n" | "n < k" by linarith
  then show ?case
  proof cases
    case 1
    then have "?e \<le> n" using Cons.prems(2) x by auto
    with 1 Cons.IH [OF b(1), of n] Cons.prems(2) x show ?thesis
      by auto
  next
    case 2
    have "\<forall>(j, q) \<in> set xs. j < ?e \<longrightarrow> j + length q \<le> ?e"
    proof safe
      fix j q assume "(j, q) \<in> set xs" "j < ?e"
      then have "{j ..< j + length q} \<subseteq> {?e ..< hi}"
        using covers_member [of j q xs] c by blast
      with \<open>j < ?e\<close> show "j + length q \<le> ?e"
        by (cases q) auto
    qed
    then have IH: "?e \<le> nadvance xs ?e" "{?e ..< nadvance xs ?e} \<subseteq> covers xs"
      "nadvance xs ?e \<notin> covers xs" "nadvance xs ?e \<le> max ?e hi"
      using Cons.IH [OF b(1), of ?e] by simp_all
    then have "{n ..< nadvance xs ?e} \<subseteq> {n ..< ?e} \<union> covers xs"
      by (meson UnCI atLeastLessThan_iff linorder_not_le subset_eq)
    with IH 2 b(2,3) x show ?thesis
      by auto
  next
    case 3
    with c x show ?thesis by auto
  qed
qed simp

lemma nadvance_ge: "n \<le> nadvance xs n"
  by (induction xs n rule: nadvance.induct) auto

lemma rx_advance_sim:
  assumes "blocks S lo hi xs" "c \<le> lo" "hi < c + 2 ^ 31" "c \<le> n" "n \<le> hi"
    and "\<forall>x \<in> set ss. sack_good m R x" "\<forall>x \<in> set ss. n < snd x" "R \<subseteq> {..< hi}" "c \<le> m" "m \<le> n"
  shows "rx_advance (img b xs) (seqof b n) av (simg b ss)
    = Inr (seqof b (nadvance xs n), av + of_nat (nadvance xs n - n),
           simg b (filter (\<lambda>x. nadvance xs n < snd x) ss))"
  using assms
proof (induction xs arbitrary: lo n av ss)
  case Nil
  then show ?case by (simp add: filter_id_conv)
next
  case (Cons x xs)
  obtain k p where x: "x = (k, p)" by (cases x)
  let ?e = "k + length p"
  have b: "lo \<le> k" "blocks S ?e hi xs" "?e \<le> hi"
    using Cons.prems(1) blocks_bounds [of S ?e hi xs] by (auto simp: x)
  have bnd: "c \<le> k" "k < c + 2 ^ 31" "c \<le> n" "n < c + 2 ^ 31" "c \<le> ?e"
    using b Cons.prems(2-5) by auto
  note w = win_seq [OF bnd(1-4), of b]
  consider "k < n" | "k = n" | "n < k" by linarith
  then show ?case
  proof cases
    case 1
    with Cons.IH [OF b(2) bnd(5) Cons.prems(3-10)] w x show ?thesis
      by simp
  next
    case 2
    let ?ss = "filter (\<lambda>x. ?e < snd x) ss"
    have cl: "ClearSackList (seqof b ?e) (simg b ss) = Inr (simg b ?ss)"
      using Cons.prems b bnd 2 by (intro ClearSackList_sim [where n = m and R = R and hi = hi]) auto
    have "rx_advance (img b xs) (seqof b ?e) (av + pkt_size p) (simg b ?ss)
      = Inr (seqof b (nadvance xs ?e), (av + pkt_size p) + of_nat (nadvance xs ?e - ?e),
             simg b (filter (\<lambda>x. nadvance xs ?e < snd x) ?ss))"
      using Cons.prems b bnd 2 by (intro Cons.IH [OF b(2)]) auto
    moreover note nadvance_ge [of ?e xs]
    moreover have "filter (\<lambda>x. nadvance xs ?e < snd x) ?ss = filter (\<lambda>x. nadvance xs ?e < snd x) ss"
      using nadvance_ge [of ?e xs] by (auto intro: filter_cong)
    moreover have "av + pkt_size p + of_nat (nadvance xs ?e - ?e) = av + of_nat (nadvance xs ?e - n)"
      using nadvance_ge [of ?e xs] 2 by (simp add: pkt_size_def of_nat_diff)
    ultimately show ?thesis
      using 2 w x cl by (simp add: Let_def seqof_pkt_size seqof_add)
  next
    case 3
    with Cons.prems(7) w x show ?thesis
      by (simp add: filter_id_conv)
  qed
qed

subsection \<open>Add\<close>

text \<open>The head and tail of a segment after the window trimming, as offsets.\<close>

lemma rx_window_sim:
  assumes "blocks S d (d + 2 ^ 29) xs" "d \<le> n" "n \<le> d + 2 ^ 29 + 1"
    and "d \<le> h + 2 ^ 29" "h \<le> t" "t \<le> d + 2 ^ 29" "unat (rx_maxBuffer rx) \<le> 2 ^ 29"
    and "rx_data rx = img b xs" "rx_nextRxSeq rx = seqof b n"
  obtains h1 t1 where "rx_window (seqof b h) (seqof b t) rx = (seqof b h1, seqof b t1)"
    and "{h1 ..< t1} = {k \<in> {h ..< t}. n \<le> k \<and> (xs = [] \<or> k < fst (hd xs) + unat (rx_maxBuffer rx))}"
    and "h1 < t1 \<longrightarrow> h \<le> h1 \<and> n \<le> h1" "t1 \<le> t" "d \<le> h1 + 2 ^ 29" "h1 \<le> d + 2 ^ 29 + 1" "d \<le> t1 + 2 ^ 29"
proof -
  let ?h = "max h n" and ?m = "unat (rx_maxBuffer rx)"
  have lt: "seq_lt (seqof b h) (seqof b n) \<longleftrightarrow> h < n"
    using assms by (simp add: seq_simps)
  then have mx: "(if seq_lt (seqof b h) (seqof b n) then seqof b n else seqof b h) = seqof b ?h"
    by (simp add: max_def)
  show ?thesis
  proof (cases xs)
    case Nil
    then have "rx_window (seqof b h) (seqof b t) rx = (seqof b ?h, seqof b t)"
      using assms lt by (simp add: rx_window_def Let_def max_def)
    moreover have "{?h ..< t} = {k \<in> {h ..< t}. n \<le> k}" by auto
    ultimately show ?thesis
      using that [of ?h t] Nil assms by auto
  next
    case (Cons x xs')
    obtain k p where x: "x = (k, p)" by (cases x)
    have k: "d \<le> k" "k \<le> d + 2 ^ 29"
      using assms(1) Cons x blocks_bounds [of S "k + length p" "d + 2 ^ 29" xs'] by auto
    let ?t = "min (k + ?m) t"
    let ?h' = "min ?h ?t"
    have "seq_lt (seqof b (k + ?m)) (seqof b t) \<longleftrightarrow> k + ?m < t"
      "seq_lt (seqof b ?t) (seqof b ?h) \<longleftrightarrow> ?t < ?h"
      using assms k by (auto intro!: seq_ord_seqof)
    then have mt: "(if seq_lt (seqof b (k + ?m)) (seqof b t) then seqof b (k + ?m) else seqof b t) = seqof b ?t"
      and mh: "(if seq_lt (seqof b ?t) (seqof b ?h) then seqof b ?t else seqof b ?h) = seqof b ?h'"
      by (auto simp: not_less min.absorb1 min.absorb2)
    have "rx_window (seqof b h) (seqof b t) rx = (seqof b ?h', seqof b ?t)"
      unfolding rx_window_def assms(8,9) Cons x img_simps list.case prod.case Let_def seqof_word mx mt mh
      by (rule refl)
    moreover have "{?h' ..< ?t} = {j \<in> {h ..< t}. n \<le> j \<and> j < k + ?m}"
      by (auto simp: min_less_iff_disj)
    then have "{?h' ..< ?t} = {j \<in> {h ..< t}. n \<le> j \<and> (xs = [] \<or> j < fst (hd xs) + ?m)}"
      by (simp add: Cons x)
    moreover have "?h' < ?t \<longrightarrow> h \<le> ?h' \<and> n \<le> ?h'" by linarith
    moreover have "?t \<le> t" "d \<le> ?h' + 2 ^ 29" "?h' \<le> d + 2 ^ 29 + 1" "d \<le> ?t + 2 ^ 29"
      using assms(2-7) k by linarith+
    ultimately show ?thesis
      by (rule that)
  qed
qed

lemma Min_covers:
  assumes "blocks S lo hi xs" "xs \<noteq> []"
  shows "covers xs \<noteq> {} \<and> Min (covers xs) = fst (hd xs)"
proof -
  obtain k p xs' where x: "xs = (k, p) # xs'"
    using assms(2) by (cases xs) auto
  have "covers xs' \<subseteq> {k + length p ..< hi}" "p \<noteq> []"
    using assms(1) x covers_bounds [of S "k + length p"] by auto
  then have "k \<in> covers xs" "\<forall>j \<in> covers xs. k \<le> j" "finite (covers xs)"
    using x by (auto intro: finite_subset)
  then show ?thesis
    using x by (auto intro!: Min_eqI)
qed

lemma rx_sacks_updated:
  assumes "sack_good n R (h, t)" "\<forall>x \<in> set ss. sack_good n R x" "length ss \<le> 4"
    and "R \<subseteq> {..< hi}" "hi < n + 2 ^ 31" "rx_sackList rx = simg b ss" "rx_nextRxSeq rx = seqof b n"
  shows "\<exists>rs. UpdateSackList (seqof b h) (seqof b t) rx = Inr (rx\<lparr>rx_sackList := simg b rs\<rparr>)
    \<and> (\<forall>x \<in> set rs. sack_good n R x) \<and> length rs \<le> 4"
proof -
  obtain rs where rs: "sack_merge (seqof b h, seqof b t) [] (simg b ss) = Inr (simg b rs)"
    "\<forall>x \<in> set rs. sack_good n R x" "length rs \<le> 5"
    using sack_merge_ok [OF assms(1) _ assms(2,4,5), of "[]" b] assms(3) by fastforce
  have t: "t \<le> hi" "n < h" "h < t"
    using assms(1) sack_good_bound [OF assms(1,4)] by (auto simp: sack_good_def)
  then have "seq_gt (seqof b h) (rx_nextRxSeq rx)"
    using assms(5,7) by (simp add: seq_simps)
  moreover have "\<forall>x \<in> set (butlast rs). sack_good n R x"
    using rs(2) by (meson in_set_butlastD)
  ultimately show ?thesis
    using rs assms(6)
    by (intro exI [of _ "if length rs > 4 then butlast rs else rs"]) (auto simp: UpdateSackList_def)
qed

text \<open>Blocks that survive \<open>ClearSackList\<close> lie wholly beyond the first missing byte.\<close>

lemma sack_good_filter:
  assumes "\<forall>x \<in> set rs. sack_good n R x" "n' \<notin> R"
  shows "\<forall>x \<in> set (filter (\<lambda>x. n' < snd x) rs). sack_good n' R x"
proof
  fix x assume x: "x \<in> set (filter (\<lambda>x. n' < snd x) rs)"
  then have "{fst x ..< snd x} \<subseteq> R" "fst x < snd x" "n' < snd x"
    using assms(1) by (auto simp: sack_good_def)
  moreover from this have "n' < fst x"
    using assms(2) by (meson atLeastLessThan_iff linorder_not_le subsetD)
  ultimately show "sack_good n' R x"
    by (simp add: sack_good_def)
qed

text \<open>The SACK step of \<open>Add\<close>: a new block only for data out of sequence.\<close>

lemma rx_store_sacks:
  assumes "n \<le> h" "h < t" "{h ..< t} \<subseteq> R" "R \<subseteq> {..< hi}" "hi < n + 2 ^ 31"
    and "rx_sackList rx = simg b ss" "length ss \<le> 4" "\<forall>x \<in> set ss. sack_good n R x"
    and "rx_nextRxSeq rx = seqof b n"
  shows "\<exists>rs. (if seq_gt (seqof b h) (seqof b n) then UpdateSackList (seqof b h) (seqof b t) rx
      else Inr rx) = Inr (rx\<lparr>rx_sackList := simg b rs\<rparr>)
    \<and> (\<forall>x \<in> set rs. sack_good n R x) \<and> length rs \<le> 4"
proof -
  have "h < hi" using assms(2-4) by auto
  then have gt: "seq_gt (seqof b h) (seqof b n) \<longleftrightarrow> n < h"
    using assms(1,5) by (simp add: seq_simps)
  show ?thesis
  proof (cases "n < h")
    case True
    then have "sack_good n R (h, t)"
      using assms by (auto simp: sack_good_def)
    then show ?thesis
      using rx_sacks_updated [OF _ assms(8,7,4,5,6,9)] gt True by simp
  next
    case False
    with gt assms show ?thesis
      by (intro exI [of _ ss]) (simp add: assms(6) [symmetric])
  qed
qed

text \<open>No entry straddles the first missing byte.\<close>

lemma nput_no_straddle:
  assumes "n \<notin> covers xs" "n \<le> h"
  shows "\<forall>(k, q) \<in> set (nput h p xs). k < n \<longrightarrow> k + length q \<le> n"
proof safe
  fix k q assume "(k, q) \<in> set (nput h p xs)" "k < n"
  then have "(k, q) \<in> set xs"
    using set_nput [of h p xs] assms(2) by auto
  then have "n \<notin> {k ..< k + length q}"
    using covers_member assms(1) by blast
  with \<open>k < n\<close> show "k + length q \<le> n" by simp
qed

lemma rx_store_ok:
  assumes xs: "blocks S d (d + 2 ^ 29) xs" "rx_data rx = img b xs"
    and R: "R = covers xs \<union> {h ..< t}" "covers xs \<inter> {h ..< t} = {}" "h < t" "t \<le> d + 2 ^ 29"
    and n: "d \<le> n" "{d ..< n} \<subseteq> R" "n \<notin> covers xs" "n \<le> h"
    and sz: "rx_size rx = of_nat (nbytes xs)" "rx_availBytes rx = of_nat (n - d)"
    and ss: "rx_sackList rx = simg b ss" "length ss \<le> 4" "\<forall>x \<in> set ss. sack_good n R x"
    and nx: "rx_nextRxSeq rx = seqof b n"
    and fin: "rx_gotFin rx \<longrightarrow> rx_finSeq rx = seqof b f \<and> R \<subseteq> {..< f} \<and> n \<le> f \<and> f \<le> d + 2 ^ 29"
    and mb: "unat (rx_maxBuffer rx) \<le> 2 ^ 29"
  shows "\<exists>rx' n'. rx_store (stream_seg S h (t - h)) (seqof b h) (seqof b t) rx = Inr rx'
    \<and> rx_rel b S d n' f R rx' \<and> rx_maxBuffer rx' = rx_maxBuffer rx"
proof -
  let ?p = "stream_seg S h (t - h)" and ?hi = "d + 2 ^ 29"
  define zs where "zs = nput h ?p xs"
  have hn: "d \<le> h" "h < ?hi" using n R by auto
  have "blocks S d ?hi zs \<and> covers zs = covers xs \<union> {h ..< h + length ?p}
      \<and> nbytes zs = nbytes xs + length ?p"
    unfolding zs_def using xs(1) R hn by (intro nput_blocks) auto
  then have zs: "blocks S d ?hi zs" "covers zs = R" "nbytes zs = nbytes xs + (t - h)"
    using R by auto
  have RR: "R \<subseteq> {..< ?hi}"
    using covers_bounds [OF zs(1)] zs(2) by auto
  have put: "rx_put (seqof b h) ?p (img b xs) = img b zs"
    unfolding zs_def using hn by (intro rx_put_sim [OF xs(1), of d]) auto
  obtain rs where rs: "(if seq_gt (seqof b h) (seqof b n)
      then UpdateSackList (seqof b h) (seqof b t) (rx\<lparr>rx_data := img b zs\<rparr>)
      else Inr (rx\<lparr>rx_data := img b zs\<rparr>)) = Inr (rx\<lparr>rx_data := img b zs, rx_sackList := simg b rs\<rparr>)"
    "\<forall>x \<in> set rs. sack_good n R x" "length rs \<le> 4"
    using rx_store_sacks [OF n(4) R(3) _ RR, of "rx\<lparr>rx_data := img b zs\<rparr>" b ss] R(1) ss nx n(1) by auto
  define n' where "n' = nadvance zs n"
  have "\<forall>(k, q) \<in> set zs. k < n \<longrightarrow> k + length q \<le> n"
    unfolding zs_def by (rule nput_no_straddle [OF n(3,4)])
  from nadvance_spec [OF zs(1) this] zs(2)
  have n': "n \<le> n'" "{n ..< n'} \<subseteq> R" "n' \<notin> R" "n' \<le> ?hi"
    using n hn by (auto simp: n'_def)
  have dn': "{d ..< n'} \<subseteq> R"
    using n(2) n'(2) by (meson atLeastLessThan_iff linorder_not_le subset_iff)
  have "\<forall>x \<in> set rs. n < snd x"
    using rs(2) by (auto simp: sack_good_def)
  then have adv: "rx_advance (img b zs) (seqof b n) (of_nat (n - d)) (simg b rs)
    = Inr (seqof b n', of_nat (n' - d), simg b (filter (\<lambda>x. n' < snd x) rs))"
    using rx_advance_sim [OF zs(1), of d n rs n R b "of_nat (n - d)"] rs(2) RR n hn n'
    by (auto simp: n'_def of_nat_diff)
  note good = sack_good_filter [OF rs(2) n'(3)]
  have fl: "length (filter (\<lambda>x. n' < snd x) rs) \<le> 4"
    using rs(3) by (meson le_trans length_filter_le)
  have nf: "n' \<le> f \<and> (seqof b n' = seqof b f \<longleftrightarrow> n' = f)" if "rx_gotFin rx"
  proof -
    have "n' \<le> f"
      using that fin dn' n n' by (cases "n' = n") (auto dest!: subsetD [of _ _ "n' - 1"])
    with that fin n n' show ?thesis
      by (auto simp: seqof_eq)
  qed
  have size: "rx_size rx + pkt_size ?p = of_nat (nbytes zs)"
    using sz zs(3) by (simp add: pkt_size_def)
  let ?rx' = "rx\<lparr>rx_data := img b zs, rx_sackList := simg b (filter (\<lambda>x. n' < snd x) rs),
     rx_size := of_nat (nbytes zs), rx_availBytes := of_nat (n' - d),
     rx_nextRxSeq := seqof b (if rx_gotFin rx \<and> n' = f then Suc n' else n')\<rparr>"
  have "rx_store ?p (seqof b h) (seqof b t) rx = Inr ?rx'"
    using put rs(1) adv size nf fin xs(2) sz(2) nx
    by (auto simp: rx_store_def Let_def seqof_Suc)
  moreover have "rx_rel b S d n' f R ?rx'"
    unfolding rx_rel_def using n(1) n' dn' zs good fl nf fin mb by auto
  ultimately show ?thesis by auto
qed

lemma rx_rel_accepted:
  assumes "blocks S d hi xs"
  shows "rx_accepted n (covers xs) m h l
    = {k \<in> {h ..< h + l}. n \<le> k \<and> (xs = [] \<or> k < fst (hd xs) + m)}"
  using Min_covers [OF assms] by (cases xs) (auto simp: rx_accepted_def)

text \<open>The two outcomes of \<open>Add\<close> once the loops are known on offsets.\<close>

lemma RxAdd_unfold:
  assumes "rx_window (seqof b h) (seqof b (h + l)) rx = (seqof b h1, seqof b t1)"
    and "rx_overlap (rx_data rx) (seqof b h1) (seqof b t1) (rx_size rx)
      = (img b ys, seqof b h2, seqof b t2, of_nat (nbytes ys))"
    and "seq_ge (seqof b h2) (seqof b t2) \<longleftrightarrow> t2 \<le> h2"
  defines "rx1 \<equiv> rx\<lparr>rx_data := img b ys, rx_size := of_nat (nbytes ys)\<rparr>"
  shows "t2 \<le> h2 \<Longrightarrow> RxAdd (stream_seg S h l) (seqof b h) rx = Inr (False, rx1)"
    and "h2 < t2 \<Longrightarrow> h \<le> h2 \<Longrightarrow> t2 \<le> h + l \<Longrightarrow> l < 2 ^ 32
      \<Longrightarrow> \<not> rx_has (seqof b h2) (img b ys)
      \<Longrightarrow> RxAdd (stream_seg S h l) (seqof b h) rx
        = bindE (rx_store (stream_seg S h2 (t2 - h2)) (seqof b h2) (seqof b t2) rx1)
            (\<lambda>rx. Inr (True, rx))"
proof -
  have tl: "seqof b h + pkt_size (stream_seg S h l) = seqof b (h + l)"
    by (simp add: seqof_pkt_size)
  show "t2 \<le> h2 \<Longrightarrow> RxAdd (stream_seg S h l) (seqof b h) rx = Inr (False, rx1)"
    using assms by (simp add: RxAdd_def Let_def tl)
  assume a: "h2 < t2" "h \<le> h2" "t2 \<le> h + l" "l < 2 ^ 32" "\<not> rx_has (seqof b h2) (img b ys)"
  have "create_fragment (stream_seg S h l) (of_nat (h2 - h)) (of_nat (t2 - h2))
      = Inr (stream_seg S (h + (h2 - h)) (t2 - h2))"
    using a by (intro create_fragment_stream_seg) auto
  moreover have "seq_minus (seqof b h2) (seqof b h) = of_nat (h2 - h)"
    "seq_minus (seqof b t2) (seqof b h2) = of_nat (t2 - h2)"
    using a seq_minus_seqof [of h h2 b] seq_minus_seqof [of h2 t2 b] by simp_all
  ultimately show "RxAdd (stream_seg S h l) (seqof b h) rx
        = bindE (rx_store (stream_seg S h2 (t2 - h2)) (seqof b h2) (seqof b t2) rx1)
            (\<lambda>rx. Inr (True, rx))"
    using a assms by (simp add: RxAdd_def Let_def pkt_size_def seqof_add del: of_nat_diff)
qed

lemma rx_rel_next_bound:
  assumes "blocks S d hi xs" "d \<le> n" "{d ..< n} \<subseteq> covers xs"
  shows "n \<le> hi"
proof (cases "n = d")
  case True
  with blocks_bounds [OF assms(1)] show ?thesis by simp
next
  case False
  then have "n - 1 \<in> {d ..< n}" using assms(2) by auto
  then have "n - 1 < hi"
    using assms(3) covers_bounds [OF assms(1)] by fastforce
  then show ?thesis by simp
qed

lemma RxAdd_refines:
  assumes rel: "rx_rel b S d n f R rx"
    and seg: "d \<le> h + 2 ^ 29" "h + l \<le> d + 2 ^ 29" "rx_gotFin rx \<longrightarrow> h + l \<le> f"
  defines "A \<equiv> rx_accepted n R (unat (rx_maxBuffer rx)) h l"
  shows "\<exists>stored rx' n'. RxAdd (stream_seg S h l) (seqof b h) rx = Inr (stored, rx')
    \<and> rx_rel b S d n' f (R \<union> A) rx' \<and> rx_maxBuffer rx' = rx_maxBuffer rx
    \<and> (stored \<longleftrightarrow> \<not> A \<subseteq> R) \<and> (\<not> stored \<longrightarrow> rx' = rx)"
proof -
  let ?hi = "d + 2 ^ 29"
  define N where "N = (if rx_gotFin rx \<and> n = f then Suc n else n)"
  obtain xs where xs: "rx_data rx = img b xs" "blocks S d ?hi xs" "R = covers xs"
    "rx_size rx = of_nat (nbytes xs)"
    using rel by (auto simp: rx_rel_def)
  obtain ss where ss: "rx_sackList rx = simg b ss" "length ss \<le> 4" "\<forall>x \<in> set ss. sack_good n R x"
    using rel by (auto simp: rx_rel_def)
  have n: "d \<le> n" "{d ..< n} \<subseteq> R" "n \<notin> R" "rx_nextRxSeq rx = seqof b N"
    "rx_availBytes rx = of_nat (n - d)" "unat (rx_maxBuffer rx) \<le> 2 ^ 29"
    "rx_gotFin rx \<longrightarrow> rx_finSeq rx = seqof b f \<and> R \<subseteq> {..< f} \<and> n \<le> f \<and> f \<le> ?hi"
    using rel by (auto simp: rx_rel_def N_def)
  have N: "d \<le> N" "N \<le> ?hi + 1"
    using rx_rel_next_bound [OF xs(2) n(1)] n(1,2) xs(3) by (auto simp: N_def)
  obtain h1 t1 where w: "rx_window (seqof b h) (seqof b (h + l)) rx = (seqof b h1, seqof b t1)"
    "{h1 ..< t1} = {k \<in> {h ..< h + l}. N \<le> k \<and> (xs = [] \<or> k < fst (hd xs) + unat (rx_maxBuffer rx))}"
    "h1 < t1 \<longrightarrow> h \<le> h1 \<and> N \<le> h1" "t1 \<le> h + l" "d \<le> h1 + 2 ^ 29" "h1 \<le> ?hi + 1" "d \<le> t1 + 2 ^ 29"
    by (rule rx_window_sim [OF xs(2) N seg(1) le_add1 seg(2) n(6) xs(1) n(4)])
  have A: "A = {h1 ..< t1}"
    unfolding A_def xs(3) rx_rel_accepted [OF xs(2)] w(2) N_def using seg(3) by auto
  obtain ys h2 t2 where o: "noverlap xs h1 t1 = (ys, h2, t2)"
    by (cases "noverlap xs h1 t1") auto
  have ov: "rx_overlap (rx_data rx) (seqof b h1) (seqof b t1) (rx_size rx)
      = (img b ys, seqof b h2, seqof b t2, of_nat (nbytes ys))"
    using rx_overlap_sim [OF xs(2), of "d - 2 ^ 29" h1 t1 ys h2 t2 b "rx_size rx"] w(4-7) seg o xs
    by auto
  have bnd: "d - 2 ^ 29 \<le> h2" "h2 \<le> ?hi + 1" "d - 2 ^ 29 \<le> t2" "t2 \<le> ?hi + 1"
    using noverlap_bounds [OF xs(2), of "d - 2 ^ 29" "?hi + 1" h1 t1 ys h2 t2] w(4-7) seg(2) o by auto
  then have ge: "seq_ge (seqof b h2) (seqof b t2) \<longleftrightarrow> t2 \<le> h2"
    by (intro seq_ord_seqof) auto
  note U = RxAdd_unfold [OF w(1) ov ge, of S]
  show ?thesis
  proof (cases "h2 < t2")
    case False
    have "ys = xs \<and> A \<subseteq> R"
    proof (cases "h1 < t1")
      case True
      with noverlap_new [OF xs(2) True o] noverlap_spec [OF xs(2) True o] False
      show ?thesis using A xs(3) by auto
    next
      case F: False
      with noverlap_empty [OF xs(2) _ o] A show ?thesis by auto
    qed
    then have "rx\<lparr>rx_data := img b ys, rx_size := of_nat (nbytes ys)\<rparr> = rx" "R \<union> A = R" "A \<subseteq> R"
      using xs by auto
    with U(1) False rel show ?thesis by auto
  next
    case True
    have h1: "h1 < t1"
      using noverlap_empty [OF xs(2) _ o] True by (meson leD linorder_not_le)
    note sp = noverlap_spec [OF xs(2) h1 o] and nw = noverlap_new [OF xs(2) h1 o]
    have Nn: "N = n" "\<not> (rx_gotFin rx \<and> n = f)"
      using h1 w(3,4) seg(3) by (auto simp: N_def split: if_splits)
    have RA: "R \<union> A = covers ys \<union> {h2 ..< t2}" "covers ys \<inter> {h2 ..< t2} = {}" "h \<le> h2" "n \<le> h2"
      "t2 \<le> h + l"
      using sp A xs(3) w(3,4) h1 Nn by auto
    have ysb: "blocks S d ?hi ys" "n \<notin> covers ys"
      using noverlap_lower [OF xs(2) o] noverlap_subset [OF o] covers_mono n(3) xs(3) by blast+
    have "\<not> rx_has (seqof b h2) (img b ys)"
      using bnd True RA(2) by (intro rx_has_sim [OF ysb(1), of "d - 2 ^ 29"]) auto
    then have add: "RxAdd (stream_seg S h l) (seqof b h) rx
        = bindE (rx_store (stream_seg S h2 (t2 - h2)) (seqof b h2) (seqof b t2)
            (rx\<lparr>rx_data := img b ys, rx_size := of_nat (nbytes ys)\<rparr>)) (\<lambda>rx. Inr (True, rx))"
      using U(2) True RA seg by auto
    have "sack_good n (R \<union> A) x" if "x \<in> set ss" for x
      using ss(3) that by (auto simp: sack_good_def)
    moreover have "rx_gotFin rx \<longrightarrow> R \<union> A \<subseteq> {..< f}"
      using n(7) w(2) A seg(3) by auto
    ultimately have "\<exists>rx' n'. rx_store (stream_seg S h2 (t2 - h2)) (seqof b h2) (seqof b t2)
        (rx\<lparr>rx_data := img b ys, rx_size := of_nat (nbytes ys)\<rparr>) = Inr rx'
      \<and> rx_rel b S d n' f (R \<union> A) rx' \<and> rx_maxBuffer rx' = rx_maxBuffer
        (rx\<lparr>rx_data := img b ys, rx_size := of_nat (nbytes ys)\<rparr>)"
      using n ss Nn RA True seg ysb by (intro rx_store_ok [where xs = ys and n = n and ss = ss]) auto
    moreover have "\<not> A \<subseteq> R"
      using nw True RA(1) xs(3) by auto
    ultimately show ?thesis
      using add by auto
  qed
qed

subsection \<open>Extract\<close>

lemma rx_extract_partial:
  assumes "blocks S d hi ((d, p) # xs)" "hi < d + 2 ^ 31" "0 < m" "m < length p"
  shows "rx_erase (seqof b d) (rx_put (seqof b (d + m)) q (img b ((d, p) # xs)))
    = img b ((d + m, q) # xs)"
proof -
  have b: "blocks S (d + length p) hi xs" "d + length p \<le> hi"
    using assms(1) blocks_bounds [of S "d + length p" hi xs] by auto
  have "rx_put (seqof b (d + m)) q (img b ((d, p) # xs)) = img b (nput (d + m) q ((d, p) # xs))"
    using assms b by (intro rx_put_sim [OF assms(1), of d]) auto
  moreover have "nput (d + m) q xs = (d + m, q) # xs"
    using b assms(4) by (cases xs) auto
  ultimately show ?thesis
    using assms(3) by simp
qed

lemma rx_extract_loop_ok:
  assumes "blocks S d hi xs" "hi < d + 2 ^ 31" "hi < 2 ^ 31 + n" "{d ..< n} \<subseteq> covers xs" "d + m \<le> n"
    and "n \<le> N" "N < d + 2 ^ 31"
  shows "\<exists>ys. rx_extract_loop (seqof b N) (img b xs) sz av (of_nat m) out
      = Inr (img b ys, sz - of_nat m, av - of_nat m, out @ stream_seg S d m)
    \<and> blocks S (d + m) hi ys \<and> covers ys = covers xs - {..< d + m} \<and> nbytes xs = nbytes ys + m"
  using assms
proof (induction xs arbitrary: d m sz av out)
  case Nil
  then have "m = 0" by auto
  with Nil show ?case
    by (intro exI [of _ "[]"]) simp
next
  case (Cons x xs)
  obtain k p where x: "x = (k, p)" by (cases x)
  let ?e = "k + length p"
  have b: "blocks S ?e hi xs" "d \<le> k" "p \<noteq> []" "stream_seg S k (length p) = p" "?e \<le> hi"
    using Cons.prems(1) blocks_bounds [of S ?e hi xs] by (auto simp: x)
  have c: "covers xs \<subseteq> {?e ..< hi}"
    using b(1) by (rule covers_bounds)
  show ?case
  proof (cases "m = 0")
    case True
    with Cons.prems(1) x c b(2) show ?thesis
      by (intro exI [of _ "x # xs"]) auto
  next
    case False
    then have "d \<in> {d ..< n}" using Cons.prems(5) by auto
    then have "d \<in> covers (x # xs)" using Cons.prems(4) by blast
    with c b(2) x have k: "k = d" by auto
    have m: "m < 2 ^ 31" "length p < 2 ^ 31"
      using Cons.prems b k by auto
    have "(of_nat m :: u32) \<noteq> 0" using False m of_nat_eq_32 [of m 0] by simp
    moreover have "seq_le (seqof b d) (seqof b N)"
      using Cons.prems by (simp add: seq_simps)
    moreover have le: "pkt_size p \<le> of_nat m \<longleftrightarrow> length p \<le> m"
      using m by (simp add: pkt_size_def word_le_nat_alt)
    ultimately have step: "rx_extract_loop (seqof b N) (img b (x # xs)) sz av (of_nat m) out =
      (if length p \<le> m then
          rx_extract_loop (seqof b N) (img b xs) (sz - of_nat (length p)) (av - of_nat (length p))
            (of_nat (m - length p)) (out @ p)
        else
          bindE (create_fragment p 0 (of_nat m)) (\<lambda>p1.
          bindE (create_fragment p (of_nat m) (of_nat (length p - m))) (\<lambda>p2.
          Inr (rx_erase (seqof b d) (rx_put (seqof b (d + m)) p2 (img b (x # xs))),
               sz - of_nat m, av - of_nat m, out @ p1))))"
      by (simp add: x k Let_def pkt_size_def seqof_add of_nat_diff)
    show ?thesis
    proof (cases "length p \<le> m")
      case True
      have "{?e ..< n} \<subseteq> covers xs"
      proof
        fix j assume j: "j \<in> {?e ..< n}"
        then have "j \<in> covers (x # xs)"
          using Cons.prems(4) b(2) by auto
        with j x show "j \<in> covers xs" by auto
      qed
      then obtain ys where ys: "rx_extract_loop (seqof b N) (img b xs) (sz - of_nat (length p))
            (av - of_nat (length p)) (of_nat (m - length p)) (out @ p)
          = Inr (img b ys, sz - of_nat (length p) - of_nat (m - length p),
              av - of_nat (length p) - of_nat (m - length p), (out @ p) @ stream_seg S ?e (m - length p))"
        "blocks S (?e + (m - length p)) hi ys" "covers ys = covers xs - {..< ?e + (m - length p)}"
        "nbytes xs = nbytes ys + (m - length p)"
        using Cons.IH [OF b(1), of "m - length p" "sz - of_nat (length p)" "av - of_nat (length p)" "out @ p"]
          Cons.prems True k by auto
      moreover have "(out @ p) @ stream_seg S ?e (m - length p) = out @ stream_seg S d m"
        using b(4) k True stream_seg_append [of S d "length p" "m - length p"] by simp
      moreover have "covers xs - {..< d + m} = covers (x # xs) - {..< d + m}"
        using True x k by auto
      ultimately show ?thesis
        using step True k x by (intro exI [of _ ys]) (simp add: of_nat_diff)
    next
      case False
      let ?q = "drop m p"
      have "create_fragment p 0 (of_nat m) = Inr (take m p)"
        using create_fragment_ok [of 0 m p] False m by simp
      moreover have "create_fragment p (of_nat m) (of_nat (length p - m)) = Inr ?q"
        using create_fragment_ok [of m "length p - m" p] False m by simp
      moreover have "rx_erase (seqof b d) (rx_put (seqof b (d + m)) ?q (img b (x # xs)))
          = img b ((d + m, ?q) # xs)"
        using rx_extract_partial [of S d hi p xs m b ?q] Cons.prems x k False \<open>m \<noteq> 0\<close> by auto
      moreover have "take m p = stream_seg S d m" "stream_seg S (d + m) (length ?q) = ?q"
        using b(4) k False take_stream_seg [of m S d "length p"] drop_stream_seg [of m S d "length p"]
        by auto
      moreover have "blocks S (d + m) hi ((d + m, ?q) # xs)"
        using calculation(5) b(1) k False by auto
      moreover have "covers ((d + m, ?q) # xs) = covers (x # xs) - {..< d + m}"
        using x k c False by auto
      ultimately show ?thesis
        using step False x by (intro exI [of _ "(d + m, ?q) # xs"]) auto
    qed
  qed
qed

lemma Extract_refines:
  fixes maxSize :: u32
  assumes rel: "rx_rel b S d n f R rx"
  defines "m \<equiv> min (unat maxSize) (n - d)"
  shows "\<exists>rx'. Extract maxSize rx = Inr (if m = 0 then None else Some (stream_seg S d m), rx')
    \<and> rx_rel b S (d + m) n f (R - {..< d + m}) rx' \<and> rx_gotFin rx' = rx_gotFin rx"
proof -
  let ?hi = "d + 2 ^ 29"
  define N where "N = (if rx_gotFin rx \<and> n = f then Suc n else n)"
  obtain xs where xs: "rx_data rx = img b xs" "blocks S d ?hi xs" "R = covers xs"
    "rx_size rx = of_nat (nbytes xs)"
    using rel by (auto simp: rx_rel_def)
  obtain ss where ss: "rx_sackList rx = simg b ss" "length ss \<le> 4" "\<forall>x \<in> set ss. sack_good n R x"
    using rel by (auto simp: rx_rel_def)
  have n: "d \<le> n" "{d ..< n} \<subseteq> R" "n \<notin> R" "rx_nextRxSeq rx = seqof b N"
    "rx_availBytes rx = of_nat (n - d)" "unat (rx_maxBuffer rx) \<le> 2 ^ 29"
    "rx_gotFin rx \<longrightarrow> rx_finSeq rx = seqof b f \<and> R \<subseteq> {..< f} \<and> n \<le> f \<and> f \<le> ?hi"
    using rel by (auto simp: rx_rel_def N_def)
  have nhi: "n \<le> ?hi"
    using rx_rel_next_bound [OF xs(2) n(1)] n(2) xs(3) by simp
  have mn: "d + m \<le> n" "m < 2 ^ 32" using n(1) nhi by (auto simp: m_def)
  have ex: "min maxSize (rx_availBytes rx) = of_nat m"
  proof -
    have "unat (of_nat (n - d) :: u32) = n - d" using nhi by (simp del: of_nat_diff)
    then show ?thesis
      unfolding n(5) m_def min_def word_le_nat_alt by auto
  qed
  have m0: "(of_nat m :: u32) = 0 \<longleftrightarrow> m = 0"
    using mn of_nat_eq_32 [of m 0] by simp
  show ?thesis
  proof (cases "m = 0")
    case True
    have "covers xs - {..< d} = covers xs"
      using covers_bounds [OF xs(2)] by auto
    with True rel xs(3) ex show ?thesis
      by (auto simp: Extract_def)
  next
    case False
    have "N \<le> Suc n" "n \<le> N" by (auto simp: N_def)
    with xs(2) n nhi mn xs(3) obtain ys where ys:
      "rx_extract_loop (seqof b N) (img b xs) (rx_size rx) (rx_availBytes rx) (of_nat m) []
        = Inr (img b ys, rx_size rx - of_nat m, rx_availBytes rx - of_nat m, [] @ stream_seg S d m)"
      "blocks S (d + m) ?hi ys" "covers ys = covers xs - {..< d + m}" "nbytes xs = nbytes ys + m"
      using rx_extract_loop_ok [OF xs(2), of n m N b "rx_size rx" "rx_availBytes rx" "[]"] by auto
    let ?rx' = "rx\<lparr>rx_data := img b ys, rx_size := rx_size rx - of_nat m,
      rx_availBytes := rx_availBytes rx - of_nat m\<rparr>"
    have "xs \<noteq> []" using False mn n(2) xs(3) by auto
    with ys(1) False m0 ex xs(1) n(4) have "Extract maxSize rx = Inr (Some (stream_seg S d m), ?rx')"
      by (simp add: Extract_def Let_def)
    moreover have "sack_good n (R - {..< d + m}) x" if "x \<in> set ss" for x
      using ss(3) that mn by (auto simp: sack_good_def)
    moreover have "blocks S (d + m) (d + m + 2 ^ 29) ys"
      using ys(2) by (rule blocks_upper) simp
    ultimately show ?thesis
      using False n mn ys(3,4) xs ss(1,2) by (auto simp: rx_rel_def N_def of_nat_diff)
  qed
qed

subsection \<open>The end of the stream\<close>

lemma SetFinSequence_refines:
  assumes "rx_rel b S d n f0 R rx" "\<not> rx_gotFin rx" "R \<subseteq> {..< f}" "n \<le> f" "f \<le> d + 2 ^ 29"
  shows "rx_rel b S d n f R (SetFinSequence (seqof b f) rx)"
proof -
  have "n \<le> d + 2 ^ 29" "d \<le> n" using assms(1,4,5) by (auto simp: rx_rel_def)
  then have "seqof b n = seqof b f \<longleftrightarrow> n = f"
    using assms(4,5) by (simp add: seqof_eq)
  with assms show ?thesis
    by (auto simp: rx_rel_def SetFinSequence_def Let_def seqof_Suc)
qed

lemma Finished_iff:
  assumes "rx_rel b S d n f R rx"
  shows "Finished rx \<longleftrightarrow> rx_gotFin rx \<and> n = f"
proof (cases "rx_gotFin rx")
  case True
  then have "d \<le> n" "n \<le> f" "f \<le> d + 2 ^ 29" "rx_finSeq rx = seqof b f"
    "rx_nextRxSeq rx = seqof b (if n = f then Suc n else n)"
    using assms by (auto simp: rx_rel_def)
  with True show ?thesis
    by (auto simp: Finished_def seq_simps)
qed (simp add: Finished_def)

subsection \<open>Runs\<close>

lemma rx_rel_init:
  "unat m \<le> 2 ^ 29 \<Longrightarrow> rx_rel b S 0 0 f {} (SetMaxBufferSize m (TcpRxBuffer b))"
  by (auto simp: rx_rel_def SetMaxBufferSize_def TcpRxBuffer_def intro!: exI [of _ "[]"])

lemma rx_rel_next_le:
  assumes "rx_rel b S d n f R rx" "R \<subseteq> {..< F}" "d \<le> F"
  shows "n \<le> F"
proof (cases "n = d")
  case False
  then have "n - 1 \<in> {d ..< n}" using assms(1) by (auto simp: rx_rel_def)
  then have "n - 1 < F" using assms(1,2) by (auto simp: rx_rel_def)
  then show ?thesis by simp
qed (use assms in simp)

lemma rx_run_inv_Add:
  assumes "rx_run_inv b S F rx out" "length out \<le> h + 2 ^ 29" "h + l \<le> length out + 2 ^ 29" "h + l \<le> F"
  shows "\<exists>stored rx'. RxAdd (stream_seg S h l) (seqof b h) rx = Inr (stored, rx')
    \<and> rx_run_inv b S F rx' out"
proof -
  obtain n R where R: "rx_rel b S (length out) n F R rx" "R \<subseteq> {..< F}"
    using assms(1) by (auto simp: rx_run_inv_def)
  moreover have "R \<union> rx_accepted n R m h l \<subseteq> {..< F}" for m
    using R(2) assms(4) by (auto simp: rx_accepted_def)
  ultimately show ?thesis
    using RxAdd_refines [OF R(1) assms(2,3)] assms(1,4) unfolding rx_run_inv_def by metis
qed

lemma rx_run_inv_Extract:
  assumes "rx_run_inv b S F rx out"
  shows "\<exists>p rx'. Extract m rx = Inr (p, rx')
    \<and> rx_run_inv b S F rx' (case p of None \<Rightarrow> out | Some p \<Rightarrow> out @ p)"
proof -
  obtain n R where R: "rx_rel b S (length out) n F R rx" "R \<subseteq> {..< F}"
    using assms by (auto simp: rx_run_inv_def)
  let ?m = "min (unat m) (n - length out)"
  obtain rx' where rx': "Extract m rx
      = Inr (if ?m = 0 then None else Some (stream_seg S (length out) ?m), rx')"
    "rx_rel b S (length out + ?m) n F (R - {..< length out + ?m}) rx'"
    using Extract_refines [OF R(1), of m] by auto
  have "n \<le> F" "length out \<le> n"
    using rx_rel_next_le [OF R] assms R(1) by (auto simp: rx_run_inv_def rx_rel_def)
  moreover have "out @ stream_seg S (length out) ?m = stream_seg S 0 (length out + ?m)"
    using assms stream_seg_append [of S 0 "length out" ?m] by (simp add: rx_run_inv_def)
  ultimately show ?thesis
    using rx' R(2) assms by (cases "?m = 0") (auto simp: rx_run_inv_def intro!: exI [of _ n])
qed

lemma rx_run_inv_Fin:
  assumes "rx_run_inv b S F rx out" "\<not> rx_gotFin rx" "F \<le> length out + 2 ^ 29"
  shows "rx_run_inv b S F (SetFinSequence (seqof b F) rx) out"
  using assms SetFinSequence_refines rx_rel_next_le unfolding rx_run_inv_def by meson

lemma rx_run_invariant: "rx_run b S F rx out \<Longrightarrow> rx_run_inv b S F rx out"
proof (induction rule: rx_run.induct)
  case (rx_start m)
  with rx_rel_init show ?case
    by (fastforce simp: rx_run_inv_def)
next
  case (rx_seg rx out h l stored rx')
  with rx_run_inv_Add show ?case by fastforce
next
  case (rx_fin rx out)
  with rx_run_inv_Fin show ?case by blast
next
  case (rx_read rx out m rx')
  with rx_run_inv_Extract [of b S F rx out m] show ?case by auto
next
  case (rx_read_some rx out m p rx')
  with rx_run_inv_Extract [of b S F rx out m] show ?case by auto
qed

lemma blocks_held:
  assumes "blocks S lo hi xs" "k \<in> covers xs"
  shows "\<exists>q p. (q, p) \<in> set xs \<and> q \<le> k \<and> k < q + length p \<and> p ! (k - q) = S k"
  using assms
proof (induction xs arbitrary: lo)
  case (Cons x xs)
  obtain q p where x: "x = (q, p)" by (cases x)
  show ?case
  proof (cases "k \<in> {q ..< q + length p}")
    case True
    have "stream_seg S q (length p) = p" using Cons.prems(1) x by simp
    then have "p ! (k - q) = S k"
      using True stream_seg_nth [of "k - q" "length p" S q] by auto
    with True x show ?thesis by auto
  next
    case False
    then have "k \<in> covers xs" "blocks S (q + length p) hi xs"
      using Cons.prems x by auto
    from Cons.IH [OF this(2,1)] show ?thesis
      by (meson list.set_intros(2))
  qed
qed simp

subsection \<open>Properties\<close>

text \<open>
  A concrete run for the witnesses: a stream of five bytes whose sequence numbers
  wrap behind its second byte.  Its last two bytes arrive first, then its first
  four, then three bytes are read.
\<close>

lemma rx_demo_start:
  "rx_run 4294967294 of_nat 5 (SetMaxBufferSize 100 (TcpRxBuffer 4294967294)) []"
  by (rule rx_start) simp

lemma rx_demo_seg1:
  "RxAdd (stream_seg of_nat 3 2) (seqof 4294967294 3) (SetMaxBufferSize 100 (TcpRxBuffer 4294967294))
    = Inr (True, \<lparr>rx_nextRxSeq = 4294967294, rx_finSeq = 0, rx_gotFin = False, rx_size = 2,
        rx_maxBuffer = 100, rx_availBytes = 0, rx_data = [(1, [3, 4])], rx_sackList = [(1, 3)]\<rparr>)"
  by code_simp

lemma rx_demo_seg2:
  "RxAdd (stream_seg of_nat 0 4) (seqof 4294967294 0)
     \<lparr>rx_nextRxSeq = 4294967294, rx_finSeq = 0, rx_gotFin = False, rx_size = 2,
        rx_maxBuffer = 100, rx_availBytes = 0, rx_data = [(1, [3, 4])], rx_sackList = [(1, 3)]\<rparr>
    = Inr (True, \<lparr>rx_nextRxSeq = 3, rx_finSeq = 0, rx_gotFin = False, rx_size = 5,
        rx_maxBuffer = 100, rx_availBytes = 5,
        rx_data = [(4294967294, [0, 1, 2]), (1, [3, 4])], rx_sackList = []\<rparr>)"
  by code_simp

lemma rx_demo_run:
  "rx_run 4294967294 of_nat 5
     \<lparr>rx_nextRxSeq = 3, rx_finSeq = 0, rx_gotFin = False, rx_size = 5,
        rx_maxBuffer = 100, rx_availBytes = 5,
        rx_data = [(4294967294, [0, 1, 2]), (1, [3, 4])], rx_sackList = []\<rparr> []"
  by (rule rx_seg [OF rx_seg [OF rx_demo_start _ _ _ rx_demo_seg1] _ _ _ rx_demo_seg2]) simp_all

lemma rx_demo_sack_run:
  "rx_run 4294967294 of_nat 5
     \<lparr>rx_nextRxSeq = 4294967294, rx_finSeq = 0, rx_gotFin = False, rx_size = 2,
        rx_maxBuffer = 100, rx_availBytes = 0, rx_data = [(1, [3, 4])], rx_sackList = [(1, 3)]\<rparr> []"
  by (rule rx_seg [OF rx_demo_start _ _ _ rx_demo_seg1]) simp_all

lemma rx_demo_read:
  "rx_run 4294967294 of_nat 5
     \<lparr>rx_nextRxSeq = 3, rx_finSeq = 0, rx_gotFin = False, rx_size = 2,
        rx_maxBuffer = 100, rx_availBytes = 2, rx_data = [(1, [3, 4])], rx_sackList = []\<rparr> [0, 1, 2]"
proof -
  have "Extract 3 \<lparr>rx_nextRxSeq = 3, rx_finSeq = 0, rx_gotFin = False, rx_size = 5,
        rx_maxBuffer = 100, rx_availBytes = 5,
        rx_data = [(4294967294, [0, 1, 2]), (1, [3, 4])], rx_sackList = []\<rparr>
    = Inr (Some [0, 1, 2], \<lparr>rx_nextRxSeq = 3, rx_finSeq = 0, rx_gotFin = False, rx_size = 2,
        rx_maxBuffer = 100, rx_availBytes = 2, rx_data = [(1, [3, 4])], rx_sackList = []\<rparr>)"
    by code_simp
  from rx_read_some [OF rx_demo_run this] show ?thesis by simp
qed

text \<open>
  C3: whatever segments of the peer's stream arrive, in any order and with any
  overlap or repetition within half a gigabyte of the bytes already delivered, and
  however reads are interleaved, the bytes that \<open>Extract\<close> has returned are exactly a
  prefix of the stream, across any number of wraps of the sequence number.
\<close>

theorem rx_delivers_stream_prefix:
  assumes "rx_run b S F rx out"
  shows "out = stream_seg S 0 (length out) \<and> length out \<le> F"
  using rx_run_invariant [OF assms] by (simp add: rx_run_inv_def)

theorem rx_delivers_stream_prefix_witness:
  "([0, 1, 2] :: packet) = stream_seg of_nat 0 (length ([0, 1, 2] :: packet))
    \<and> length ([0, 1, 2] :: packet) \<le> 5"
  by (rule rx_delivers_stream_prefix [OF rx_demo_read])

text \<open>
  C15: \<open>Add\<close> implements the reassembly specification exactly: it stores precisely the
  bytes of the segment that are not yet passed and lie inside the window (no byte
  is lost, none is stored twice or altered), it moves the next expected byte over
  all bytes then in sequence, it returns true iff a byte was new, and it leaves
  the buffer untouched otherwise.
\<close>

theorem rx_add_exact:
  assumes "rx_rel b S d n f R rx" "d \<le> h + 2 ^ 29" "h + l \<le> d + 2 ^ 29"
    and "rx_gotFin rx \<longrightarrow> h + l \<le> f"
    and "A = rx_accepted n R (unat (rx_maxBuffer rx)) h l"
  shows "\<exists>stored rx' n'. RxAdd (stream_seg S h l) (seqof b h) rx = Inr (stored, rx')
    \<and> rx_rel b S d n' f (R \<union> A) rx' \<and> rx_maxBuffer rx' = rx_maxBuffer rx
    \<and> (stored \<longleftrightarrow> \<not> A \<subseteq> R) \<and> (\<not> stored \<longrightarrow> rx' = rx)"
  using RxAdd_refines [OF assms(1-4)] assms(5) by simp

theorem rx_add_exact_witness:
  "\<exists>stored rx' n'. RxAdd (stream_seg of_nat 3 2) (seqof 4294967294 3)
       (SetMaxBufferSize 100 (TcpRxBuffer 4294967294)) = Inr (stored, rx')
    \<and> rx_rel 4294967294 of_nat 0 n' 0 {3, 4} rx' \<and> stored"
proof -
  have "rx_accepted 0 {} 100 3 2 = {3, 4}"
    by (auto simp: rx_accepted_def)
  then show ?thesis
    using rx_add_exact [OF rx_rel_init [of 100 4294967294 of_nat 0] _ _ _ refl, of 3 2]
    by (auto simp: SetMaxBufferSize_def TcpRxBuffer_def)
qed

text \<open>
  C36: \<open>Extract\<close> returns exactly the next \<open>min maxSize available\<close> bytes of the stream,
  where every contiguous byte received is available, and a null packet iff that
  is none; the buffer keeps all other bytes.
\<close>

theorem rx_extract_exact:
  assumes "rx_rel b S d n f R rx" "m = min (unat maxSize) (n - d)"
  shows "\<exists>rx'. Extract maxSize rx = Inr (if m = 0 then None else Some (stream_seg S d m), rx')
    \<and> rx_rel b S (d + m) n f (R - {..< d + m}) rx'"
  using Extract_refines [OF assms(1), of maxSize] assms(2) by blast

theorem rx_extract_exact_witness:
  "\<exists>rx'. Extract 7 (SetMaxBufferSize 100 (TcpRxBuffer 9)) = Inr (None, rx')
    \<and> rx_rel 9 of_nat 0 0 0 {} rx'"
  using rx_extract_exact [OF rx_rel_init [of 100 9 of_nat 0] refl, of 7] by simp

text \<open>
  C28: no run of the receive buffer reaches a failing assertion or an invalid iterator:
  every further segment of the stream is accepted or rejected by \<open>Add\<close> and every
  read by \<open>Extract\<close> returns.
\<close>

theorem rx_never_asserts:
  assumes "rx_run b S F rx out"
  shows "(length out \<le> h + 2 ^ 29 \<longrightarrow> h + l \<le> length out + 2 ^ 29 \<longrightarrow> h + l \<le> F
      \<longrightarrow> is_ok (RxAdd (stream_seg S h l) (seqof b h) rx)) \<and> is_ok (Extract m rx)"
  using rx_run_inv_Add [OF rx_run_invariant [OF assms], of h l]
    rx_run_inv_Extract [OF rx_run_invariant [OF assms], of m]
  by (auto simp: is_ok_iff)

theorem rx_never_asserts_witness:
  "is_ok (RxAdd (stream_seg of_nat 3 2) (seqof 4294967294 3)
     (SetMaxBufferSize 100 (TcpRxBuffer 4294967294)))"
  using rx_never_asserts [OF rx_demo_start, of 3 2] by simp

text \<open>
  C29: the SACK list is truthful: it has at most four blocks, and every byte of every
  block it reports is held in the buffer with the value it has in the stream,
  beyond the next expected byte.
\<close>

theorem rx_sack_truthful:
  assumes "rx_run b S F rx out"
  shows "length (rx_sackList rx) \<le> 4 \<and>
    (\<forall>(l, r) \<in> set (rx_sackList rx). \<exists>i j. l = seqof b i \<and> r = seqof b j \<and> i < j \<and>
      length out + unat (rx_availBytes rx) < i \<and>
      (\<forall>k \<in> {i ..< j}. \<exists>q p. (seqof b q, p) \<in> set (rx_data rx) \<and> q \<le> k \<and> k < q + length p
        \<and> p ! (k - q) = S k))"
proof -
  obtain n R where rel: "rx_rel b S (length out) n F R rx"
    using rx_run_invariant [OF assms] by (auto simp: rx_run_inv_def)
  then obtain xs ss where xs: "rx_data rx = img b xs" "blocks S (length out) (length out + 2 ^ 29) xs"
      "R = covers xs"
    and ss: "rx_sackList rx = simg b ss" "length ss \<le> 4" "\<forall>x \<in> set ss. sack_good n R x"
    by (auto simp: rx_rel_def)
  have "n \<le> length out + 2 ^ 29"
    using rel xs rx_rel_next_bound [OF xs(2)] by (auto simp: rx_rel_def)
  then have n: "length out + unat (rx_availBytes rx) = n"
    using rel by (auto simp: rx_rel_def simp del: of_nat_diff)
  have held: "\<exists>q p. (seqof b q, p) \<in> set (rx_data rx) \<and> q \<le> k \<and> k < q + length p
      \<and> p ! (k - q) = S k" if "k \<in> R" for k
    using blocks_held [OF xs(2), of k] that xs(1,3) by (force simp: img_def)
  have blk: "\<exists>i j. l = seqof b i \<and> r = seqof b j \<and> i < j \<and> n < i \<and> {i ..< j} \<subseteq> R"
    if "(l, r) \<in> set (rx_sackList rx)" for l r
    using that ss(1,3) by (fastforce simp: simg_def sack_good_def)
  show ?thesis
    unfolding n
  proof (intro conjI ballI, goal_cases)
    case 1
    then show ?case using ss(1,2) by simp
  next
    case (2 x)
    then obtain l r where x: "x = (l, r)" "(l, r) \<in> set (rx_sackList rx)"
      by (metis surj_pair)
    from blk [OF x(2)] obtain i j where ij: "l = seqof b i" "r = seqof b j" "i < j" "n < i" "{i ..< j} \<subseteq> R"
      by blast
    have "\<forall>k \<in> {i ..< j}. \<exists>q p. (seqof b q, p) \<in> set (rx_data rx) \<and> q \<le> k \<and> k < q + length p
        \<and> p ! (k - q) = S k"
      using held ij(5) by (meson subsetD)
    then show ?case
      unfolding x(1) prod.case using ij(1-4) by (intro exI [of _ i] exI [of _ j] conjI) simp_all
  qed
qed

theorem rx_sack_truthful_witness:
  "\<exists>i j. (1 :: seq) = seqof 4294967294 i \<and> (3 :: seq) = seqof 4294967294 j \<and> i < j"
  using rx_sack_truthful [OF rx_demo_sack_run] by auto

text \<open>
  \<open>Finished\<close> holds iff the FIN has been announced and every byte before it has
  been received in sequence (delivered or available for reading).
\<close>

theorem rx_finished_iff_complete:
  assumes "rx_run b S F rx out"
  shows "Finished rx \<longleftrightarrow> rx_gotFin rx \<and> length out + unat (rx_availBytes rx) = F"
proof -
  obtain n R where rel: "rx_rel b S (length out) n F R rx"
    using rx_run_invariant [OF assms] by (auto simp: rx_run_inv_def)
  then obtain xs where xs: "blocks S (length out) (length out + 2 ^ 29) xs" "R = covers xs"
    by (auto simp: rx_rel_def)
  have "n \<le> length out + 2 ^ 29"
    using rel xs rx_rel_next_bound [OF xs(1)] by (auto simp: rx_rel_def)
  then have "length out + unat (rx_availBytes rx) = n"
    using rel by (auto simp: rx_rel_def simp del: of_nat_diff)
  with Finished_iff [OF rel] show ?thesis by simp
qed

theorem rx_finished_iff_complete_witness:
  "Finished (SetFinSequence (seqof 4294967294 5) \<lparr>rx_nextRxSeq = 3, rx_finSeq = 0,
     rx_gotFin = False, rx_size = 2, rx_maxBuffer = 100, rx_availBytes = 2,
     rx_data = [(1, [3, 4])], rx_sackList = []\<rparr>)"
  using rx_finished_iff_complete [OF rx_fin [OF rx_demo_read]]
  by (simp add: SetFinSequence_def Let_def)

end
