(* ===== verification/TxBuffer.thy ===== *)
theory TxBuffer
  imports RxBuffer
begin

text \<open>
  The send buffer of src/internet/model/tcp-tx-buffer.cc and its items
  (tcp-tx-item.h).  Items are heap objects with identity in the code; here each
  item carries its address \<open>it_id\<close>, new items take the next unused address, and
  the iterator of \<open>m_highestSack\<close> is the address of the item it points to
  (\<open>None\<close> for the end iterator).  \<open>Time\<close> values are integers (nanosecond ticks).
  The callbacks on delivered items are functions that return the item and a
  state they thread.
\<close>

type_synonym time = int

definition Time_Max :: time where
  "Time_Max = 0x7FFFFFFFFFFFFFFF"

record rate_information =
  ri_delivered :: u64
  ri_deliveredTime :: time
  ri_firstSent :: time
  ri_isAppLimited :: bool

record tx_item =
  it_id :: nat
  it_startSeq :: seq
  it_packet :: packet
  it_lost :: bool
  it_retrans :: bool
  it_sacked :: bool
  it_lastSent :: time
  it_rateInfo :: rate_information

record tx_buffer =
  tx_appList :: "tx_item list"
  tx_sentList :: "tx_item list"
  tx_maxBuffer :: u32
  tx_size :: u32
  tx_sentSize :: u32
  tx_firstByteSeq :: seq
  tx_highestSack :: "nat option \<times> seq"
  tx_lostOut :: u32
  tx_sackedOut :: u32
  tx_retrans :: u32
  tx_dupAckThresh :: u32
  tx_segmentSize :: u32
  tx_renoSack :: bool
  tx_sackEnabled :: bool
  tx_nextId :: nat

type_synonym 's item_callback = "tx_item \<Rightarrow> 's \<Rightarrow> tx_item \<times> 's"

definition default_rate_information :: rate_information where
  "default_rate_information =
    \<lparr> ri_delivered = 0, ri_deliveredTime = Time_Max, ri_firstSent = Time_Max, ri_isAppLimited = False \<rparr>"

definition new_item :: "nat \<Rightarrow> packet \<Rightarrow> tx_item" where
  "new_item i p =
    \<lparr> it_id = i, it_startSeq = 0, it_packet = p, it_lost = False, it_retrans = False,
      it_sacked = False, it_lastSent = Time_Max, it_rateInfo = default_rate_information \<rparr>"

definition isize :: "tx_item \<Rightarrow> u32" where
  "isize it = pkt_size (it_packet it)"

definition GetSeqSize :: "tx_item \<Rightarrow> u32" where
  "GetSeqSize it = (if isize it > 0 then isize it else 1)"

subsection \<open>Construction, sizes and settings\<close>

definition TcpTxBuffer :: "u32 \<Rightarrow> tx_buffer" where
  "TcpTxBuffer n =
    \<lparr> tx_appList = [], tx_sentList = [], tx_maxBuffer = 32768, tx_size = 0, tx_sentSize = 0,
      tx_firstByteSeq = n, tx_highestSack = (None, 0), tx_lostOut = 0, tx_sackedOut = 0,
      tx_retrans = 0, tx_dupAckThresh = 0, tx_segmentSize = 0, tx_renoSack = False,
      tx_sackEnabled = True, tx_nextId = 0 \<rparr>"

definition TailSequence :: "tx_buffer \<Rightarrow> seq" where
  "TailSequence tx = tx_firstByteSeq tx + tx_size tx"

definition TxSetMaxBufferSize :: "u32 \<Rightarrow> tx_buffer \<Rightarrow> tx_buffer" where
  "TxSetMaxBufferSize n tx = tx\<lparr>tx_maxBuffer := n\<rparr>"

definition SetSackEnabled :: "bool \<Rightarrow> tx_buffer \<Rightarrow> tx_buffer" where
  "SetSackEnabled e tx = tx\<lparr>tx_sackEnabled := e\<rparr>"

definition TxAvailable :: "tx_buffer \<Rightarrow> u32" where
  "TxAvailable tx = tx_maxBuffer tx - tx_size tx"

definition SetDupAckThresh :: "u32 \<Rightarrow> tx_buffer \<Rightarrow> tx_buffer" where
  "SetDupAckThresh n tx = tx\<lparr>tx_dupAckThresh := n\<rparr>"

definition SetSegmentSize :: "u32 \<Rightarrow> tx_buffer \<Rightarrow> tx_buffer" where
  "SetSegmentSize n tx = tx\<lparr>tx_segmentSize := n\<rparr>"

definition SetHeadSequence :: "seq \<Rightarrow> tx_buffer \<Rightarrow> tx_buffer result" where
  "SetHeadSequence s tx =
    (let tx = tx\<lparr>tx_firstByteSeq := s\<rparr>;
         tx = (case tx_sentList tx of [] \<Rightarrow> tx
               | it # its \<Rightarrow> tx\<lparr>tx_sentList := it\<lparr>it_startSeq := s\<rparr> # its\<rparr>)
     in ns_assert 176 (tx_sentList tx = []) (Inr (tx\<lparr>tx_highestSack := (None, 0)\<rparr>)))"

definition TxAdd :: "packet \<Rightarrow> tx_buffer \<Rightarrow> bool \<times> tx_buffer" where
  "TxAdd p tx =
    (if pkt_size p \<le> TxAvailable tx then
       (True,
        if pkt_size p > 0 then
          tx\<lparr>tx_appList := tx_appList tx @ [new_item (tx_nextId tx) p],
             tx_nextId := tx_nextId tx + 1,
             tx_size := tx_size tx + pkt_size p\<rparr>
        else tx)
     else (False, tx))"

definition SizeFromSequence :: "seq \<Rightarrow> tx_buffer \<Rightarrow> u32" where
  "SizeFromSequence s tx =
    (let lastSeq = TailSequence tx in
     if seq_ge lastSeq s then seq_minus lastSeq s else 0)"

subsection \<open>Splitting and merging items\<close>

text \<open>\<open>SplitItems t1 t2 size\<close> with \<open>t1\<close> a new item at address \<open>i\<close>.\<close>

definition SplitItems :: "nat \<Rightarrow> tx_item \<Rightarrow> u32 \<Rightarrow> (tx_item \<times> tx_item) result" where
  "SplitItems i t2 sz =
    bindE (create_fragment (it_packet t2) 0 sz) (\<lambda>p.
      Inr ((new_item i p)\<lparr>it_startSeq := it_startSeq t2, it_sacked := it_sacked t2,
             it_lastSent := it_lastSent t2, it_retrans := it_retrans t2, it_lost := it_lost t2\<rparr>,
           t2\<lparr>it_packet := drop (unat sz) (it_packet t2), it_startSeq := it_startSeq t2 + sz\<rparr>))"

text \<open>\<open>MergeItems t1 t2\<close>: the merged first item and the value of \<open>m_retrans\<close>.\<close>

definition MergeItems :: "tx_item \<Rightarrow> tx_item \<Rightarrow> u32 \<Rightarrow> (tx_item \<times> u32) result" where
  "MergeItems t1 t2 retrans =
    ns_assert 593 (it_sacked t1 = it_sacked t2)
    (ns_assert 595 (it_lost t1 = it_lost t2)
      (let (t1, retrans) =
             (if it_retrans t1 \<noteq> it_retrans t2 then
                if it_retrans t1 then (t1\<lparr>it_retrans := False\<rparr>, retrans - isize t1)
                else (t1, retrans - isize t2)
              else (t1, retrans));
           t1 = (if it_lastSent t1 < it_lastSent t2 then t1\<lparr>it_lastSent := it_lastSent t2\<rparr> else t1)
       in Inr (t1\<lparr>it_packet := it_packet t1 @ it_packet t2\<rparr>, retrans)))"

subsection \<open>GetPacketFromList\<close>

text \<open>
  The walk to the item that contains \<open>seq\<close>: the items before it, the item, the
  items behind it and the sequence number at which it begins.
\<close>

fun tx_scan ::
  "bool \<Rightarrow> seq \<Rightarrow> seq \<Rightarrow> seq \<Rightarrow> tx_item list \<Rightarrow> tx_item list
    \<Rightarrow> (tx_item list \<times> tx_item \<times> tx_item list \<times> seq) option result" where
  "tx_scan isSent una s bgn pre [] = Inr None"
| "tx_scan isSent una s bgn pre (it # its) =
    ns_assert 445 (\<not> isSent \<or> seq_ge (it_startSeq it) una)
      (if seq_lt s (bgn + isize it) then Inr (Some (pre, it, its, bgn))
       else tx_scan isSent una s (bgn + isize it) (pre @ [it]) its)"

text \<open>
  \<open>GetPacketFromList\<close> on a list (\<open>isSent\<close> for the sent list).  It returns the
  address of the item found or made, the list, \<open>m_retrans\<close> and the next unused
  address.  The item found always is the current one, so the branch of lines
  512--530 is dead code.  An end behind the item whose size it does not exceed
  in circular order (line 532 without an \<open>else\<close>) repeats the loop for ever.
\<close>

fun GetPacketFromList ::
  "nat \<Rightarrow> bool \<Rightarrow> seq \<Rightarrow> tx_item list \<Rightarrow> seq \<Rightarrow> u32 \<Rightarrow> seq \<Rightarrow> u32 \<Rightarrow> nat
    \<Rightarrow> (nat \<times> tx_item list \<times> u32 \<times> nat) result" where
  "GetPacketFromList 0 isSent una lst listStartFrom numBytes s retrans i = Inl (Diverges 480)"
| "GetPacketFromList (Suc fuel) isSent una lst listStartFrom numBytes s retrans i =
    bindE (tx_scan isSent una s listStartFrom [] lst) (\<lambda>found.
      case found of
        None \<Rightarrow> Inl (NsFatal 582)
      | Some (pre, cur, post, bgn) \<Rightarrow>
          if s = bgn then
            if seq_le (s + numBytes) (bgn + isize cur) then
              if numBytes = isize cur then Inr (it_id cur, lst, retrans, i)
              else if numBytes < isize cur then
                bindE (SplitItems i cur numBytes) (\<lambda>(firstPart, cur').
                  Inr (i, pre @ [firstPart, cur'] @ post, retrans, i + 1))
              else Inl (Diverges 532)
            else
              (case post of
                 [] \<Rightarrow> Inr (it_id cur, lst, retrans, i)
               | nxt # rest \<Rightarrow>
                   bindE (MergeItems cur nxt retrans) (\<lambda>(cur', retrans').
                     GetPacketFromList fuel isSent una (pre @ [cur'] @ rest) listStartFrom numBytes s
                       retrans' i))
          else if seq_gt s bgn then
            bindE (SplitItems i cur (seq_minus s bgn)) (\<lambda>(firstPart, cur').
              GetPacketFromList fuel isSent una (pre @ [firstPart, cur'] @ post) listStartFrom numBytes
                s retrans (i + 1))
          else Inl (NsFatal 484))"

definition list_fuel :: "tx_item list \<Rightarrow> nat" where
  "list_fuel lst = length lst + 2"

fun find_item :: "nat \<Rightarrow> tx_item list \<Rightarrow> tx_item option" where
  "find_item i [] = None"
| "find_item i (it # its) = (if it_id it = i then Some it else find_item i its)"

fun update_item :: "nat \<Rightarrow> (tx_item \<Rightarrow> tx_item) \<Rightarrow> tx_item list \<Rightarrow> tx_item list" where
  "update_item i f [] = []"
| "update_item i f (it # its) = (if it_id it = i then f it # its else it # update_item i f its)"

fun remove_item :: "nat \<Rightarrow> tx_item list \<Rightarrow> tx_item list" where
  "remove_item i [] = []"
| "remove_item i (it # its) = (if it_id it = i then its else it # remove_item i its)"

definition GetNewSegment :: "u32 \<Rightarrow> tx_buffer \<Rightarrow> (tx_item \<times> tx_buffer) result" where
  "GetNewSegment numBytes tx =
    (let startOfAppList = tx_firstByteSeq tx + tx_sentSize tx in
     bindE (GetPacketFromList (list_fuel (tx_appList tx)) False (tx_firstByteSeq tx) (tx_appList tx)
              startOfAppList numBytes startOfAppList (tx_retrans tx) (tx_nextId tx))
       (\<lambda>(i, lst, retrans, next).
          case find_item i lst of
            None \<Rightarrow> Inl (NsAssert 295)
          | Some item \<Rightarrow>
              let item = item\<lparr>it_startSeq := startOfAppList\<rparr> in
              Inr (item,
                tx\<lparr>tx_appList := remove_item i lst, tx_sentList := tx_sentList tx @ [item],
                   tx_sentSize := tx_sentSize tx + isize item, tx_retrans := retrans,
                   tx_nextId := next\<rparr>)))"

text \<open>The loop of \<open>GetTransmittedSegment\<close> that bounds the size of the retransmission.\<close>

fun retransmit_size :: "seq \<Rightarrow> u32 \<Rightarrow> tx_item list \<Rightarrow> u32" where
  "retransmit_size s n [] = n"
| "retransmit_size s n (it # its) =
    (if it_startSeq it = s then
       (case its of
          [] \<Rightarrow> min n (isize it)
        | nxt # _ \<Rightarrow>
            if \<not> it_sacked nxt \<and> it_lost it = it_lost nxt then min n (isize it + isize nxt)
            else min n (isize it))
     else retransmit_size s n its)"

definition GetTransmittedSegment :: "u32 \<Rightarrow> seq \<Rightarrow> tx_buffer \<Rightarrow> (tx_item \<times> tx_buffer) result" where
  "GetTransmittedSegment numBytes s tx =
    ns_assert 308 (seq_ge s (tx_firstByteSeq tx))
    (ns_assert 309 (numBytes \<le> tx_sentSize tx)
    (ns_assert 310 (tx_sentList tx \<noteq> [])
      (bindE (GetPacketFromList (list_fuel (tx_sentList tx)) True (tx_firstByteSeq tx) (tx_sentList tx)
                (tx_firstByteSeq tx) (retransmit_size s numBytes (tx_sentList tx)) s
                (tx_retrans tx) (tx_nextId tx))
        (\<lambda>(i, lst, retrans, next).
           case find_item i lst of
             None \<Rightarrow> Inl (Undefined 348)
           | Some item \<Rightarrow>
               let retrans = (if it_retrans item then retrans else retrans + isize item);
                   item = item\<lparr>it_retrans := True\<rparr>
               in Inr (item,
                    tx\<lparr>tx_sentList := update_item i (\<lambda>_. item) lst, tx_retrans := retrans,
                       tx_nextId := next\<rparr>)))))"

text \<open>
  \<open>CopyFromSequence\<close> at time \<open>now\<close>.  The first argument bounds the recursion of
  line 270, whose call never recurses again.  The comparisons of the partial case
  are on the raw values; when none of the three cases applies the null item is
  dereferenced at line 273.
\<close>

fun copy_from_sequence :: "nat \<Rightarrow> time \<Rightarrow> u32 \<Rightarrow> seq \<Rightarrow> tx_buffer \<Rightarrow> (tx_item option \<times> tx_buffer) result" where
  "copy_from_sequence 0 now numBytes s tx = Inl (Diverges 270)"
| "copy_from_sequence (Suc fuel) now numBytes s tx =
    ns_abort_if 226 (seq_gt (tx_firstByteSeq tx) s)
      (let sz = min numBytes (SizeFromSequence s tx);
           sentEnd = tx_firstByteSeq tx + tx_sentSize tx;
           finish = (\<lambda>(item, tx).
             let item = item\<lparr>it_lastSent := now\<rparr> in
             ns_assert 274 (seq_ge (it_startSeq item) (tx_firstByteSeq tx))
               (Inr (Some item,
                  tx\<lparr>tx_sentList := update_item (it_id item) (\<lambda>_. item) (tx_sentList tx)\<rparr>)))
       in
       if sz = 0 then Inr (None, tx)
       else if seq_ge sentEnd (s + sz) then
         bindE (GetTransmittedSegment sz s tx) (\<lambda>(item, tx).
           ns_assert 245 (\<not> it_sacked item) (finish (item, tx)))
       else if seq_le sentEnd s then
         ns_abort_if 251 (sentEnd \<noteq> s)
           (bindE (GetNewSegment sz tx) (\<lambda>(item, tx).
             ns_assert 257 (\<not> it_retrans item) (finish (item, tx))))
       else if sentEnd > s \<and> sentEnd < s + sz then
         copy_from_sequence fuel now (sentEnd - s) s tx
       else Inl (Undefined 273))"

definition CopyFromSequence :: "time \<Rightarrow> u32 \<Rightarrow> seq \<Rightarrow> tx_buffer \<Rightarrow> (tx_item option \<times> tx_buffer) result" where
  "CopyFromSequence now numBytes s tx = copy_from_sequence 2 now numBytes s tx"

subsection \<open>Scoreboard\<close>

fun find_highest_sacked :: "seq \<Rightarrow> tx_item list \<Rightarrow> nat option \<times> seq \<Rightarrow> nat option \<times> seq" where
  "find_highest_sacked bgn [] ret = ret"
| "find_highest_sacked bgn (it # its) ret =
    find_highest_sacked (bgn + isize it) its (if it_sacked it then (Some (it_id it), bgn) else ret)"

definition FindHighestSacked :: "tx_buffer \<Rightarrow> nat option \<times> seq" where
  "FindHighestSacked tx = find_highest_sacked (tx_firstByteSeq tx) (tx_sentList tx) (None, 0)"

definition RemoveFromCounts :: "tx_item \<Rightarrow> u32 \<Rightarrow> tx_buffer \<Rightarrow> tx_buffer result" where
  "RemoveFromCounts it sz tx =
    bindE (if it_sacked it
           then ns_assert 633 (tx_sackedOut tx \<ge> sz) (Inr (tx\<lparr>tx_sackedOut := tx_sackedOut tx - sz\<rparr>))
           else Inr tx) (\<lambda>tx.
    bindE (if it_retrans it
           then ns_assert 638 (tx_retrans tx \<ge> sz) (Inr (tx\<lparr>tx_retrans := tx_retrans tx - sz\<rparr>))
           else Inr tx) (\<lambda>tx.
    if it_lost it
    then ns_assert 643 (tx_lostOut tx \<ge> sz) (Inr (tx\<lparr>tx_lostOut := tx_lostOut tx - sz\<rparr>))
    else Inr tx))"

fun is_retransmitted_data_acked :: "seq \<Rightarrow> tx_item list \<Rightarrow> bool" where
  "is_retransmitted_data_acked ack [] = False"
| "is_retransmitted_data_acked ack (it # its) =
    ((it_startSeq it + isize it = ack \<and> \<not> it_sacked it \<and> it_retrans it)
      \<or> is_retransmitted_data_acked ack its)"

definition IsRetransmittedDataAcked :: "seq \<Rightarrow> tx_buffer \<Rightarrow> bool" where
  "IsRetransmittedDataAcked ack tx = is_retransmitted_data_acked ack (tx_sentList tx)"

definition MarkHeadAsLost :: "tx_buffer \<Rightarrow> tx_buffer" where
  "MarkHeadAsLost tx =
    (case tx_sentList tx of
       [] \<Rightarrow> tx
     | head # its \<Rightarrow>
         tx\<lparr>tx_sackedOut := (if it_sacked head then tx_sackedOut tx - isize head else tx_sackedOut tx),
            tx_retrans := (if it_retrans head then tx_retrans tx - isize head else tx_retrans tx),
            tx_lostOut := (if it_lost head then tx_lostOut tx else tx_lostOut tx + isize head),
            tx_sentList := head\<lparr>it_sacked := False, it_retrans := False, it_lost := True\<rparr> # its\<rparr>)"

text \<open>The first item behind the head that is not sacked becomes sacked.\<close>

fun reno_sack_first :: "tx_item list \<Rightarrow> (tx_item \<times> tx_item list) option" where
  "reno_sack_first [] = None"
| "reno_sack_first (it # its) =
    (if it_sacked it then
       (case reno_sack_first its of None \<Rightarrow> None | Some (x, its') \<Rightarrow> Some (x, it # its'))
     else Some (it, it\<lparr>it_sacked := True\<rparr> # its))"

definition AddRenoSack :: "tx_buffer \<Rightarrow> tx_buffer result" where
  "AddRenoSack tx =
    ns_assert (if tx_sackEnabled tx then 1388 else 1392)
      (if tx_sackEnabled tx then length (tx_sentList tx) > 1 else tx_sentList tx \<noteq> [])
      (let tx = tx\<lparr>tx_renoSack := True\<rparr> in
       case reno_sack_first (tl (tx_sentList tx)) of
         None \<Rightarrow> Inr tx
       | Some (it, its) \<Rightarrow>
           Inr (tx\<lparr>tx_sentList := hd (tx_sentList tx) # its,
                   tx_sackedOut := tx_sackedOut tx + isize it,
                   tx_highestSack := (Some (it_id it), it_startSeq it)\<rparr>))"

text \<open>
  The loop of \<open>DiscardUpTo\<close>: the buffer, the bytes still to remove and the state
  of the callback.  When the sent list is empty, data is first moved there from
  the application list.
\<close>

fun discard_loop ::
  "nat \<Rightarrow> time \<Rightarrow> 's item_callback \<Rightarrow> u32 \<Rightarrow> tx_buffer \<Rightarrow> 's \<Rightarrow> (tx_buffer \<times> 's) result" where
  "discard_loop 0 now cb offset tx st = Inl (Diverges 683)"
| "discard_loop (Suc fuel) now cb offset tx st =
    (if \<not> (tx_size tx > 0 \<and> offset > 0) then Inr (tx, st)
     else
       bindE (if tx_sentList tx = [] then
                bindE (CopyFromSequence now offset (tx_firstByteSeq tx) tx) (\<lambda>(it, tx).
                  case it of None \<Rightarrow> Inl (Undefined 689)
                  | Some _ \<Rightarrow> ns_assert 692 (tx_sentList tx \<noteq> []) (Inr tx))
              else Inr tx) (\<lambda>tx.
         case tx_sentList tx of
           [] \<Rightarrow> Inl (Undefined 694)
         | item # its \<Rightarrow>
             let pktSize = isize item in
             ns_assert 697 (it_startSeq item = tx_firstByteSeq tx)
               (if offset \<ge> pktSize then
                  let tx = tx\<lparr>tx_size := tx_size tx - pktSize, tx_sentSize := tx_sentSize tx - pktSize,
                              tx_firstByteSeq := tx_firstByteSeq tx + pktSize\<rparr> in
                  bindE (RemoveFromCounts item pktSize tx) (\<lambda>tx.
                    let tx = tx\<lparr>tx_sentList := its\<rparr>; (item', st) = cb item st in
                    discard_loop fuel now cb (offset - pktSize) tx st)
                else
                  bindE (create_fragment (it_packet item) offset (pktSize - offset)) (\<lambda>p.
                    let item' = item\<lparr>it_packet := p, it_startSeq := it_startSeq item + offset\<rparr>;
                        tx = tx\<lparr>tx_sentList := item' # its, tx_size := tx_size tx - offset,
                                tx_sentSize := tx_sentSize tx - offset,
                                tx_firstByteSeq := tx_firstByteSeq tx + offset\<rparr>
                    in bindE (RemoveFromCounts item' offset tx) (\<lambda>tx. Inr (tx, st))))))"

text \<open>What \<open>DiscardUpTo\<close> does behind its loop, lines 741--778.\<close>

definition discard_finish :: "seq \<Rightarrow> tx_buffer \<Rightarrow> tx_buffer result" where
  "discard_finish s tx =
    (let tx = (if tx_size tx = 0 then tx\<lparr>tx_firstByteSeq := s\<rparr> else tx) in
     bindE (case tx_sentList tx of
              [] \<Rightarrow> Inr tx
            | head # its \<Rightarrow>
                bindE (if it_sacked head then
                         ns_assert 752 (\<not> it_lost head)
                           (bindE (AddRenoSack (tx\<lparr>tx_sentList := head\<lparr>it_sacked := False\<rparr> # its,
                                                    tx_sackedOut := tx_sackedOut tx - isize head\<rparr>))
                              (\<lambda>tx. Inr (MarkHeadAsLost tx)))
                       else Inr tx) (\<lambda>tx.
                ns_assert 763 (it_startSeq head = s) (Inr tx))) (\<lambda>tx.
     let tx = (if seq_le (snd (tx_highestSack tx)) (tx_firstByteSeq tx)
               then tx\<lparr>tx_highestSack := (None, 0)\<rparr> else tx) in
     ns_assert 776 (seq_ge (tx_firstByteSeq tx) s)
       (ns_assert 777 (tx_sentSize tx \<ge> tx_sackedOut tx + tx_lostOut tx) (Inr tx))))"

definition DiscardUpTo :: "time \<Rightarrow> 's item_callback \<Rightarrow> seq \<Rightarrow> tx_buffer \<Rightarrow> 's \<Rightarrow> (tx_buffer \<times> 's) result" where
  "DiscardUpTo now cb s tx st =
    (if seq_ge (tx_firstByteSeq tx) s then Inr (tx, st)
     else
       bindE (discard_loop (length (tx_sentList tx) + length (tx_appList tx) + 2) now cb
                (seq_minus s (tx_firstByteSeq tx)) tx st) (\<lambda>(tx, st).
       bindE (discard_finish s tx) (\<lambda>tx. Inr (tx, st))))"

subsection \<open>SACK processing\<close>

text \<open>
  \<open>UpdateLostCount\<close>: the walk from the item of \<open>m_highestSack\<close> back to the one
  behind the head, on the reversed items; \<open>sacked\<close> counts the SACKed items seen.
\<close>

fun lost_walk :: "u32 \<Rightarrow> u32 \<Rightarrow> u32 \<Rightarrow> tx_item list \<Rightarrow> tx_item list \<times> u32 \<times> u32" where
  "lost_walk thresh sacked lostOut [] = ([], sacked, lostOut)"
| "lost_walk thresh sacked lostOut (it # its) =
    (let sacked = (if it_sacked it then sacked + 1 else sacked);
         mark = (sacked \<ge> thresh \<and> \<not> it_sacked it \<and> \<not> it_lost it);
         lostOut = (if mark then lostOut + isize it else lostOut);
         it = (if mark then it\<lparr>it_lost := True\<rparr> else it);
         (its', sacked', lostOut') = lost_walk thresh sacked lostOut its
     in (it # its', sacked', lostOut'))"

fun split_at_item :: "nat \<Rightarrow> tx_item list \<Rightarrow> tx_item list \<Rightarrow> (tx_item list \<times> tx_item list) option" where
  "split_at_item i pre [] = None"
| "split_at_item i pre (it # its) =
    (if it_id it = i then Some (pre @ [it], its) else split_at_item i (pre @ [it]) its)"

definition UpdateLostCount :: "tx_buffer \<Rightarrow> tx_buffer result" where
  "UpdateLostCount tx =
    (let start = (case fst (tx_highestSack tx) of
           None \<Rightarrow> if tx_sentList tx = [] then Inr ([], []) else Inl (Undefined 894)
         | Some i \<Rightarrow> (case split_at_item i [] (tx_sentList tx) of
               None \<Rightarrow> Inl (Undefined 892) | Some x \<Rightarrow> Inr x))
     in
     bindE start (\<lambda>(upto, behind).
       let (walked, sacked, lostOut) =
             lost_walk (tx_dupAckThresh tx) 0 (tx_lostOut tx) (rev (tl upto));
           sent = take 1 upto @ rev walked @ behind;
           tx = tx\<lparr>tx_sentList := sent, tx_lostOut := lostOut\<rparr>
       in
       if sacked \<ge> tx_dupAckThresh tx then
         (case tx_sentList tx of
            [] \<Rightarrow> Inl (Undefined 913)
          | head # its \<Rightarrow>
              if it_lost head then Inr tx
              else Inr (tx\<lparr>tx_sentList := head\<lparr>it_lost := True\<rparr> # its,
                           tx_lostOut := tx_lostOut tx + isize head\<rparr>))
       else Inr tx))"

text \<open>The inner loop of \<open>Update\<close> for one SACK block.\<close>

fun update_block ::
  "'s item_callback \<Rightarrow> sack_block \<Rightarrow> seq \<Rightarrow> tx_item list \<Rightarrow> tx_buffer \<Rightarrow> u32 \<Rightarrow> 's
    \<Rightarrow> (tx_item list \<times> tx_buffer \<times> u32 \<times> 's) result" where
  "update_block cb blk bgn [] tx bytes st = Inr ([], tx, bytes, st)"
| "update_block cb blk bgn (it # its) tx bytes st =
    (let pktSize = isize it in
     if seq_ge bgn (fst blk) \<and> seq_le (bgn + pktSize) (snd blk) then
       if it_sacked it then
         ns_assert 814 (\<not> it_lost it)
           (bindE (update_block cb blk (bgn + pktSize) its tx bytes st) (\<lambda>(its', r).
              Inr (it # its', r)))
       else
         let tx = (if it_lost it then tx\<lparr>tx_lostOut := tx_lostOut tx - pktSize\<rparr> else tx);
             tx = tx\<lparr>tx_sackedOut := tx_sackedOut tx + pktSize\<rparr>;
             tx = (if fst (tx_highestSack tx) = None \<or> seq_le (snd (tx_highestSack tx)) (bgn + pktSize)
                   then tx\<lparr>tx_highestSack := (Some (it_id it), bgn)\<rparr> else tx);
             (it, st) = cb (it\<lparr>it_lost := False, it_sacked := True\<rparr>) st
         in bindE (update_block cb blk (bgn + pktSize) its tx (bytes + pktSize) st) (\<lambda>(its', r).
              Inr (it # its', r))
     else if seq_gt (bgn + pktSize) (snd blk) then Inr (it # its, tx, bytes, st)
     else bindE (update_block cb blk (bgn + pktSize) its tx bytes st) (\<lambda>(its', r).
            Inr (it # its', r)))"

text \<open>
  The loop of \<open>Update\<close> over the blocks; the flag of the result tells that it
  returned early from a block beyond the sent data.
\<close>

fun update_blocks ::
  "'s item_callback \<Rightarrow> sack_block list \<Rightarrow> tx_buffer \<Rightarrow> u32 \<Rightarrow> 's
    \<Rightarrow> (bool \<times> tx_buffer \<times> u32 \<times> 's) result" where
  "update_blocks cb [] tx bytes st = Inr (False, tx, bytes, st)"
| "update_blocks cb (blk # blks) tx bytes st =
    (if seq_lt (tx_firstByteSeq tx + tx_sentSize tx) (fst blk) then Inr (True, tx, bytes, st)
     else bindE (update_block cb blk (tx_firstByteSeq tx) (tx_sentList tx) tx bytes st)
       (\<lambda>(its, tx, bytes, st). update_blocks cb blks (tx\<lparr>tx_sentList := its\<rparr>) bytes st))"

definition Update ::
  "'s item_callback \<Rightarrow> sack_block list \<Rightarrow> tx_buffer \<Rightarrow> 's \<Rightarrow> (u32 \<times> tx_buffer \<times> 's) result" where
  "Update cb blks tx st =
    bindE (update_blocks cb blks tx 0 st) (\<lambda>(early, tx, bytesSacked, st).
      if early then Inr (bytesSacked, tx, st)
      else
        bindE (if bytesSacked > 0
               then ns_assert 863 (fst (tx_highestSack tx) \<noteq> None) (UpdateLostCount tx)
               else Inr tx) (\<lambda>tx.
        case tx_sentList tx of
          [] \<Rightarrow> Inl (Undefined 867)
        | head # _ \<Rightarrow>
            ns_assert 867 (\<not> it_sacked head)
              (ns_assert 868 (tx_sentSize tx \<ge> tx_sackedOut tx + tx_lostOut tx)
                (Inr (bytesSacked, tx, st)))))"

fun is_lost_walk :: "seq \<Rightarrow> seq \<Rightarrow> tx_item list \<Rightarrow> bool" where
  "is_lost_walk s bgn [] = False"
| "is_lost_walk s bgn (it # its) =
    (if seq_ge bgn s \<and> it_lost it then True
     else if seq_ge bgn s \<and> it_sacked it then False
     else is_lost_walk s (bgn + isize it) its)"

definition IsLost :: "seq \<Rightarrow> tx_buffer \<Rightarrow> bool" where
  "IsLost s tx =
    (if seq_ge s (snd (tx_highestSack tx)) then False
     else is_lost_walk s (tx_firstByteSeq tx) (tx_sentList tx))"

text \<open>
  The loop of \<open>NextSeg\<close>: \<open>Inl\<close> the segment that is lost, or \<open>Inr\<close> the candidate
  for rule 3, whose initial value 0 stands for none.
\<close>

fun next_seg_walk :: "bool \<Rightarrow> seq \<Rightarrow> tx_item list \<Rightarrow> seq \<times> bool \<Rightarrow> seq + seq \<times> bool" where
  "next_seg_walk isRecovery bgn [] rule3 = Inr rule3"
| "next_seg_walk isRecovery bgn (it # its) rule3 =
    (if \<not> it_retrans it \<and> \<not> it_sacked it then
       if it_lost it then Inl bgn
       else next_seg_walk isRecovery (bgn + isize it) its
              (if fst rule3 = 0 \<and> isRecovery then (bgn, True) else rule3)
     else next_seg_walk isRecovery (bgn + isize it) its rule3)"

text \<open>\<open>NextSeg\<close>: the range returned, if any; \<open>rWnd\<close> is the value of the callback.\<close>

definition NextSeg :: "u32 \<Rightarrow> bool \<Rightarrow> tx_buffer \<Rightarrow> (seq \<times> seq) option" where
  "NextSeg rWnd isRecovery tx =
    (case next_seg_walk isRecovery (tx_firstByteSeq tx) (tx_sentList tx) (0, False) of
       Inl s \<Rightarrow> Some (s, s + tx_segmentSize tx)
     | Inr (rule3, valid) \<Rightarrow>
         let s = tx_firstByteSeq tx + tx_sentSize tx in
         if SizeFromSequence s tx > 0 then
           if tx_sentSize tx \<le> rWnd
           then Some (s, s + min (tx_segmentSize tx) (rWnd - tx_sentSize tx))
           else None
         else if valid then Some (rule3, rule3 + tx_segmentSize tx)
         else None)"

definition TxBytesInFlight :: "tx_buffer \<Rightarrow> u32 result" where
  "TxBytesInFlight tx =
    ns_assert 1070 (tx_sackedOut tx + tx_lostOut tx \<le> tx_sentSize tx)
      (let leftOut = tx_sackedOut tx + tx_lostOut tx in
       Inr (tx_sentSize tx - leftOut + tx_retrans tx))"

text \<open>\<open>IsLostRFC\<close>, on the items from the segment on; \<open>hs\<close> is \<open>m_highestSack.second\<close>.\<close>

fun is_lost_rfc_walk :: "u32 \<Rightarrow> u32 \<Rightarrow> seq \<Rightarrow> u32 \<Rightarrow> u32 \<Rightarrow> seq \<Rightarrow> tx_item list \<Rightarrow> bool" where
  "is_lost_rfc_walk thresh seg hs count bytes bgn [] = False"
| "is_lost_rfc_walk thresh seg hs count bytes bgn (it # its) =
    (let count = (if it_sacked it then count + 1 else count);
         bytes = (if it_sacked it then bytes + isize it else bytes)
     in
     if it_sacked it \<and> (count \<ge> thresh \<or> bytes > (thresh - 1) * seg) then True
     else if seq_ge bgn hs then it_lost it \<and> \<not> it_retrans it
     else is_lost_rfc_walk thresh seg hs count bytes (bgn + isize it) its)"

definition IsLostRFC :: "tx_buffer \<Rightarrow> seq \<Rightarrow> tx_item list \<Rightarrow> bool" where
  "IsLostRFC tx s segment =
    (case segment of
       [] \<Rightarrow> False
     | it # _ \<Rightarrow>
         if it_sacked it then False
         else is_lost_rfc_walk (tx_dupAckThresh tx) (tx_segmentSize tx) (snd (tx_highestSack tx)) 0 0 s segment)"

text \<open>The loop of \<open>BytesInFlightRFC\<close>: pipe, lost, retransmitted, SACKed and total bytes.\<close>

fun rfc_walk ::
  "tx_buffer \<Rightarrow> seq \<Rightarrow> tx_item list \<Rightarrow> u32 \<times> u32 \<times> u32 \<times> u32 \<times> u32 \<Rightarrow> u32 \<times> u32 \<times> u32 \<times> u32 \<times> u32" where
  "rfc_walk tx bgn [] acc = acc"
| "rfc_walk tx bgn (it # its) (pipe, lost, retrans, sacked, tot) =
    (let isLost = IsLostRFC tx bgn (it # its); n = isize it in
     rfc_walk tx (bgn + n) its
       (if \<not> it_sacked it \<and> (\<not> isLost \<or> it_retrans it) then pipe + n else pipe,
        if \<not> it_sacked it \<and> isLost then lost + n else lost,
        if it_retrans it then retrans + n else retrans,
        if it_sacked it then sacked + n else sacked,
        tot + n))"

definition BytesInFlightRFC :: "tx_buffer \<Rightarrow> u32 result" where
  "BytesInFlightRFC tx =
    (let (pipe, lost, retrans, sacked, tot) =
           rfc_walk tx (tx_firstByteSeq tx) (tx_sentList tx) (0, 0, 0, 0, 0) in
     ns_assert 1139 (lost = tx_lostOut tx)
     (ns_assert 1142 (retrans = tx_retrans tx)
     (ns_assert 1145 (sacked = tx_sackedOut tx)
     (ns_assert 1147 (tot = tx_sentSize tx) (Inr pipe)))))"

subsection \<open>Resets\<close>

definition ResetRenoSack :: "tx_buffer \<Rightarrow> tx_buffer" where
  "ResetRenoSack tx =
    tx\<lparr>tx_sackedOut := 0, tx_sentList := map (\<lambda>it. it\<lparr>it_sacked := False\<rparr>) (tx_sentList tx),
       tx_highestSack := (None, 0)\<rparr>"

definition ResetSentList :: "tx_buffer \<Rightarrow> tx_buffer" where
  "ResetSentList tx =
    tx\<lparr>tx_appList := map (\<lambda>it. it\<lparr>it_retrans := False, it_sacked := False, it_lost := False\<rparr>)
                     (tx_sentList tx) @ tx_appList tx,
       tx_sentList := [], tx_sentSize := 0, tx_lostOut := 0, tx_retrans := 0, tx_sackedOut := 0,
       tx_highestSack := (None, 0)\<rparr>"

definition ResetLastSegmentSent :: "tx_buffer \<Rightarrow> tx_buffer" where
  "ResetLastSegmentSent tx =
    (if tx_sentList tx = [] then tx
     else
       let item = last (tx_sentList tx) in
       tx\<lparr>tx_sentList := butlast (tx_sentList tx), tx_sentSize := tx_sentSize tx - isize item,
          tx_retrans := (if it_retrans item then tx_retrans tx - isize item else tx_retrans tx),
          tx_appList := item # tx_appList tx\<rparr>)"

fun set_lost_walk :: "tx_item list \<Rightarrow> u32 \<Rightarrow> tx_item list \<times> u32" where
  "set_lost_walk [] lostOut = ([], lostOut)"
| "set_lost_walk (it # its) lostOut =
    (let lostOut = (if it_lost it \<or> \<not> it_sacked it then lostOut + isize it else lostOut);
         it' = it\<lparr>it_lost := it_lost it \<or> \<not> it_sacked it, it_retrans := False\<rparr>;
         (its', lostOut') = set_lost_walk its lostOut
     in (it' # its', lostOut'))"

definition SetSentListLost :: "bool \<Rightarrow> tx_buffer \<Rightarrow> tx_buffer result" where
  "SetSentListLost resetSack tx =
    (let tx = (if resetSack then
           tx\<lparr>tx_retrans := 0, tx_sackedOut := 0, tx_lostOut := tx_sentSize tx,
              tx_highestSack := (None, 0),
              tx_sentList := map (\<lambda>it. it\<lparr>it_sacked := False, it_lost := True, it_retrans := False\<rparr>)
                               (tx_sentList tx)\<rparr>
         else
           let (its, lostOut) = set_lost_walk (tx_sentList tx) 0 in
           tx\<lparr>tx_retrans := 0, tx_lostOut := lostOut, tx_sentList := its\<rparr>)
     in ns_assert 1317 (tx_sentSize tx \<ge> tx_sackedOut tx + tx_lostOut tx) (Inr tx))"

definition IsHeadRetransmitted :: "tx_buffer \<Rightarrow> bool result" where
  "IsHeadRetransmitted tx =
    (if tx_sentSize tx = 0 then Inr False
     else case tx_sentList tx of [] \<Rightarrow> Inl (Undefined 1331) | head # _ \<Rightarrow> Inr (it_retrans head))"

definition DeleteRetransmittedFlagFromHead :: "tx_buffer \<Rightarrow> tx_buffer result" where
  "DeleteRetransmittedFlagFromHead tx =
    (if tx_sentSize tx = 0 then Inr tx
     else case tx_sentList tx of
       [] \<Rightarrow> Inl (Undefined 1344)
     | head # its \<Rightarrow>
         if it_retrans head then
           Inr (tx\<lparr>tx_sentList := head\<lparr>it_retrans := False\<rparr> # its, tx_retrans := tx_retrans tx - isize head\<rparr>)
         else Inr tx)"

text \<open>
  \<open>ConsistencyCheck\<close>: the comparison of the counters with the flags of the items.
  The code leaves it disabled (\<open>enable\<close> is false), so its calls do nothing.
\<close>

definition flag_bytes :: "(tx_item \<Rightarrow> bool) \<Rightarrow> tx_item list \<Rightarrow> u32" where
  "flag_bytes P its = sum_list (map isize (filter P its))"

definition ConsistencyCheck :: "tx_buffer \<Rightarrow> bool" where
  "ConsistencyCheck tx \<longleftrightarrow>
    flag_bytes it_sacked (tx_sentList tx) = tx_sackedOut tx \<and>
    flag_bytes it_lost (tx_sentList tx) = tx_lostOut tx \<and>
    flag_bytes it_retrans (tx_sentList tx) = tx_retrans tx"

end
