(* ===== verification/TxLists.thy ===== *)
theory TxLists
  imports TxBuffer
begin

text \<open>
  Item lists of the send buffer: byte counts, contiguity of start sequence
  numbers, and what the splits and merges of \<open>GetPacketFromList\<close> keep of a list.
\<close>

subsection \<open>Measures and invariants of lists\<close>

definition ilen :: "tx_item \<Rightarrow> nat" where
  "ilen it = length (it_packet it)"

definition tbytes :: "tx_item list \<Rightarrow> nat" where
  "tbytes its = sum_list (map ilen its)"

definition fbytes :: "(tx_item \<Rightarrow> bool) \<Rightarrow> tx_item list \<Rightarrow> nat" where
  "fbytes P its = tbytes (filter P its)"

definition payload :: "tx_item list \<Rightarrow> packet" where
  "payload its = concat (map it_packet its)"

text \<open>The SACK and loss marks of every byte of a list.\<close>

definition marks :: "tx_item list \<Rightarrow> (bool \<times> bool) list" where
  "marks its = concat (map (\<lambda>it. replicate (ilen it) (it_sacked it, it_lost it)) its)"

fun contig :: "seq \<Rightarrow> tx_item list \<Rightarrow> bool" where
  "contig s [] = True"
| "contig s (it # its) = (it_startSeq it = s \<and> contig (s + isize it) its)"

definition item_ok :: "tx_item \<Rightarrow> bool" where
  "item_ok it \<longleftrightarrow> it_packet it \<noteq> [] \<and> \<not> (it_sacked it \<and> it_lost it)"

definition item_clean :: "tx_item \<Rightarrow> bool" where
  "item_clean it \<longleftrightarrow> it_packet it \<noteq> [] \<and> \<not> it_sacked it \<and> \<not> it_lost it \<and> \<not> it_retrans it"

definition ids_ok :: "nat \<Rightarrow> tx_item list \<Rightarrow> bool" where
  "ids_ok i its \<longleftrightarrow> distinct (map it_id its) \<and> (\<forall>it \<in> set its. it_id it < i)"

text \<open>
  \<open>relist\<close>: how a sequence of splits and merges changes a list, \<open>m_retrans\<close> and
  the next unused address.
\<close>

definition relist :: "tx_item list \<Rightarrow> u32 \<Rightarrow> nat \<Rightarrow> tx_item list \<Rightarrow> u32 \<Rightarrow> nat \<Rightarrow> bool" where
  "relist l r i l' r' i' \<longleftrightarrow>
    payload l' = payload l \<and> marks l' = marks l \<and>
    r' - of_nat (fbytes it_retrans l') = r - of_nat (fbytes it_retrans l) \<and>
    (list_all item_ok l \<longrightarrow> list_all item_ok l') \<and>
    (list_all item_clean l \<longrightarrow> list_all item_clean l') \<and>
    (\<forall>b. contig b l \<longrightarrow> contig b l') \<and> i \<le> i' \<and>
    (ids_ok i l \<longrightarrow> ids_ok i' l' \<and> it_id ` set l' \<subseteq> it_id ` set l \<union> {i ..< i'})"

subsection \<open>Facts on the measures\<close>

lemma tbytes_simps [simp]:
  "tbytes [] = 0" "tbytes (it # its) = ilen it + tbytes its" "tbytes (l @ l') = tbytes l + tbytes l'"
  by (simp_all add: tbytes_def)

lemma fbytes_simps [simp]:
  "fbytes P [] = 0" "fbytes P (it # its) = (if P it then ilen it else 0) + fbytes P its"
  "fbytes P (l @ l') = fbytes P l + fbytes P l'"
  by (simp_all add: fbytes_def)

lemma payload_simps [simp]:
  "payload [] = []" "payload (it # its) = it_packet it @ payload its"
  "payload (l @ l') = payload l @ payload l'"
  by (simp_all add: payload_def)

lemma length_payload [simp]: "length (payload its) = tbytes its"
  by (induction its) (simp_all add: ilen_def)

lemma marks_simps [simp]:
  "marks [] = []" "marks (it # its) = replicate (ilen it) (it_sacked it, it_lost it) @ marks its"
  "marks (l @ l') = marks l @ marks l'"
  by (simp_all add: marks_def)

lemma length_marks [simp]: "length (marks its) = tbytes its"
  by (induction its) simp_all

lemma fbytes_marks:
  "fbytes it_sacked its = length (filter fst (marks its))"
  "fbytes it_lost its = length (filter snd (marks its))"
  by (induction its) (auto simp: filter_replicate)

lemma marks_nth:
  "0 < ilen it \<Longrightarrow> marks (pre @ it # post) ! tbytes pre = (it_sacked it, it_lost it)"
  by (simp add: nth_append)

lemma isize_ilen: "isize it = of_nat (ilen it)"
  by (simp add: isize_def pkt_size_def ilen_def)

lemma ilen_update [simp]:
  "ilen (it\<lparr>it_retrans := x\<rparr>) = ilen it" "ilen (it\<lparr>it_sacked := x\<rparr>) = ilen it"
  "ilen (it\<lparr>it_lost := x\<rparr>) = ilen it" "ilen (it\<lparr>it_startSeq := y\<rparr>) = ilen it"
  "ilen (it\<lparr>it_lastSent := z\<rparr>) = ilen it"
  by (simp_all add: ilen_def)

lemma isize_update [simp]:
  "isize (it\<lparr>it_retrans := x\<rparr>) = isize it" "isize (it\<lparr>it_sacked := x\<rparr>) = isize it"
  "isize (it\<lparr>it_lost := x\<rparr>) = isize it" "isize (it\<lparr>it_startSeq := y\<rparr>) = isize it"
  "isize (it\<lparr>it_lastSent := z\<rparr>) = isize it"
  by (simp_all add: isize_def)

lemma flag_bytes_eq: "flag_bytes P its = of_nat (fbytes P its)"
  by (induction its) (simp_all add: flag_bytes_def isize_ilen)

lemma fbytes_le: "fbytes P its \<le> tbytes its"
  by (induction its) auto

lemma fbytes_disjoint:
  "list_all item_ok its \<Longrightarrow> fbytes it_sacked its + fbytes it_lost its \<le> tbytes its"
  by (induction its) (auto simp: item_ok_def)

lemma contig_append [simp]:
  "contig s (l @ l') \<longleftrightarrow> contig s l \<and> contig (s + of_nat (tbytes l)) l'"
  by (induction l arbitrary: s) (auto simp: isize_ilen add.assoc)

lemma ids_ok_simps [simp]:
  "ids_ok i []"
  "ids_ok i (it # its) \<longleftrightarrow> it_id it < i \<and> it_id it \<notin> it_id ` set its \<and> ids_ok i its"
  "ids_ok i (l @ l') \<longleftrightarrow> ids_ok i l \<and> ids_ok i l' \<and> it_id ` set l \<inter> it_id ` set l' = {}"
  by (auto simp: ids_ok_def)

lemma ids_ok_mono: "ids_ok i its \<Longrightarrow> i \<le> j \<Longrightarrow> ids_ok j its"
  by (auto simp: ids_ok_def)

lemma tbytes_member: "it \<in> set its \<Longrightarrow> ilen it \<le> tbytes its"
  by (induction its) auto

subsection \<open>Splits and merges\<close>

lemma relist_refl: "relist l r i l r i"
  by (simp add: relist_def)

lemma relistD:
  assumes "relist l r i l' r' i'"
  shows "payload l' = payload l" "marks l' = marks l"
    "fbytes it_sacked l' = fbytes it_sacked l \<and> fbytes it_lost l' = fbytes it_lost l"
    "r' - of_nat (fbytes it_retrans l') = r - of_nat (fbytes it_retrans l)"
    "contig b l \<Longrightarrow> contig b l'" "list_all item_ok l \<Longrightarrow> list_all item_ok l'"
    "list_all item_clean l \<Longrightarrow> list_all item_clean l'" "i \<le> i'"
    "ids_ok i l \<Longrightarrow> ids_ok i' l'"
    "ids_ok i l \<Longrightarrow> it_id ` set l' \<subseteq> it_id ` set l \<union> {i ..< i'}"
  using assms unfolding relist_def by (simp_all add: fbytes_marks)

lemma relist_trans:
  assumes "relist l r i l' r' i'" "relist l' r' i' l'' r'' i''"
  shows "relist l r i l'' r'' i''"
proof -
  note A = assms(1) [unfolded relist_def] and B = assms(2) [unfolded relist_def]
  have le: "i \<le> i'" "i' \<le> i''" using A B by simp_all
  have ids: "ids_ok i'' l'' \<and> it_id ` set l'' \<subseteq> it_id ` set l \<union> {i ..< i''}" if "ids_ok i l"
  proof -
    have 1: "ids_ok i' l'" "it_id ` set l' \<subseteq> it_id ` set l \<union> {i ..< i'}"
      using A that by blast+
    have 2: "ids_ok i'' l''" "it_id ` set l'' \<subseteq> it_id ` set l' \<union> {i' ..< i''}"
      using B 1(1) by blast+
    have "{i ..< i'} \<union> {i' ..< i''} = {i ..< i''}"
      using le by auto
    with 1(2) 2 show ?thesis by blast
  qed
  have eqs: "payload l'' = payload l" "marks l'' = marks l" "i \<le> i''"
    "r'' - of_nat (fbytes it_retrans l'') = r - of_nat (fbytes it_retrans l)"
    using A B by simp_all
  have "list_all item_ok l \<longrightarrow> list_all item_ok l''"
    "list_all item_clean l \<longrightarrow> list_all item_clean l''" "\<forall>b. contig b l \<longrightarrow> contig b l''"
    using A B by blast+
  with eqs ids show ?thesis
    unfolding relist_def by blast
qed

lemma SplitItems_Inr:
  assumes "SplitItems i it n = Inr (t1, t2)" "ilen it < 2 ^ 32"
  shows "unat n \<le> ilen it \<and> it_packet t1 = take (unat n) (it_packet it)
    \<and> it_packet t2 = drop (unat n) (it_packet it) \<and> it_id t1 = i \<and> it_id t2 = it_id it
    \<and> it_startSeq t1 = it_startSeq it \<and> it_startSeq t2 = it_startSeq it + n
    \<and> it_sacked t1 = it_sacked it \<and> it_sacked t2 = it_sacked it
    \<and> it_lost t1 = it_lost it \<and> it_lost t2 = it_lost it
    \<and> it_retrans t1 = it_retrans it \<and> it_retrans t2 = it_retrans it"
proof -
  obtain p where p: "create_fragment (it_packet it) 0 n = Inr p"
    "t1 = (new_item i p)\<lparr>it_startSeq := it_startSeq it, it_sacked := it_sacked it,
             it_lastSent := it_lastSent it, it_retrans := it_retrans it, it_lost := it_lost it\<rparr>"
    "t2 = it\<lparr>it_packet := drop (unat n) (it_packet it), it_startSeq := it_startSeq it + n\<rparr>"
    using assms(1) by (auto simp: SplitItems_def bindE_Inr)
  then have "n \<le> pkt_size (it_packet it)" "p = take (unat n) (it_packet it)"
    by (auto simp: create_fragment_def ns_assert_Inr)
  moreover from this(1) have "unat n \<le> ilen it"
    using assms(2) by (simp add: word_le_nat_alt ilen_def)
  ultimately show ?thesis
    using p by (simp add: new_item_def)
qed

lemma relist_split:
  assumes "SplitItems i it n = Inr (t1, t2)" "ilen it < 2 ^ 32" "n \<noteq> 0" "n \<noteq> isize it"
  shows "relist (pre @ it # post) r i (pre @ [t1, t2] @ post) r (i + 1)"
    and "ilen t1 = unat n"
proof -
  note s = SplitItems_Inr [OF assms(1,2)]
  have l: "ilen t1 = unat n" "ilen t2 = ilen it - unat n"
    using s by (auto simp: ilen_def)
  have "unat n \<noteq> ilen it"
  proof
    assume "unat n = ilen it"
    then have "isize it = of_nat (unat n)" by (simp add: isize_ilen)
    with assms(4) show False by simp
  qed
  with s have lt: "unat n < ilen it" "0 < unat n"
    using assms(3) by (auto simp: unat_gt_0)
  then have ne: "it_packet t1 \<noteq> []" "it_packet t2 \<noteq> []"
    using l by (auto simp: ilen_def)
  have sz: "isize t1 = n" "isize it = n + isize t2"
    using lt l by (simp_all add: isize_ilen of_nat_diff)
  have "contig b ([t1, t2] @ post)" if "contig b (it # post)" for b
    using that s sz(1) by (simp add: sz(2) add.assoc)
  moreover have "tbytes [t1, t2] = tbytes [it]"
    using l lt by simp
  ultimately have cont: "contig b (pre @ it # post) \<longrightarrow> contig b (pre @ [t1, t2] @ post)" for b
    unfolding contig_append by blast
  have pk: "it_packet it = it_packet t1 @ it_packet t2"
    using s by simp
  have pay: "payload (pre @ [t1, t2] @ post) = payload (pre @ it # post)"
    by (simp add: pk)
  have ids: "it_id t1 = i" "it_id t2 = it_id it"
    using s by simp_all
  have idok: "ids_ok (i + 1) (pre @ [t1, t2] @ post)" if a: "ids_ok i (pre @ it # post)"
  proof -
    have "ids_ok (i + 1) pre" "ids_ok (i + 1) post"
      using a by (auto elim: ids_ok_mono)
    moreover have "i \<notin> it_id ` set pre" "i \<notin> it_id ` set post"
      using a by (auto simp: ids_ok_def)
    ultimately show ?thesis
      using a by (simp add: ids)
  qed
  have sub: "it_id ` set (pre @ [t1, t2] @ post) \<subseteq> it_id ` set (pre @ it # post) \<union> {i ..< i + 1}"
    using ids by simp
  have "ilen it = ilen t1 + ilen t2" using l lt by simp
  then have mk: "marks (pre @ [t1, t2] @ post) = marks (pre @ it # post)"
    using s by (simp add: replicate_add)
  have fb: "fbytes P (pre @ [t1, t2] @ post) = fbytes P (pre @ it # post)"
    if "P t1 = P it" "P t2 = P it" for P
    using that l lt by simp
  have ok: "list_all item_ok (pre @ it # post) \<longrightarrow> list_all item_ok (pre @ [t1, t2] @ post)"
    "list_all item_clean (pre @ it # post) \<longrightarrow> list_all item_clean (pre @ [t1, t2] @ post)"
    using s ne by (simp_all add: item_ok_def item_clean_def)
  show "relist (pre @ it # post) r i (pre @ [t1, t2] @ post) r (i + 1)"
    unfolding relist_def using pay mk fb [of it_retrans] s cont idok sub ok
    by (intro conjI allI impI) (simp_all only:)
  show "ilen t1 = unat n" by (rule l)
qed

lemma relist_merge:
  assumes "MergeItems t1 t2 r = Inr (t, r')"
  shows "relist (pre @ t1 # t2 # post) r i (pre @ t # post) r' i"
    and "ilen t = ilen t1 + ilen t2" "it_id t = it_id t1" "it_sacked t = it_sacked t1" "it_lost t = it_lost t1"
proof -
  have f: "it_sacked t1 = it_sacked t2" "it_lost t1 = it_lost t2"
    "it_packet t = it_packet t1 @ it_packet t2" "it_id t = it_id t1" "it_startSeq t = it_startSeq t1"
    "it_sacked t = it_sacked t1" "it_lost t = it_lost t1" "it_retrans t \<longleftrightarrow> it_retrans t1 \<and> it_retrans t2"
    "r' = (if it_retrans t1 = it_retrans t2 then r else if it_retrans t1 then r - isize t1 else r - isize t2)"
    using assms by (auto simp: MergeItems_def Let_def ns_assert_Inr split: if_splits)
  then have l: "ilen t = ilen t1 + ilen t2"
    by (simp add: ilen_def)
  have sz: "isize t = isize t1 + isize t2"
    using l by (simp add: isize_ilen)
  show "relist (pre @ t1 # t2 # post) r i (pre @ t # post) r' i"
    using f l sz unfolding relist_def
    by (auto simp: replicate_add item_ok_def item_clean_def add.assoc isize_ilen)
  show "ilen t = ilen t1 + ilen t2" "it_id t = it_id t1" "it_sacked t = it_sacked t1" "it_lost t = it_lost t1"
    using f l by auto
qed

subsection \<open>GetPacketFromList\<close>

lemma tx_scan_Some:
  assumes "tx_scan isSent una s bgn pre lst = Inr (Some (p, cur, post, b))"
  shows "\<exists>mid. p = pre @ mid \<and> lst = mid @ cur # post \<and> b = bgn + of_nat (tbytes mid)
    \<and> seq_lt s (b + isize cur)"
  using assms
proof (induction lst arbitrary: bgn pre)
  case (Cons it lst)
  show ?case
  proof (cases "seq_lt s (bgn + isize it)")
    case True
    with Cons.prems show ?thesis
      by (intro exI [of _ "[]"]) (auto simp: ns_assert_Inr)
  next
    case False
    with Cons.prems have "tx_scan isSent una s (bgn + isize it) (pre @ [it]) lst = Inr (Some (p, cur, post, b))"
      by (auto simp: ns_assert_Inr)
    from Cons.IH [OF this] obtain mid where "p = (pre @ [it]) @ mid" "lst = mid @ cur # post"
      "b = bgn + isize it + of_nat (tbytes mid)" "seq_lt s (b + isize cur)" by blast
    then show ?thesis
      by (intro exI [of _ "it # mid"]) (simp add: isize_ilen)
  qed
qed simp

text \<open>
  What a successful call returns: a list that splits and merges of the given one
  make, in which the item returned begins at \<open>s\<close> and has the size asked for,
  unless it is the last.
\<close>

lemma GetPacketFromList_spec:
  assumes "GetPacketFromList fuel isSent una lst ls n s r i = Inr (j, lst', r', i')"
    and "n \<noteq> 0" "tbytes lst < 2 ^ 32"
  shows "relist lst r i lst' r' i' \<and> (\<exists>pre it post. lst' = pre @ it # post \<and> it_id it = j
    \<and> ls + of_nat (tbytes pre) = s
    \<and> (isize it = n \<or> post = [] \<and> \<not> seq_le (s + n) (s + isize it)))"
  using assms
proof (induction fuel arbitrary: lst r i)
  case (Suc fuel)
  let ?P = "\<lambda>l. \<exists>pre it post. l = pre @ it # post \<and> it_id it = j
    \<and> ls + of_nat (tbytes pre) = s
    \<and> (isize it = n \<or> post = [] \<and> \<not> seq_le (s + n) (s + isize it))"
  obtain pre cur post b where sc: "tx_scan isSent una s ls [] lst = Inr (Some (pre, cur, post, b))"
    using Suc.prems(1) by (auto simp: bindE_Inr split: option.splits)
  from tx_scan_Some [OF sc] have l: "lst = pre @ cur # post" "b = ls + of_nat (tbytes pre)"
    "seq_lt s (b + isize cur)" by auto
  have len: "ilen cur < 2 ^ 32"
    using Suc.prems(3) l by simp
  have step: "relist lst r i lst' r' i' \<and> ?P lst'"
    if "relist lst r i l1 r1 i1" "GetPacketFromList fuel isSent una l1 ls n s r1 i1 = Inr (j, lst', r', i')"
    for l1 r1 i1
  proof -
    have "tbytes l1 = tbytes lst"
      using that(1) by (metis length_payload relist_def)
    then show ?thesis
      using Suc.IH [OF that(2)] Suc.prems(2,3) relist_trans [OF that(1)] by auto
  qed
  note R = Suc.prems(1) [unfolded GetPacketFromList.simps sc bindE_simps option.case prod.case]
  consider (exact) "s = b" "seq_le (s + n) (b + isize cur)" "n = isize cur"
    | (cut) "s = b" "seq_le (s + n) (b + isize cur)" "n < isize cur"
    | (beyond) "s = b" "\<not> seq_le (s + n) (b + isize cur)"
    | (inside) "s \<noteq> b" "seq_gt s b"
    using R by (auto split: if_splits)
  then show ?case
  proof cases
    case exact
    then have "j = it_id cur" "lst' = lst" "r' = r" "i' = i"
      using R by simp_all
    with exact l show ?thesis
      by (auto simp: relist_refl)
  next
    case cut
    then have ne: "n \<noteq> isize cur" by auto
    with cut obtain t1 t2 where t: "SplitItems i cur n = Inr (t1, t2)"
      "j = i" "lst' = pre @ [t1, t2] @ post" "r' = r" "i' = i + 1"
      using R by (auto simp: bindE_Inr)
    note sp = relist_split(1) [OF t(1) len Suc.prems(2) ne, of pre post r]
      relist_split(2) [OF t(1) len Suc.prems(2) ne]
    with t l have "relist lst r i lst' r' i'" "ilen t1 = unat n" by auto
    moreover have "isize t1 = n" "it_id t1 = i"
      using calculation(2) SplitItems_Inr [OF t(1) len] by (simp_all add: isize_ilen)
    ultimately show ?thesis
      using t l cut by (intro conjI exI [of _ pre] exI [of _ t1] exI [of _ "t2 # post"]) auto
  next
    case beyond
    show ?thesis
    proof (cases post)
      case Nil
      then have "j = it_id cur" "lst' = lst" "r' = r" "i' = i"
        using R beyond by simp_all
      with beyond l Nil show ?thesis
        by (auto simp: relist_refl)
    next
      case (Cons nxt rest)
      with R beyond obtain t r1 where t: "MergeItems cur nxt r = Inr (t, r1)"
        "GetPacketFromList fuel isSent una (pre @ [t] @ rest) ls n s r1 i = Inr (j, lst', r', i')"
        by (auto simp: bindE_Inr)
      show ?thesis
        using step [OF _ t(2)] relist_merge(1) [OF t(1), of pre rest i] l Cons by simp
    qed
  next
    case inside
    then obtain t1 t2 where t: "SplitItems i cur (seq_minus s b) = Inr (t1, t2)"
      "GetPacketFromList fuel isSent una (pre @ [t1, t2] @ post) ls n s r (i + 1) = Inr (j, lst', r', i')"
      using R by (auto simp: bindE_Inr)
    have "s \<noteq> b + isize cur"
      using l(3) by (auto simp: seq_lt_def)
    then have "seq_minus s b \<noteq> 0" "seq_minus s b \<noteq> isize cur"
      using inside by (auto simp: seq_minus_wraps diff_eq_eq add.commute)
    from relist_split(1) [OF t(1) len this, of pre post r] show ?thesis
      using step [OF _ t(2)] l by simp
  qed
qed simp

text \<open>The walk finds the item that begins at \<open>s\<close>.\<close>

lemma tx_scan_found:
  assumes "tbytes pre + ilen cur < 2 ^ 31" "0 < ilen cur"
    and "list_all (\<lambda>it. it_packet it \<noteq> []) pre"
    and "\<not> isSent \<or> (\<forall>it \<in> set (pre @ [cur]). seq_ge (it_startSeq it) una)"
  shows "tx_scan isSent una (seqof ls (k + tbytes pre)) (seqof ls k) acc (pre @ cur # post)
    = Inr (Some (acc @ pre, cur, post, seqof ls (k + tbytes pre)))"
  using assms
proof (induction pre arbitrary: k acc)
  case Nil
  have "seq_lt (seqof ls k) (seqof ls k + isize cur)"
    using Nil by (simp add: isize_ilen seqof_add seq_simps)
  with Nil show ?case by auto
next
  case (Cons it pre)
  have "\<not> seq_lt (seqof ls (k + tbytes (it # pre))) (seqof ls k + isize it)"
    using Cons.prems(1) by (simp add: isize_ilen seqof_add seq_simps)
  moreover have "tx_scan isSent una (seqof ls (k + ilen it + tbytes pre)) (seqof ls (k + ilen it))
      (acc @ [it]) (pre @ cur # post)
    = Inr (Some ((acc @ [it]) @ pre, cur, post, seqof ls (k + ilen it + tbytes pre)))"
    using Cons.prems by (intro Cons.IH) auto
  ultimately show ?case
    using Cons.prems(4) by (simp add: isize_ilen seqof_add add.assoc)
qed

lemma contig_start_ge:
  assumes "contig una its" "tbytes its < 2 ^ 31" "it \<in> set its"
  shows "seq_ge (it_startSeq it) una"
proof -
  obtain pre post where its: "its = pre @ it # post"
    using assms(3) by (meson split_list)
  then have "it_startSeq it = seqof una (tbytes pre)"
    using assms(1) by (simp add: seqof_def)
  moreover have "seq_ge (seqof una (tbytes pre)) (seqof una 0)"
    using assms(2) its seq_ord_seqof(3) [of "tbytes pre" 0 una] by simp
  ultimately show ?thesis by simp
qed

lemma contig_prefix_ge:
  assumes "\<not> isSent \<or> una = ls \<and> contig una (pre @ cur # post)" "tbytes (pre @ cur # post) < 2 ^ 31"
  shows "\<not> isSent \<or> (\<forall>it \<in> set (pre @ [cur]). seq_ge (it_startSeq it) una)"
proof (cases isSent)
  case True
  with assms have "\<forall>it \<in> set (pre @ cur # post). seq_ge (it_startSeq it) una"
    using contig_start_ge by blast
  then show ?thesis
    unfolding set_append by (metis Un_iff list.set_intros(1) set_ConsD empty_iff list.set(1))
qed simp

lemma MergeItems_ok:
  assumes "it_sacked t1 = it_sacked t2" "it_lost t1 = it_lost t2"
  shows "\<exists>t r'. MergeItems t1 t2 r = Inr (t, r')"
  using assms by (auto simp: MergeItems_def Let_def split: if_splits)

lemma SplitItems_ok:
  assumes "unat n \<le> ilen it" "ilen it < 2 ^ 32"
  shows "\<exists>t1 t2. SplitItems i it n = Inr (t1, t2)"
proof -
  have "create_fragment (it_packet it) (of_nat 0) (of_nat (unat n)) = Inr (take (unat n) (drop 0 (it_packet it)))"
    using assms by (intro create_fragment_ok) (auto simp: ilen_def)
  then show ?thesis
    by (simp add: SplitItems_def)
qed

text \<open>
  A call for bytes that begin at an item and reach no farther than items with the
  flags of the first succeeds, within the fuel given.
\<close>

lemma GetPacketFromList_ok:
  assumes "tbytes (pre @ cur # q @ rest) < 2 ^ 31" "list_all (\<lambda>it. it_packet it \<noteq> []) (pre @ cur # q)"
    and "0 < n" "n \<le> ilen cur + tbytes q" "length q < fuel"
    and "\<forall>it \<in> set q. it_sacked it = it_sacked cur \<and> it_lost it = it_lost cur"
    and "\<not> isSent \<or> una = ls \<and> contig una (pre @ cur # q @ rest)"
  shows "\<exists>res. GetPacketFromList fuel isSent una (pre @ cur # q @ rest) ls (of_nat n)
    (seqof ls (tbytes pre)) r i = Inr res"
  using assms
proof (induction q arbitrary: cur fuel r)
  case (Nil cur fuel r)
  obtain f where f: "fuel = Suc f" using Nil.prems by (cases fuel) auto
  let ?s = "seqof ls (tbytes pre)"
  have bnd: "tbytes pre + ilen cur < 2 ^ 31" "n \<le> ilen cur" "ilen cur < 2 ^ 31"
    using Nil.prems by simp_all
  from tx_scan_found [OF bnd(1) _ _ contig_prefix_ge [OF Nil.prems(7,1)], of ls 0 "[]" "[] @ rest"] Nil.prems(2,3)
  have sc: "tx_scan isSent una ?s ls [] (pre @ cur # [] @ rest) = Inr (Some (pre, cur, [] @ rest, ?s))"
    by (auto simp: ilen_def)
  have le: "seq_le (?s + of_nat n) (?s + isize cur)"
    using bnd by (simp add: isize_ilen seqof_add seq_simps)
  have un: "unat (of_nat n :: u32) = n" "unat (isize cur) = ilen cur"
    using bnd by (simp_all add: isize_ilen)
  show ?case
  proof (cases "of_nat n = isize cur")
    case True
    then show ?thesis using sc le f by simp
  next
    case False
    then have "of_nat n < isize cur"
      using un bnd(2) by (metis le_neq_implies_less word_less_nat_alt word_unat_eq_iff)
    moreover obtain t1 t2 where "SplitItems i cur (of_nat n) = Inr (t1, t2)"
      using SplitItems_ok [of "of_nat n" cur i] un bnd by auto
    ultimately show ?thesis using sc le f False by simp
  qed
next
  case (Cons nxt q cur fuel r)
  obtain f where f: "fuel = Suc f" using Cons.prems by (cases fuel) auto
  let ?s = "seqof ls (tbytes pre)" and ?lst = "pre @ cur # (nxt # q) @ rest"
  have bnd: "tbytes pre + ilen cur < 2 ^ 31" "ilen cur < 2 ^ 31" "n < 2 ^ 31"
    using Cons.prems(1,4) by simp_all
  from tx_scan_found [OF bnd(1) _ _ contig_prefix_ge [OF Cons.prems(7,1)], of ls 0 "[]" "(nxt # q) @ rest"] Cons.prems(2)
  have sc: "tx_scan isSent una ?s ls [] ?lst = Inr (Some (pre, cur, (nxt # q) @ rest, ?s))"
    by (auto simp: ilen_def)
  have le: "seq_le (?s + of_nat n) (?s + isize cur) \<longleftrightarrow> n \<le> ilen cur"
    using bnd Cons.prems(1,4) by (simp add: isize_ilen seqof_add seq_simps)
  have un: "unat (of_nat n :: u32) = n" "unat (isize cur) = ilen cur"
    using bnd by (simp_all add: isize_ilen)
  consider "n = ilen cur" | "n < ilen cur" | "ilen cur < n" by linarith
  then show ?case
  proof cases
    case 1
    then have "of_nat n = isize cur" by (simp add: isize_ilen)
    then show ?thesis using sc le f 1 by simp
  next
    case 2
    then have "of_nat n < isize cur" "of_nat n \<noteq> isize cur"
      using un by (auto simp: word_less_nat_alt)
    moreover obtain t1 t2 where "SplitItems i cur (of_nat n) = Inr (t1, t2)"
      using SplitItems_ok [of "of_nat n" cur i] un 2 bnd by auto
    ultimately show ?thesis using sc le f 2 by simp
  next
    case 3
    obtain t r' where t: "MergeItems cur nxt r = Inr (t, r')"
      using MergeItems_ok [of cur nxt r] Cons.prems(6) by auto
    note m = relist_merge(1) [OF t, of pre "q @ rest" i] relist_merge(2-) [OF t]
    have "\<not> isSent \<or> una = ls \<and> contig una (pre @ t # q @ rest)"
      using relistD(5) [OF m(1)] Cons.prems(7) by auto
    moreover have "it_packet t \<noteq> []"
      using m(2) Cons.prems(2) by (auto simp: ilen_def)
    ultimately have "\<exists>res. GetPacketFromList f isSent una (pre @ t # q @ rest) ls (of_nat n) ?s r' i = Inr res"
      using m(2,4,5) Cons.prems f by (intro Cons.IH) auto
    then show ?thesis
      using sc le 3 t f by simp
  qed
qed

end
