(* ===== verification/TxInv.thy ===== *)
theory TxInv
  imports TxLists
begin

text \<open>
  The invariant of the send buffer (\<open>tx_wf\<close>), its preservation by the operations,
  and what the operations do to the byte stream held in the buffer.
\<close>

definition tx_items :: "tx_buffer \<Rightarrow> tx_item list" where
  "tx_items tx = tx_sentList tx @ tx_appList tx"

definition tx_stream :: "tx_buffer \<Rightarrow> packet" where
  "tx_stream tx = payload (tx_items tx)"

definition tx_wf :: "tx_buffer \<Rightarrow> bool" where
  "tx_wf tx \<longleftrightarrow>
    list_all item_ok (tx_sentList tx) \<and> list_all item_clean (tx_appList tx) \<and>
    contig (tx_firstByteSeq tx) (tx_sentList tx) \<and> ConsistencyCheck tx \<and>
    tx_sentSize tx = of_nat (tbytes (tx_sentList tx)) \<and> tx_size tx = of_nat (tbytes (tx_items tx)) \<and>
    tbytes (tx_items tx) < 2 ^ 31 \<and> ids_ok (tx_nextId tx) (tx_items tx)"

subsection \<open>Lists keyed by address\<close>

lemma find_item_split:
  "it_id it \<notin> it_id ` set pre \<Longrightarrow> find_item (it_id it) (pre @ it # post) = Some it"
  by (induction pre) auto

lemma update_item_split:
  "it_id it \<notin> it_id ` set pre \<Longrightarrow> update_item (it_id it) f (pre @ it # post) = pre @ f it # post"
  by (induction pre) auto

lemma remove_item_split:
  "it_id it \<notin> it_id ` set pre \<Longrightarrow> remove_item (it_id it) (pre @ it # post) = pre @ post"
  by (induction pre) auto

lemma tx_items_simps [simp]:
  "tbytes (tx_items tx) = tbytes (tx_sentList tx) + tbytes (tx_appList tx)"
  "ids_ok i (tx_items tx) \<longleftrightarrow> ids_ok i (tx_sentList tx) \<and> ids_ok i (tx_appList tx)
    \<and> it_id ` set (tx_sentList tx) \<inter> it_id ` set (tx_appList tx) = {}"
  by (simp_all add: tx_items_def)

lemma ConsistencyCheck_iff:
  "ConsistencyCheck tx \<longleftrightarrow>
    tx_sackedOut tx = of_nat (fbytes it_sacked (tx_sentList tx)) \<and>
    tx_lostOut tx = of_nat (fbytes it_lost (tx_sentList tx)) \<and>
    tx_retrans tx = of_nat (fbytes it_retrans (tx_sentList tx))"
  by (auto simp: ConsistencyCheck_def flag_bytes_eq)

lemma tx_wfD:
  assumes "tx_wf tx"
  shows "list_all item_ok (tx_sentList tx)" "list_all item_clean (tx_appList tx)"
    "contig (tx_firstByteSeq tx) (tx_sentList tx)"
    "tx_sackedOut tx = of_nat (fbytes it_sacked (tx_sentList tx))"
    "tx_lostOut tx = of_nat (fbytes it_lost (tx_sentList tx))"
    "tx_retrans tx = of_nat (fbytes it_retrans (tx_sentList tx))"
    "tx_sentSize tx = of_nat (tbytes (tx_sentList tx))"
    "tx_size tx = of_nat (tbytes (tx_sentList tx) + tbytes (tx_appList tx))"
    "tbytes (tx_sentList tx) + tbytes (tx_appList tx) < 2 ^ 31"
    "ids_ok (tx_nextId tx) (tx_sentList tx)" "ids_ok (tx_nextId tx) (tx_appList tx)"
    "it_id ` set (tx_sentList tx) \<inter> it_id ` set (tx_appList tx) = {}"
  using assms unfolding tx_wf_def by (simp_all add: ConsistencyCheck_iff)

lemma item_ok_nonempty: "list_all item_ok its \<Longrightarrow> list_all (\<lambda>it. it_packet it \<noteq> []) its"
  by (auto simp: list_all_iff item_ok_def)

lemma item_clean_nonempty: "list_all item_clean its \<Longrightarrow> list_all (\<lambda>it. it_packet it \<noteq> []) its"
  by (auto simp: list_all_iff item_clean_def)

lemma tbytes_0: "list_all (\<lambda>it. it_packet it \<noteq> []) its \<Longrightarrow> tbytes its = 0 \<longleftrightarrow> its = []"
  by (cases its) (auto simp: ilen_def)

lemma fbytes_clean: "list_all item_clean its \<Longrightarrow> fbytes it_retrans its = 0"
  by (induction its) (auto simp: item_clean_def)

lemma SizeFromSequence_seqof:
  assumes "tx_wf tx" "k \<le> tbytes (tx_items tx)"
  shows "SizeFromSequence (seqof (tx_firstByteSeq tx) k) tx = of_nat (tbytes (tx_items tx) - k)"
proof -
  have t: "TailSequence tx = seqof (tx_firstByteSeq tx) (tbytes (tx_items tx))"
    using tx_wfD(8) [OF assms(1)] by (simp add: TailSequence_def seqof_def)
  have "tbytes (tx_items tx) < 2 ^ 31"
    using tx_wfD(9) [OF assms(1)] by simp
  then show ?thesis
    using assms(2) seq_minus_seqof [OF assms(2), of "tx_firstByteSeq tx"]
    by (simp add: SizeFromSequence_def Let_def t seq_simps)
qed

subsection \<open>Adding data\<close>

lemma TxAdd_wf:
  assumes "tx_wf tx" "unat (tx_size tx) \<le> unat (tx_maxBuffer tx)" "unat (tx_maxBuffer tx) < 2 ^ 31"
    and "length p < 2 ^ 32"
  shows "tx_wf (snd (TxAdd p tx))
    \<and> (fst (TxAdd p tx) \<longleftrightarrow> tbytes (tx_items tx) + length p \<le> unat (tx_maxBuffer tx))
    \<and> tx_stream (snd (TxAdd p tx)) = tx_stream tx @ (if fst (TxAdd p tx) then p else [])"
proof -
  let ?n = "tbytes (tx_items tx)"
  note w = tx_wfD [OF assms(1)]
  have n: "unat (tx_size tx) = ?n" using w(8,9) by (simp del: of_nat_add)
  have "unat (TxAvailable tx) = unat (tx_maxBuffer tx) - ?n"
    using assms(2) n by (simp add: TxAvailable_def unat_sub word_le_nat_alt)
  then have acc: "pkt_size p \<le> TxAvailable tx \<longleftrightarrow> ?n + length p \<le> unat (tx_maxBuffer tx)"
    using assms(2,4) n by (auto simp: word_le_nat_alt)
  have pos: "pkt_size p > 0 \<longleftrightarrow> p \<noteq> []"
    using assms(4) by (simp add: word_less_nat_alt)
  show ?thesis
  proof (cases "pkt_size p \<le> TxAvailable tx \<and> p \<noteq> []")
    case True
    let ?it = "new_item (tx_nextId tx) p"
    have it: "it_id ?it = tx_nextId tx" "item_clean ?it" "ilen ?it = length p" "it_packet ?it = p"
      using True by (simp_all add: new_item_def item_clean_def ilen_def)
    have "ids_ok (Suc (tx_nextId tx)) (tx_sentList tx)" "ids_ok (Suc (tx_nextId tx)) (tx_appList tx)"
      "tx_nextId tx \<notin> it_id ` set (tx_sentList tx)" "tx_nextId tx \<notin> it_id ` set (tx_appList tx)"
      using w(10,11) by (auto elim: ids_ok_mono simp: ids_ok_def)
    with True acc pos w it assms(3) show ?thesis
      by (auto simp: TxAdd_def tx_wf_def ConsistencyCheck_iff tx_stream_def tx_items_def pkt_size_def)
  next
    case False
    with acc pos assms(1,2) n show ?thesis
      by (auto simp: TxAdd_def)
  qed
qed

text \<open>Position and size of the item that \<open>GetPacketFromList\<close> returns.\<close>

lemma found_item:
  assumes "relist l r i lst r' i'" "tbytes l < 2 ^ 31" "lst = pre @ it # post"
    and "ls + of_nat (tbytes pre) = seqof ls k" "k + m \<le> tbytes l"
    and "isize it = of_nat m \<or> post = [] \<and> \<not> seq_le (seqof ls k + of_nat m) (seqof ls k + isize it)"
  shows "tbytes pre = k \<and> ilen it = m"
proof -
  have lb: "tbytes lst = tbytes l"
    using relistD(1) [OF assms(1)] by (metis length_payload)
  have pre: "tbytes pre = k"
  proof -
    have "seqof ls (tbytes pre) = seqof ls k" using assms(4) by (simp add: seqof_def)
    then show ?thesis
      using lb assms(2,3,5) by (simp add: seqof_eq)
  qed
  have "ilen it = m"
  proof (rule disjE [OF assms(6)])
    assume "isize it = of_nat m"
    then show ?thesis using lb assms(2,3,5) by (simp add: isize_ilen)
  next
    assume a: "post = [] \<and> \<not> seq_le (seqof ls k + of_nat m) (seqof ls k + isize it)"
    then have "m \<le> ilen it" "k + ilen it < 2 ^ 31" using lb assms(2,3,5) pre by auto
    with a show ?thesis
      by (simp add: isize_ilen seqof_add seq_simps)
  qed
  with pre show ?thesis ..
qed

subsection \<open>New segments\<close>

lemma GetNewSegment_ok:
  assumes "tx_wf tx" "0 < n" "n \<le> tbytes (tx_appList tx)"
  shows "\<exists>item app' i'. GetNewSegment (of_nat n) tx = Inr (item,
      tx\<lparr>tx_appList := app', tx_sentList := tx_sentList tx @ [item],
         tx_sentSize := tx_sentSize tx + of_nat n, tx_nextId := i'\<rparr>)
    \<and> ilen item = n \<and> item_clean item \<and> it_startSeq item = tx_firstByteSeq tx + tx_sentSize tx
    \<and> payload (item # app') = payload (tx_appList tx) \<and> list_all item_clean app'
    \<and> ids_ok i' (item # app') \<and> tx_nextId tx \<le> i'
    \<and> it_id ` set (item # app') \<subseteq> it_id ` set (tx_appList tx) \<union> {tx_nextId tx ..< i'}"
proof -
  let ?app = "tx_appList tx" and ?ls = "tx_firstByteSeq tx + tx_sentSize tx"
  note w = tx_wfD [OF assms(1)]
  obtain cur q where app: "?app = cur # q"
    using assms(2,3) by (cases ?app) auto
  have ne: "list_all (\<lambda>it. it_packet it \<noteq> []) ?app"
    using w(2) by (rule item_clean_nonempty)
  have clean: "\<forall>it \<in> set ?app. \<not> it_sacked it \<and> \<not> it_lost it"
    using w(2) by (auto simp: list_all_iff item_clean_def)
  have tb: "tbytes ?app < 2 ^ 31" using w(9) by simp
  obtain res where "GetPacketFromList (list_fuel ?app) False (tx_firstByteSeq tx) ([] @ cur # q @ []) ?ls
      (of_nat n) (seqof ?ls (tbytes [])) (tx_retrans tx) (tx_nextId tx) = Inr res"
    using GetPacketFromList_ok [of "[]" cur q "[]" n "list_fuel ?app" False "tx_firstByteSeq tx" ?ls]
      assms app ne clean tb by (fastforce simp: list_fuel_def)
  then obtain j lst r' i' where res: "GetPacketFromList (list_fuel ?app) False (tx_firstByteSeq tx) ?app ?ls
      (of_nat n) ?ls (tx_retrans tx) (tx_nextId tx) = Inr (j, lst, r', i')"
    using app by (cases res) auto
  have n: "(of_nat n :: u32) \<noteq> 0" "n < 2 ^ 31"
    using assms(2,3) tb of_nat_eq_32 [of n 0] by auto
  from GetPacketFromList_spec [OF res n(1)] tb obtain pre it post where
    rl: "relist ?app (tx_retrans tx) (tx_nextId tx) lst r' i'" and
    l: "lst = pre @ it # post" "it_id it = j" "?ls + of_nat (tbytes pre) = ?ls"
      "isize it = of_nat n \<or> post = [] \<and> \<not> seq_le (?ls + of_nat n) (?ls + isize it)"
    by auto
  note R = relistD [OF rl]
  have lc: "list_all item_clean lst" using R(7) w(2) by simp
  have "tbytes pre = 0 \<and> ilen it = n"
    using found_item [OF rl tb l(1), of ?ls 0 n] l(3,4) assms(3) by simp
  moreover have "list_all (\<lambda>it. it_packet it \<noteq> []) pre"
    using item_clean_nonempty [OF lc] l(1) by simp
  ultimately have pre: "pre = []" and it: "ilen it = n" by (simp_all add: tbytes_0)
  have r': "r' = tx_retrans tx"
    using R(4) fbytes_clean [OF lc] fbytes_clean [OF w(2)] by simp
  let ?item = "it\<lparr>it_startSeq := ?ls\<rparr>"
  have "GetNewSegment (of_nat n) tx = Inr (?item,
      tx\<lparr>tx_appList := post, tx_sentList := tx_sentList tx @ [?item],
         tx_sentSize := tx_sentSize tx + of_nat n, tx_nextId := i'\<rparr>)"
    using res l(1,2) pre it r' by (simp add: GetNewSegment_def Let_def isize_def pkt_size_def ilen_def)
  moreover have "ilen ?item = n" "item_clean ?item" "it_startSeq ?item = ?ls"
    "payload (?item # post) = payload ?app" "list_all item_clean post"
    using it lc l(1) pre R(1) by (auto simp: ilen_def item_clean_def)
  moreover have "ids_ok i' (?item # post)" "tx_nextId tx \<le> i'"
    "it_id ` set (?item # post) \<subseteq> it_id ` set ?app \<union> {tx_nextId tx ..< i'}"
    using R(8-10) w(11) l(1) pre by auto
  ultimately show ?thesis by blast
qed

subsection \<open>Retransmissions\<close>

text \<open>The bytes a retransmission that begins at item \<open>cur\<close> may take.\<close>

definition rtx_limit :: "tx_item \<Rightarrow> tx_item list \<Rightarrow> nat" where
  "rtx_limit cur post =
    (case post of
       nxt # _ \<Rightarrow> if \<not> it_sacked nxt \<and> it_lost cur = it_lost nxt then ilen cur + ilen nxt else ilen cur
     | [] \<Rightarrow> ilen cur)"

lemma contig_starts:
  assumes "contig una (pre @ cur # post)" "tbytes (pre @ cur # post) < 2 ^ 31"
    and "list_all (\<lambda>it. it_packet it \<noteq> []) pre" "it \<in> set pre"
  shows "it_startSeq it \<noteq> seqof una (tbytes pre)"
proof -
  obtain p1 p2 where p: "pre = p1 @ it # p2"
    using assms(4) by (meson split_list)
  then have "it_startSeq it = seqof una (tbytes p1)" "0 < ilen it"
    using assms(1,3) by (auto simp: seqof_def ilen_def)
  then show ?thesis
    using assms(2) p by (simp add: seqof_eq)
qed

lemma retransmit_size_eq:
  assumes "\<forall>it \<in> set pre. it_startSeq it \<noteq> s" "it_startSeq cur = s"
    and "tbytes (cur # post) < 2 ^ 31" "n < 2 ^ 31"
  shows "retransmit_size s (of_nat n) (pre @ cur # post) = of_nat (min n (rtx_limit cur post))"
  using assms(1)
proof (induction pre)
  case Nil
  have m: "min (of_nat n) (of_nat k) = (of_nat (min n k) :: u32)" if "k < 2 ^ 31" for k
    using that assms(4) by (simp add: min_def word_le_nat_alt)
  show ?case
    using assms(2,3) m [of "ilen cur"] m [of "ilen cur + ilen (hd post)"]
    by (cases post) (auto simp: rtx_limit_def isize_ilen simp del: of_nat_add simp flip: of_nat_add)
qed simp

lemma fresh_disjoint:
  assumes "A \<subseteq> it_id ` set l \<union> {n ..< i}" "it_id ` set l \<inter> it_id ` set l' = {}" "ids_ok n l'"
  shows "A \<inter> it_id ` set l' = {}"
proof (rule ccontr)
  assume "A \<inter> it_id ` set l' \<noteq> {}"
  then obtain x where x: "x \<in> A" "x \<in> it_id ` set l'" by blast
  then have "x < n" using assms(3) by (auto simp: ids_ok_def)
  with x(1) assms(1) have "x \<in> it_id ` set l" by auto
  with x(2) assms(2) show False by blast
qed

lemma tx_wf_resent:
  assumes "tx_wf tx" "relist (tx_sentList tx) (tx_retrans tx) (tx_nextId tx) (pre @ it # post) r i"
  shows "tx_wf (tx\<lparr>tx_sentList := pre @ it\<lparr>it_retrans := True\<rparr> # post,
      tx_retrans := if it_retrans it then r else r + isize it, tx_nextId := i\<rparr>)"
proof -
  let ?l = "pre @ it\<lparr>it_retrans := True\<rparr> # post" and ?sent = "tx_sentList tx"
  note w = tx_wfD [OF assms(1)] and R = relistD [OF assms(2)]
  have l: "list_all item_ok (pre @ it # post)" "contig (tx_firstByteSeq tx) (pre @ it # post)"
    "ids_ok i (pre @ it # post)"
    "it_id ` set (pre @ it # post) \<subseteq> it_id ` set ?sent \<union> {tx_nextId tx ..< i}"
    using R(5,6,9,10) w(1,3,10) by auto
  have flags: "list_all item_ok ?l" "contig (tx_firstByteSeq tx) ?l"
    using l(1,2) by (simp_all add: item_ok_def isize_def)
  have ids: "ids_ok i ?l" "it_id ` set ?l = it_id ` set (pre @ it # post)"
    using l(3) by simp_all
  have app: "ids_ok i (tx_appList tx)"
    using w(11) R(8) by (rule ids_ok_mono)
  have disj: "it_id ` set ?l \<inter> it_id ` set (tx_appList tx) = {}"
    unfolding ids(2) by (rule fresh_disjoint [OF l(4) w(12,11)])
  have "tbytes (pre @ it # post) = tbytes ?sent"
    using R(1) by (metis length_payload)
  then have tb: "tbytes ?l = tbytes ?sent" by (simp add: ilen_def)
  have "fbytes it_sacked ?l = fbytes it_sacked (pre @ it # post)"
    "fbytes it_lost ?l = fbytes it_lost (pre @ it # post)" by simp_all
  then have cnt: "of_nat (fbytes it_sacked ?l) = tx_sackedOut tx" "of_nat (fbytes it_lost ?l) = tx_lostOut tx"
    using R(3) w(4,5) by (simp_all only:)
  have "of_nat (fbytes it_retrans (pre @ it # post)) = r"
    using R(4) w(6) by simp
  then have "of_nat (fbytes it_retrans ?l) = (if it_retrans it then r else r + isize it)"
    by (auto simp: isize_ilen ilen_def algebra_simps)
  with flags ids(1) app disj tb cnt w show ?thesis
    unfolding tx_wf_def ConsistencyCheck_iff tx_items_simps by simp
qed

lemma GetTransmittedSegment_ok:
  assumes "tx_wf tx" "tx_sentList tx = pre @ cur # post" "\<not> it_sacked cur"
    and "0 < n" "n \<le> tbytes (tx_sentList tx)"
  shows "\<exists>item sent' r' i'. GetTransmittedSegment (of_nat n) (seqof (tx_firstByteSeq tx) (tbytes pre)) tx
      = Inr (item, tx\<lparr>tx_sentList := sent', tx_retrans := r', tx_nextId := i'\<rparr>)
    \<and> item \<in> set sent' \<and> ilen item = min n (rtx_limit cur post) \<and> it_retrans item \<and> \<not> it_sacked item
    \<and> it_startSeq item = seqof (tx_firstByteSeq tx) (tbytes pre)
    \<and> payload sent' = payload (tx_sentList tx) \<and> marks sent' = marks (tx_sentList tx)
    \<and> tx_wf (tx\<lparr>tx_sentList := sent', tx_retrans := r', tx_nextId := i'\<rparr>)"
proof -
  let ?una = "tx_firstByteSeq tx" and ?sent = "tx_sentList tx"
  let ?s = "seqof ?una (tbytes pre)" and ?m = "min n (rtx_limit cur post)"
  note w = tx_wfD [OF assms(1)]
  have tb: "tbytes ?sent < 2 ^ 31" using w(9) by simp
  have ne: "list_all (\<lambda>it. it_packet it \<noteq> []) ?sent"
    using w(1) by (rule item_ok_nonempty)
  have cur: "0 < ilen cur" "it_startSeq cur = ?s"
    using ne w(3) assms(2) by (auto simp: ilen_def seqof_def)
  have "\<forall>it \<in> set pre. it_startSeq it \<noteq> ?s"
    using contig_starts [of ?una pre cur post] w(3) assms(2) tb ne by auto
  then have rs: "retransmit_size ?s (of_nat n) ?sent = of_nat ?m"
    using retransmit_size_eq [of pre ?s cur post n] cur tb assms(2,5) by simp
  obtain q rest where q: "post = q @ rest" "?m \<le> ilen cur + tbytes q" "length q \<le> 1"
    "\<forall>it \<in> set q. it_sacked it = it_sacked cur \<and> it_lost it = it_lost cur"
  proof (cases "post \<noteq> [] \<and> \<not> it_sacked (hd post) \<and> it_lost cur = it_lost (hd post)")
    case True
    then show ?thesis
      using assms(3) by (intro that [of "[hd post]" "tl post"]) (auto simp: rtx_limit_def split: list.splits)
  next
    case False
    then show ?thesis
      by (intro that [of "[]" post]) (auto simp: rtx_limit_def split: list.splits)
  qed
  have m: "0 < ?m" "?m < 2 ^ 31"
    using assms(4,5) cur(1) tb by (auto simp: rtx_limit_def split: list.splits)
  obtain res where "GetPacketFromList (list_fuel ?sent) True ?una (pre @ cur # q @ rest) ?una (of_nat ?m) ?s
      (tx_retrans tx) (tx_nextId tx) = Inr res"
    using GetPacketFromList_ok [of pre cur q rest ?m "list_fuel ?sent" True ?una ?una "tx_retrans tx" "tx_nextId tx"]
      tb ne m q w(3) assms(2) by (auto simp: list_fuel_def)
  then obtain j lst r1 i' where res: "GetPacketFromList (list_fuel ?sent) True ?una ?sent ?una (of_nat ?m) ?s
      (tx_retrans tx) (tx_nextId tx) = Inr (j, lst, r1, i')"
    using assms(2) q(1) by (cases res) auto
  have "(of_nat ?m :: u32) \<noteq> 0"
    using m of_nat_eq_32 [of ?m 0] by simp
  from GetPacketFromList_spec [OF res this] tb obtain pre' it post' where
    rl: "relist ?sent (tx_retrans tx) (tx_nextId tx) lst r1 i'" and
    l: "lst = pre' @ it # post'" "it_id it = j" "?una + of_nat (tbytes pre') = ?s"
      "isize it = of_nat ?m \<or> post' = [] \<and> \<not> seq_le (?s + of_nat ?m) (?s + isize it)"
    by auto
  note R = relistD [OF rl]
  have fi: "tbytes pre' = tbytes pre" "ilen it = ?m"
  proof -
    have "tbytes pre + ?m \<le> tbytes ?sent"
      using q(1,2) assms(2) by simp
    then show "tbytes pre' = tbytes pre" "ilen it = ?m"
      using found_item [OF rl tb l(1,3) _ l(4)] by blast+
  qed
  have lok: "list_all item_ok lst" "contig ?una lst" "ids_ok i' lst"
    using R(5,6,9) w(1,3,10) by auto
  have "(it_sacked it, it_lost it) = (it_sacked cur, it_lost cur)"
    using marks_nth [of it pre' post'] marks_nth [of cur pre post] R(2) l(1) assms(2) fi cur(1) m(1) by metis
  then have sk: "\<not> it_sacked it" using assms(3) by simp
  let ?item = "it\<lparr>it_retrans := True\<rparr>" and ?r = "if it_retrans it then r1 else r1 + isize it"
  let ?sent' = "pre' @ ?item # post'"
  let ?tx' = "tx\<lparr>tx_sentList := ?sent', tx_retrans := ?r, tx_nextId := i'\<rparr>"
  have nin: "it_id it \<notin> it_id ` set pre'" using lok(3) l(1) by auto
  have n: "unat (of_nat n :: u32) = n" "unat (tx_sentSize tx) = tbytes ?sent"
    using w(7) tb assms(5) by simp_all
  have "seq_ge ?s ?una"
    using tb assms(2) seq_ord_seqof(3) [of "tbytes pre" 0 ?una] by simp
  moreover have "of_nat n \<le> tx_sentSize tx"
    using n assms(5) by (simp add: word_le_nat_alt)
  ultimately have "GetTransmittedSegment (of_nat n) ?s tx = Inr (?item, ?tx')"
    using res rs nin l(1,2) assms(2) find_item_split [OF nin] update_item_split [OF nin]
    by (auto simp: GetTransmittedSegment_def isize_def Let_def)
  moreover have "it_startSeq ?item = ?s"
    using lok(2) l(1,3) by simp
  moreover have "payload ?sent' = payload ?sent" "marks ?sent' = marks ?sent"
    using R(1,2) l(1) by (simp_all add: ilen_def)
  moreover have "tx_wf ?tx'"
    using tx_wf_resent [OF assms(1) rl [unfolded l(1)]] by simp
  ultimately show ?thesis
    using fi sk by (intro exI [of _ ?item] exI [of _ ?sent'] exI [of _ ?r] exI [of _ i']) (simp add: ilen_def)
qed

subsection \<open>CopyFromSequence\<close>

text \<open>The time stamp set on the item that is returned changes nothing else.\<close>

lemma tx_touch:
  assumes "tx_wf tx" "item \<in> set (tx_sentList tx)"
    and tx': "tx' = tx\<lparr>tx_sentList :=
      update_item (it_id item) (\<lambda>_. item\<lparr>it_lastSent := now\<rparr>) (tx_sentList tx)\<rparr>"
  shows "tx_wf tx'" and "payload (tx_sentList tx') = payload (tx_sentList tx)"
    and "marks (tx_sentList tx') = marks (tx_sentList tx)"
    and "seq_ge (it_startSeq item) (tx_firstByteSeq tx)"
proof -
  note w = tx_wfD [OF assms(1)]
  obtain a b where ab: "tx_sentList tx = a @ item # b"
    using assms(2) by (meson split_list)
  then have "it_id item \<notin> it_id ` set a" using w(10) by auto
  then have u: "update_item (it_id item) (\<lambda>_. item\<lparr>it_lastSent := now\<rparr>) (tx_sentList tx)
      = a @ item\<lparr>it_lastSent := now\<rparr> # b"
    unfolding ab by (rule update_item_split)
  show "tx_wf tx'" "payload (tx_sentList tx') = payload (tx_sentList tx)"
    "marks (tx_sentList tx') = marks (tx_sentList tx)"
    using assms(1) unfolding tx' u tx_wf_def ConsistencyCheck_iff tx_items_simps
    by (simp_all add: ab item_ok_def)
  show "seq_ge (it_startSeq item) (tx_firstByteSeq tx)"
    using contig_start_ge [OF w(3) _ assms(2)] w(9) by simp
qed

lemma copy_new_data:
  assumes "tx_wf tx" "0 < n" "n < 2 ^ 32" "tx_appList tx \<noteq> []"
  shows "\<exists>item tx'. CopyFromSequence now (of_nat n) (tx_firstByteSeq tx + tx_sentSize tx) tx = Inr (Some item, tx')
    \<and> it_startSeq item = tx_firstByteSeq tx + tx_sentSize tx
    \<and> it_packet item = take (min n (tbytes (tx_appList tx))) (payload (tx_appList tx))
    \<and> tx_wf tx' \<and> tx_stream tx' = tx_stream tx \<and> tx_firstByteSeq tx' = tx_firstByteSeq tx
    \<and> payload (tx_sentList tx') = payload (tx_sentList tx) @ it_packet item
    \<and> tx_sentList tx' = tx_sentList tx @ [item] \<and> item_clean item"
proof -
  let ?una = "tx_firstByteSeq tx" and ?k = "tbytes (tx_sentList tx)" and ?a = "tbytes (tx_appList tx)"
  let ?m = "min n ?a"
  note w = tx_wfD [OF assms(1)]
  have a: "0 < ?a"
    using tbytes_0 [OF item_clean_nonempty [OF w(2)]] assms(4) by simp
  have se: "?una + tx_sentSize tx = seqof ?una ?k"
    using w(7) by (simp add: seqof_def)
  have sz: "min (of_nat n) (SizeFromSequence (seqof ?una ?k) tx) = of_nat ?m"
    using SizeFromSequence_seqof [OF assms(1), of ?k] assms(3) w(9)
    by (auto simp: min_def word_le_nat_alt)
  have m: "0 < ?m" "?m < 2 ^ 31" "(of_nat ?m :: u32) \<noteq> 0"
    using a assms(2) w(9) of_nat_eq_32 [of ?m 0] by auto
  have cmp: "\<not> seq_gt ?una (seqof ?una ?k)" "\<not> seq_ge (seqof ?una ?k) (seqof ?una ?k + of_nat ?m)"
    "seq_le (seqof ?una ?k) (seqof ?una ?k)"
    using w(9) m seq_gt_seqof [of 0 ?k ?una] seq_ord_seqof(3) [of ?k "?k + ?m" ?una]
    by (simp_all add: seqof_add seq_simps)
  obtain item app' i' where g: "GetNewSegment (of_nat ?m) tx = Inr (item,
      tx\<lparr>tx_appList := app', tx_sentList := tx_sentList tx @ [item],
         tx_sentSize := tx_sentSize tx + of_nat ?m, tx_nextId := i'\<rparr>)"
    "ilen item = ?m" "item_clean item" "it_startSeq item = ?una + tx_sentSize tx"
    "payload (item # app') = payload (tx_appList tx)" "list_all item_clean app'"
    "ids_ok i' (item # app')" "tx_nextId tx \<le> i'"
    "it_id ` set (item # app') \<subseteq> it_id ` set (tx_appList tx) \<union> {tx_nextId tx ..< i'}"
    using GetNewSegment_ok [OF assms(1) m(1)] by auto
  let ?tx1 = "tx\<lparr>tx_appList := app', tx_sentList := tx_sentList tx @ [item],
         tx_sentSize := tx_sentSize tx + of_nat ?m, tx_nextId := i'\<rparr>"
  let ?tx2 = "?tx1\<lparr>tx_sentList := update_item (it_id item) (\<lambda>_. item\<lparr>it_lastSent := now\<rparr>) (tx_sentList ?tx1)\<rparr>"
  have dj: "it_id ` set (item # app') \<inter> it_id ` set (tx_sentList tx) = {}"
    using fresh_disjoint [OF g(9) _ w(10)] w(12) by blast
  have tbs: "ilen item + tbytes app' = ?a"
    using g(5) by (metis length_payload tbytes_simps(2))
  have tbw: "(of_nat ?a :: u32) = of_nat ?m + of_nat (tbytes app')"
    using tbs g(2) by (metis of_nat_add)
  have "tx_wf ?tx1"
    using w g(2-4,6,7) dj tbs tbw ids_ok_mono [OF w(10) g(8)]
    by (auto simp: tx_wf_def ConsistencyCheck_iff item_ok_def item_clean_def)
  note t = tx_touch [OF this, of item ?tx2 now]
  have res: "CopyFromSequence now (of_nat n) (?una + tx_sentSize tx) tx = Inr (Some (item\<lparr>it_lastSent := now\<rparr>), ?tx2)"
    using g(1,3) cmp sz m(3) t(4) se
    by (simp add: CopyFromSequence_def numeral_2_eq_2 Let_def item_clean_def)
  have pk: "it_packet item = take ?m (payload (tx_appList tx))"
    using g(2,5) by (metis append_eq_conv_conj ilen_def payload_simps(2))
  have "tx_sentList ?tx2 = tx_sentList tx @ [item\<lparr>it_lastSent := now\<rparr>]"
    using update_item_split [of item "tx_sentList tx" "\<lambda>_. item\<lparr>it_lastSent := now\<rparr>" "[]"] dj by auto
  then show ?thesis
    using res t(1-3) g(3-5) pk
    by (intro exI [of _ "item\<lparr>it_lastSent := now\<rparr>"] exI [of _ ?tx2])
      (auto simp: tx_stream_def tx_items_def item_clean_def)
qed

text \<open>The first branch: all bytes asked for have been sent before.\<close>

lemma copy_sent:
  assumes "tx_wf tx" "tx_sentList tx = pre @ cur # post" "\<not> it_sacked cur"
    and "min N (SizeFromSequence (seqof (tx_firstByteSeq tx) (tbytes pre)) tx) = of_nat z"
    and "0 < z" "tbytes pre + z \<le> tbytes (tx_sentList tx)"
  defines "m \<equiv> min z (rtx_limit cur post)"
  shows "\<exists>item tx'. copy_from_sequence (Suc f) now N (seqof (tx_firstByteSeq tx) (tbytes pre)) tx
      = Inr (Some item, tx')
    \<and> it_startSeq item = seqof (tx_firstByteSeq tx) (tbytes pre)
    \<and> it_packet item = take m (drop (tbytes pre) (tx_stream tx)) \<and> 0 < m
    \<and> tx_wf tx' \<and> tx_stream tx' = tx_stream tx \<and> tx_firstByteSeq tx' = tx_firstByteSeq tx
    \<and> marks (tx_sentList tx') = marks (tx_sentList tx)"
proof -
  let ?una = "tx_firstByteSeq tx" and ?k = "tbytes pre" and ?e = "tbytes (tx_sentList tx)"
  let ?s = "seqof ?una ?k"
  note w = tx_wfD [OF assms(1)]
  have se: "?una + tx_sentSize tx = seqof ?una ?e"
    using w(7) by (simp add: seqof_def)
  have z: "(of_nat z :: u32) \<noteq> 0" "z < 2 ^ 31"
    using assms(5,6) w(9) of_nat_eq_32 [of z 0] by auto
  have cmp: "\<not> seq_gt ?una ?s" "seq_ge (seqof ?una ?e) (?s + of_nat z)"
    using assms(6) w(9) seq_gt_seqof [of 0 ?k ?una] by (simp_all add: seqof_add seq_simps)
  obtain item sent' r' i' where g: "GetTransmittedSegment (of_nat z) ?s tx
      = Inr (item, tx\<lparr>tx_sentList := sent', tx_retrans := r', tx_nextId := i'\<rparr>)"
    "item \<in> set sent'" "ilen item = m" "it_retrans item" "\<not> it_sacked item" "it_startSeq item = ?s"
    "payload sent' = payload (tx_sentList tx)" "marks sent' = marks (tx_sentList tx)"
    "tx_wf (tx\<lparr>tx_sentList := sent', tx_retrans := r', tx_nextId := i'\<rparr>)"
    using GetTransmittedSegment_ok [OF assms(1-3,5)] assms(6) unfolding m_def by fastforce
  let ?tx1 = "tx\<lparr>tx_sentList := sent', tx_retrans := r', tx_nextId := i'\<rparr>"
  let ?tx2 = "?tx1\<lparr>tx_sentList := update_item (it_id item) (\<lambda>_. item\<lparr>it_lastSent := now\<rparr>) (tx_sentList ?tx1)\<rparr>"
  have it1: "item \<in> set (tx_sentList ?tx1)" using g(2) by simp
  note t = tx_touch(1-3) [OF g(9) it1 refl, of now] tx_touch(4) [OF g(9) it1 refl]
  have res: "copy_from_sequence (Suc f) now N ?s tx = Inr (Some (item\<lparr>it_lastSent := now\<rparr>), ?tx2)"
    using g(1,5) cmp assms(4) z(1) t(4) se by (simp add: Let_def)
  obtain a b where ab: "sent' = a @ item # b"
    using g(2) by (meson split_list)
  have "contig ?una sent'" "tbytes sent' < 2 ^ 31"
    using tx_wfD(3,9) [OF g(9)] by simp_all
  with ab g(6) have "seqof ?una (tbytes a) = ?s" by (simp add: seqof_def)
  then have ta: "tbytes a = ?k"
    using \<open>tbytes sent' < 2 ^ 31\<close> ab assms(2) w(9) by (simp add: seqof_eq)
  have m0: "0 < m" "0 < ilen cur"
    using assms(2,5) item_ok_nonempty [OF w(1)] by (auto simp: m_def rtx_limit_def ilen_def split: list.splits)
  have st: "tx_stream tx = payload a @ it_packet item @ payload b @ payload (tx_appList tx)"
    using g(7) ab by (simp add: tx_stream_def tx_items_def)
  have pk: "it_packet item = take m (drop ?k (tx_stream tx))"
    unfolding st using g(3) ta by (simp add: ilen_def)
  have "tx_stream ?tx2 = tx_stream tx"
    using t(2) g(7) by (simp add: tx_stream_def tx_items_def)
  with res t(1,3) g(6,8) pk m0(1) show ?thesis
    by (intro exI [of _ "item\<lparr>it_lastSent := now\<rparr>"] exI [of _ ?tx2]) simp
qed

lemma copy_retransmission:
  assumes "tx_wf tx" "tx_sentList tx = pre @ cur # post" "\<not> it_sacked cur" "0 < n" "n < 2 ^ 32"
    and "tbytes pre + n \<le> tbytes (tx_sentList tx)
      \<or> unat (seqof (tx_firstByteSeq tx) (tbytes pre)) + tbytes (tx_items tx) < 2 ^ 32"
  defines "m \<equiv> min (min n (tbytes (tx_sentList tx) - tbytes pre)) (rtx_limit cur post)"
  shows "\<exists>item tx'. CopyFromSequence now (of_nat n) (seqof (tx_firstByteSeq tx) (tbytes pre)) tx
      = Inr (Some item, tx')
    \<and> it_startSeq item = seqof (tx_firstByteSeq tx) (tbytes pre)
    \<and> it_packet item = take m (drop (tbytes pre) (tx_stream tx)) \<and> 0 < m
    \<and> tx_wf tx' \<and> tx_stream tx' = tx_stream tx \<and> tx_firstByteSeq tx' = tx_firstByteSeq tx
    \<and> marks (tx_sentList tx') = marks (tx_sentList tx)"
proof -
  let ?una = "tx_firstByteSeq tx" and ?k = "tbytes pre" and ?e = "tbytes (tx_sentList tx)"
  let ?s = "seqof ?una ?k" and ?T = "tbytes (tx_items tx)"
  note w = tx_wfD [OF assms(1)]
  let ?z = "min n (?T - ?k)"
  have cur: "0 < ilen cur"
    using assms(2) item_ok_nonempty [OF w(1)] by (auto simp: ilen_def)
  have kT: "?k < ?e" "?e \<le> ?T" "?T < 2 ^ 31" using assms(2) cur w(9) by auto
  have szf: "SizeFromSequence ?s tx = of_nat (?T - ?k)"
    using SizeFromSequence_seqof [OF assms(1), of ?k] kT by simp
  have sz: "min (of_nat n) (SizeFromSequence ?s tx) = of_nat ?z"
    unfolding szf using assms(5) kT(3) by (auto simp: min_def word_le_nat_alt simp del: of_nat_diff tx_items_simps)
  show ?thesis
  proof (cases "?k + ?z \<le> ?e")
    case True
    then have "min ?z (rtx_limit cur post) = m"
      using kT by (auto simp: m_def)
    moreover have "0 < ?z" using assms(4) kT by simp
    ultimately show ?thesis
      using copy_sent [OF assms(1-3) sz _ True, of 1 now]
      by (simp add: CopyFromSequence_def numeral_2_eq_2)
  next
    case False
    then have nw: "unat ?s + ?T < 2 ^ 32" using assms(6) by auto
    have se: "?una + tx_sentSize tx = seqof ?una ?e"
      using w(7) by (simp add: seqof_def)
    have un: "unat (seqof ?una (?k + j)) = unat ?s + j" if "j \<le> ?T" for j
    proof -
      have "seqof ?una (?k + j) = ?s + of_nat j" by (simp add: seqof_def)
      moreover have "unat (of_nat j :: u32) = j" using that kT(3) by simp
      ultimately show ?thesis
        using nw that by (simp add: unat_add_lem [THEN iffD1])
    qed
    have "unat (seqof ?una ?e) = unat ?s + (?e - ?k)" "unat (?s + of_nat ?z) = unat ?s + ?z"
      using un [of "?e - ?k"] un [of ?z] kT by (simp_all add: seqof_add del: tx_items_simps)
    then have raw: "seqof ?una ?e > ?s" "seqof ?una ?e < ?s + of_nat ?z"
      using False kT unfolding word_less_nat_alt by linarith+
    have "seqof ?una ?e - ?s = of_nat (?e - ?k)"
      using kT(1) by (simp add: seqof_def of_nat_diff)
    moreover have z: "(of_nat ?z :: u32) \<noteq> 0"
      using assms(4) kT of_nat_eq_32 [of ?z 0] by (simp del: tx_items_simps of_nat_eq_0_iff)
    moreover have "\<not> seq_gt ?una ?s" "\<not> seq_ge (seqof ?una ?e) (?s + of_nat ?z)" "\<not> seq_le (seqof ?una ?e) ?s"
      using False kT seq_gt_seqof [of 0 ?k ?una] by (simp_all add: seqof_add seq_simps del: tx_items_simps)
    ultimately have "CopyFromSequence now (of_nat n) ?s tx
        = copy_from_sequence (Suc 0) now (of_nat (?e - ?k)) ?s tx"
      using sz raw se by (simp add: CopyFromSequence_def numeral_2_eq_2 Let_def del: tx_items_simps)
    moreover have "min (of_nat (?e - ?k)) (SizeFromSequence ?s tx) = of_nat (?e - ?k)"
      unfolding szf using kT by (auto simp: min_def word_le_nat_alt simp del: of_nat_diff tx_items_simps)
    moreover have "min (?e - ?k) (rtx_limit cur post) = m"
      using False kT by (auto simp: m_def)
    ultimately show ?thesis
      using copy_sent [OF assms(1-3), of "of_nat (?e - ?k)" "?e - ?k" 0 now] kT(1) by simp
  qed
qed

end
