(* ===== verification/TxDiscard.thy ===== *)
theory TxDiscard
  imports TxInv
begin

text \<open>
  Acknowledgment of data: \<open>DiscardUpTo\<close> removes exactly the acknowledged prefix of
  the stream, and keeps the invariant and the marks of all other bytes.
\<close>

lemma RemoveFromCounts_ok:
  assumes "it_sacked it \<longrightarrow> sz \<le> tx_sackedOut tx" "it_retrans it \<longrightarrow> sz \<le> tx_retrans tx"
    and "it_lost it \<longrightarrow> sz \<le> tx_lostOut tx"
  shows "RemoveFromCounts it sz tx = Inr (tx\<lparr>
    tx_sackedOut := (if it_sacked it then tx_sackedOut tx - sz else tx_sackedOut tx),
    tx_retrans := (if it_retrans it then tx_retrans tx - sz else tx_retrans tx),
    tx_lostOut := (if it_lost it then tx_lostOut tx - sz else tx_lostOut tx)\<rparr>)"
  using assms by (simp add: RemoveFromCounts_def)

lemma le_of_nat_32: "a \<le> b \<Longrightarrow> b < 2 ^ 32 \<Longrightarrow> (of_nat a :: u32) \<le> of_nat b"
  by (simp add: word_le_nat_alt)

text \<open>The counters a discard of \<open>sz\<close> bytes of the head leaves.\<close>

definition tx_shift :: "tx_item \<Rightarrow> nat \<Rightarrow> tx_item list \<Rightarrow> tx_buffer \<Rightarrow> tx_buffer" where
  "tx_shift it n sent tx =
    tx\<lparr>tx_sentList := sent, tx_size := tx_size tx - of_nat n, tx_sentSize := tx_sentSize tx - of_nat n,
       tx_firstByteSeq := tx_firstByteSeq tx + of_nat n,
       tx_sackedOut := (if it_sacked it then tx_sackedOut tx - of_nat n else tx_sackedOut tx),
       tx_retrans := (if it_retrans it then tx_retrans tx - of_nat n else tx_retrans tx),
       tx_lostOut := (if it_lost it then tx_lostOut tx - of_nat n else tx_lostOut tx)\<rparr>"

lemma tx_shift_simps [simp]:
  "tx_sentList (tx_shift it n sent tx) = sent" "tx_appList (tx_shift it n sent tx) = tx_appList tx"
  "tx_firstByteSeq (tx_shift it n sent tx) = tx_firstByteSeq tx + of_nat n"
  "tx_highestSack (tx_shift it n sent tx) = tx_highestSack tx"
  "tx_sackEnabled (tx_shift it n sent tx) = tx_sackEnabled tx"
  by (simp_all add: tx_shift_def)

lemma tx_shift_eq:
  "tx\<lparr>tx_size := tx_size tx - of_nat n, tx_sentSize := tx_sentSize tx - of_nat n,
      tx_firstByteSeq := tx_firstByteSeq tx + of_nat n,
      tx_sackedOut := (if it_sacked it then tx_sackedOut tx - of_nat n else tx_sackedOut tx),
      tx_retrans := (if it_retrans it then tx_retrans tx - of_nat n else tx_retrans tx),
      tx_lostOut := (if it_lost it then tx_lostOut tx - of_nat n else tx_lostOut tx),
      tx_sentList := sent\<rparr> = tx_shift it n sent tx"
  by (cases tx) (simp add: tx_shift_def)

lemma tx_head_counts:
  assumes "tx_wf tx" "tx_sentList tx = it # its" "n \<le> ilen it"
  shows "it_sacked it \<longrightarrow> of_nat n \<le> tx_sackedOut tx" "it_retrans it \<longrightarrow> of_nat n \<le> tx_retrans tx"
    "it_lost it \<longrightarrow> of_nat n \<le> tx_lostOut tx"
proof -
  note w = tx_wfD [OF assms(1)]
  have b: "fbytes P (tx_sentList tx) < 2 ^ 32" for P
    using fbytes_le [of P "tx_sentList tx"] w(9) by simp
  have "P it \<Longrightarrow> n \<le> fbytes P (tx_sentList tx)" for P
    using assms(2,3) by simp
  then show "it_sacked it \<longrightarrow> of_nat n \<le> tx_sackedOut tx" "it_retrans it \<longrightarrow> of_nat n \<le> tx_retrans tx"
    "it_lost it \<longrightarrow> of_nat n \<le> tx_lostOut tx"
    unfolding w(4-6) using le_of_nat_32 [OF _ b] by blast+
qed

lemma tx_wf_drop_head:
  assumes "tx_wf tx" "tx_sentList tx = it # its"
  shows "tx_wf (tx_shift it (ilen it) its tx)"
proof -
  note w = tx_wfD [OF assms(1)]
  show ?thesis
    using w unfolding tx_wf_def ConsistencyCheck_iff tx_items_simps assms(2)
    by (simp add: tx_shift_def isize_ilen assms(2))
qed

lemma tx_wf_cut_head:
  assumes "tx_wf tx" "tx_sentList tx = it # its" "n < ilen it"
  defines "it' \<equiv> it\<lparr>it_packet := drop n (it_packet it), it_startSeq := it_startSeq it + of_nat n\<rparr>"
  shows "tx_wf (tx_shift it n (it' # its) tx)"
proof -
  note w = tx_wfD [OF assms(1)]
  have l: "ilen it' = ilen it - n" "it_packet it' \<noteq> []" "it_id it' = it_id it"
    "it_sacked it' = it_sacked it" "it_lost it' = it_lost it" "it_retrans it' = it_retrans it"
    "it_startSeq it' = it_startSeq it + of_nat n"
    using assms(3) by (auto simp: it'_def ilen_def)
  have sz: "isize it = of_nat n + isize it'"
    using l(1) assms(3) by (simp add: isize_ilen of_nat_diff)
  have "list_all item_ok (it' # its)"
    using w(1) l assms(2) by (auto simp: item_ok_def)
  moreover have "contig (tx_firstByteSeq tx + of_nat n) (it' # its)"
    using w(3) l assms(2) sz by (simp add: add.assoc)
  moreover have "tbytes (it' # its) + n = tbytes (it # its)"
    using l(1) assms(3) by simp
  moreover have "(of_nat (tbytes (it' # its)) :: u32) = of_nat (tbytes (it # its)) - of_nat n"
    using calculation(3) by (metis add_diff_cancel_right' of_nat_add)
  moreover have "of_nat (fbytes P (it' # its)) = (if P it then of_nat (fbytes P (it # its)) - of_nat n
      else of_nat (fbytes P (it # its)) :: u32)" if "P it' = P it" for P
    using that l(1) assms(3) by (simp add: of_nat_diff)
  ultimately show ?thesis
    using w l unfolding tx_wf_def ConsistencyCheck_iff tx_items_simps
    by (auto simp: tx_shift_def assms(2))
qed

lemma tx_size_0:
  "(of_nat a + of_nat b :: u32) = 0 \<longleftrightarrow> a + b = 0" if "a + b < 2 ^ 31"
proof -
  have "(of_nat (a + b) :: u32) = of_nat 0 \<longleftrightarrow> a + b = 0"
    using that by (intro of_nat_eq_32) auto
  then show ?thesis by simp
qed

text \<open>Sacked and lost bytes never exceed the bytes sent, without overflow of the sum.\<close>

lemma tx_wf_counts:
  assumes "tx_wf tx"
  shows "tx_sackedOut tx + tx_lostOut tx \<le> tx_sentSize tx"
proof -
  note w = tx_wfD [OF assms]
  have le: "fbytes it_sacked (tx_sentList tx) + fbytes it_lost (tx_sentList tx) \<le> tbytes (tx_sentList tx)"
    using w(1) by (rule fbytes_disjoint)
  then have "(of_nat (fbytes it_sacked (tx_sentList tx) + fbytes it_lost (tx_sentList tx)) :: u32)
      \<le> of_nat (tbytes (tx_sentList tx))"
    using w(9) by (intro le_of_nat_32) auto
  then show ?thesis
    using w(4,5,7) by simp
qed

text \<open>
  The loop, for data that has been sent; when everything has been sent, an offset
  beyond the data (the sequence number of a FIN) empties the buffer.
\<close>

lemma discard_loop_ok:
  assumes "tx_wf tx" "k < 2 ^ 31" "k \<le> tbytes (tx_sentList tx) \<or> tx_appList tx = []"
    and "length (tx_sentList tx) < fuel"
  defines "j \<equiv> min k (tbytes (tx_sentList tx))"
  shows "\<exists>tx' st'. discard_loop fuel now cb (of_nat k) tx st = Inr (tx', st') \<and> tx_wf tx'
    \<and> tx_firstByteSeq tx' = seqof (tx_firstByteSeq tx) j \<and> tx_appList tx' = tx_appList tx
    \<and> payload (tx_sentList tx') = drop j (payload (tx_sentList tx))
    \<and> marks (tx_sentList tx') = drop j (marks (tx_sentList tx))
    \<and> tx_highestSack tx' = tx_highestSack tx"
  using assms(1-4) unfolding j_def
proof (induction "tx_sentList tx" arbitrary: tx k fuel st)
  case (Nil tx k fuel st)
  obtain f where f: "fuel = Suc f" using Nil by (cases fuel) auto
  have "k = 0 \<or> tx_size tx = 0"
    using Nil.prems(3) tx_wfD(8) [OF Nil.prems(1)] Nil.hyps by auto
  then show ?case
    using f Nil by auto
next
  case (Cons it its tx k fuel st)
  note sent = Cons.hyps(2) [symmetric] and w = tx_wfD [OF Cons.prems(1)]
  obtain f where f: "fuel = Suc f" "length its < f" using Cons.prems(4) sent by (cases fuel) auto
  have it: "0 < ilen it" "ilen it < 2 ^ 31" "it_startSeq it = tx_firstByteSeq tx"
    using w(1,3,9) sent by (auto simp: item_ok_def ilen_def)
  have "0 < tbytes (tx_sentList tx) + tbytes (tx_appList tx)"
    using sent it(1) by simp
  then have size: "tx_size tx > 0"
    unfolding w(8) using w(9) by (simp add: word_less_nat_alt del: of_nat_add)
  show ?case
  proof (cases "k = 0")
    case True
    then show ?thesis using f Cons.prems(1) by auto
  next
    case False
    then have k0: "(of_nat k :: u32) > 0"
      using Cons.prems(2) by (simp add: word_less_nat_alt)
    have le: "of_nat k \<ge> isize it \<longleftrightarrow> ilen it \<le> k"
      using Cons.prems(2) it(2) by (simp add: isize_ilen word_le_nat_alt)
    show ?thesis
    proof (cases "ilen it \<le> k")
      case True
      let ?tx1 = "tx_shift it (ilen it) its tx"
      note c = tx_head_counts [OF Cons.prems(1) sent le_refl]
      have step: "discard_loop fuel now cb (of_nat k) tx st
          = discard_loop f now cb (of_nat (k - ilen it)) ?tx1 (snd (cb it st))"
        using f(1) size k0 sent it(3) le True c
        by (simp add: RemoveFromCounts_ok isize_ilen Let_def of_nat_diff case_prod_unfold
            tx_shift_eq [symmetric] cong: if_cong split del: if_split)
      have wf1: "tx_wf ?tx1"
        by (rule tx_wf_drop_head [OF Cons.prems(1) sent])
      have "\<exists>tx' st'. discard_loop f now cb (of_nat (k - ilen it)) ?tx1 (snd (cb it st)) = Inr (tx', st')
        \<and> tx_wf tx'
        \<and> tx_firstByteSeq tx' = seqof (tx_firstByteSeq ?tx1) (min (k - ilen it) (tbytes (tx_sentList ?tx1)))
        \<and> tx_appList tx' = tx_appList ?tx1
        \<and> payload (tx_sentList tx') = drop (min (k - ilen it) (tbytes (tx_sentList ?tx1))) (payload (tx_sentList ?tx1))
        \<and> marks (tx_sentList tx') = drop (min (k - ilen it) (tbytes (tx_sentList ?tx1))) (marks (tx_sentList ?tx1))
        \<and> tx_highestSack tx' = tx_highestSack ?tx1"
        using Cons.prems(2,3) f(2) sent by (intro Cons.hyps(1) [OF _ wf1]) auto
      moreover have "min k (tbytes (it # its)) = ilen it + min (k - ilen it) (tbytes its)"
        using True by auto
      ultimately show ?thesis
        unfolding step sent by (auto simp: ilen_def seqof_def)
    next
      case False
      let ?it = "it\<lparr>it_packet := drop k (it_packet it), it_startSeq := it_startSeq it + of_nat k\<rparr>"
      note c = tx_head_counts [OF Cons.prems(1) sent, of k]
      have "create_fragment (it_packet it) (of_nat k) (of_nat (ilen it - k)) = Inr (drop k (it_packet it))"
        using create_fragment_ok [of k "ilen it - k" "it_packet it"] False it(2) by (simp add: ilen_def)
      moreover have "isize it - of_nat k = of_nat (ilen it - k)"
        using False by (simp add: isize_ilen of_nat_diff)
      ultimately have step: "discard_loop fuel now cb (of_nat k) tx st = Inr (tx_shift it k (?it # its) tx, st)"
        using f(1) size k0 sent it(3) le False c
        by (simp add: RemoveFromCounts_ok Let_def tx_shift_def cong: if_cong split del: if_split)
      have "ilen ?it = ilen it - k" "min k (tbytes (it # its)) = k"
        using False by (auto simp: ilen_def)
      then show ?thesis
        unfolding step sent using tx_wf_cut_head [OF Cons.prems(1) sent, of k] False
        by (auto simp: seqof_def ilen_def)
    qed
  qed
qed

lemma DiscardUpTo_ok:
  assumes "tx_wf tx" "0 < k" "k < 2 ^ 31" "k \<le> tbytes (tx_sentList tx) \<or> tx_appList tx = []"
    and "k < tbytes (tx_sentList tx) \<longrightarrow> \<not> fst (marks (tx_sentList tx) ! k)"
  shows "\<exists>tx' st'. DiscardUpTo now cb (seqof (tx_firstByteSeq tx) k) tx st = Inr (tx', st') \<and> tx_wf tx'
    \<and> tx_firstByteSeq tx' = seqof (tx_firstByteSeq tx) k
    \<and> tx_stream tx' = drop k (tx_stream tx)
    \<and> marks (tx_sentList tx') = drop k (marks (tx_sentList tx))"
proof -
  let ?una = "tx_firstByteSeq tx" and ?e = "tbytes (tx_sentList tx)"
  let ?j = "min k ?e"
  have ge: "\<not> seq_ge ?una (seqof ?una k)"
    using assms(2,3) seq_ord_seqof(3) [of 0 k ?una] by simp
  have off: "seq_minus (seqof ?una k) ?una = of_nat k"
    using seq_minus_seqof [of 0 k ?una] by simp
  obtain tx1 st1 where l: "discard_loop (length (tx_sentList tx) + length (tx_appList tx) + 2) now cb
      (of_nat k) tx st = Inr (tx1, st1)" "tx_wf tx1" "tx_firstByteSeq tx1 = seqof ?una ?j"
    "tx_appList tx1 = tx_appList tx" "payload (tx_sentList tx1) = drop ?j (payload (tx_sentList tx))"
    "marks (tx_sentList tx1) = drop ?j (marks (tx_sentList tx))"
    using discard_loop_ok [OF assms(1,3,4), of "length (tx_sentList tx) + length (tx_appList tx) + 2" now cb st]
    by auto
  note w = tx_wfD [OF l(2)]
  define tx2 where "tx2 = (if tx_size tx1 = 0 then tx1\<lparr>tx_firstByteSeq := seqof ?una k\<rparr> else tx1)"
  have tb1: "tbytes (tx_sentList tx1) = ?e - ?j"
    using l(5) by (metis length_drop length_payload)
  have first2: "tx_firstByteSeq tx2 = seqof ?una k"
  proof (cases "k \<le> ?e")
    case True
    then show ?thesis using l(3) by (simp add: tx2_def)
  next
    case False
    then have "tx_size tx1 = 0" using w(8) tb1 l(4) assms(4) by simp
    then show ?thesis by (simp add: tx2_def)
  qed
  have wf2: "tx_wf tx2"
  proof (cases "tx_size tx1 = 0")
    case True
    then have "tbytes (tx_sentList tx1) = 0"
      using w(8,9) by (simp add: tx_size_0)
    then have "tx_sentList tx1 = []"
      using tbytes_0 item_ok_nonempty [OF w(1)] by blast
    with l(2) True show ?thesis
      by (simp add: tx2_def tx_wf_def ConsistencyCheck_iff)
  qed (simp add: tx2_def l(2))
  have same: "tx_sentList tx2 = tx_sentList tx1" "tx_appList tx2 = tx_appList tx1"
    by (simp_all add: tx2_def)
  have hd2: "\<not> it_sacked it \<and> it_startSeq it = seqof ?una k" if "tx_sentList tx2 = it # its" for it its
  proof -
    have "0 < ilen it" using that same item_ok_nonempty [OF w(1)] by (auto simp: ilen_def)
    then have "k < ?e" using that same tb1 by auto
    moreover have "marks (tx_sentList tx1) ! 0 = (it_sacked it, it_lost it)"
      using that same \<open>0 < ilen it\<close> by (simp add: nth_append)
    ultimately have "\<not> it_sacked it"
      using assms(5) l(6) by (simp add: min_def)
    moreover have "it_startSeq it = tx_firstByteSeq tx2"
      using tx_wfD(3) [OF wf2] that by simp
    ultimately show ?thesis using first2 by simp
  qed
  let ?tx3 = "if seq_le (snd (tx_highestSack tx2)) (tx_firstByteSeq tx2)
    then tx2\<lparr>tx_highestSack := (None, 0)\<rparr> else tx2"
  have wf3: "tx_wf ?tx3"
    using wf2 by (simp add: tx_wf_def ConsistencyCheck_iff)
  have "tx_sackedOut tx2 + tx_lostOut tx2 \<le> tx_sentSize tx2"
    by (rule tx_wf_counts [OF wf2])
  then have "discard_finish (seqof ?una k) tx1 = Inr ?tx3"
    using hd2 first2 by (cases "tx_sentList tx2") (auto simp: discard_finish_def tx2_def [symmetric] Let_def seq_ge_def)
  then have "DiscardUpTo now cb (seqof ?una k) tx st = Inr (?tx3, st1)"
    using ge off l(1) by (simp add: DiscardUpTo_def)
  moreover have "tx_stream ?tx3 = drop k (tx_stream tx)"
    using l(4,5) same assms(4) by (auto simp: tx_stream_def tx_items_def min_def)
  moreover have "marks (tx_sentList ?tx3) = drop k (marks (tx_sentList tx))"
    using l(6) same by (auto simp: min_def)
  ultimately show ?thesis
    using wf3 first2 by auto
qed

end
