(* ===== verification/TxScore.thy ===== *)
theory TxScore
  imports TxDiscard
begin

text \<open>
  The scoreboard of the send buffer: marking of lost and SACKed items.  The
  operations change flags and counters only, which \<open>same_items\<close> expresses.
\<close>

definition same_item :: "tx_item \<Rightarrow> tx_item \<Rightarrow> bool" where
  "same_item a b \<longleftrightarrow> it_packet b = it_packet a \<and> it_startSeq b = it_startSeq a \<and> it_id b = it_id a"

definition same_items :: "tx_item list \<Rightarrow> tx_item list \<Rightarrow> bool" where
  "same_items = list_all2 same_item"

text \<open>The item of \<open>m_highestSack\<close> is in the sent list.\<close>

definition hs_ok :: "tx_buffer \<Rightarrow> bool" where
  "hs_ok tx \<longleftrightarrow> (\<forall>i. fst (tx_highestSack tx) = Some i \<longrightarrow> i \<in> it_id ` set (tx_sentList tx))"

text \<open>
  The contract of the callbacks on delivered items: they may change the rate
  information of the item and their own state only.
\<close>

locale item_observer =
  fixes cb :: "'s item_callback"
  assumes keeps: "fst (cb it st) = it\<lparr>it_rateInfo := it_rateInfo (fst (cb it st))\<rparr>"

text \<open>No block covers the head, whose first byte the receiver is missing.\<close>

definition head_not_covered :: "sack_block list \<Rightarrow> tx_buffer \<Rightarrow> bool" where
  "head_not_covered blks tx \<longleftrightarrow> (\<forall>blk \<in> set blks.
    \<not> (seq_ge (tx_firstByteSeq tx) (fst blk)
       \<and> seq_le (tx_firstByteSeq tx + isize (hd (tx_sentList tx))) (snd blk)))"

text \<open>What the walk for one block does to the items, counters and \<open>m_highestSack\<close>.\<close>

definition sack_step ::
  "tx_item list \<Rightarrow> tx_buffer \<Rightarrow> u32 \<Rightarrow> tx_item list \<Rightarrow> tx_buffer \<Rightarrow> u32 \<Rightarrow> bool" where
  "sack_step l tx n l' tx' n' \<longleftrightarrow>
    same_items l l' \<and> list_all item_ok l' \<and> fbytes it_retrans l' = fbytes it_retrans l \<and>
    list_all2 (\<lambda>a b. it_sacked a \<longrightarrow> it_sacked b) l l' \<and>
    tx_sackedOut tx' = tx_sackedOut tx + of_nat (fbytes it_sacked l') - of_nat (fbytes it_sacked l) \<and>
    tx_lostOut tx' = tx_lostOut tx + of_nat (fbytes it_lost l') - of_nat (fbytes it_lost l) \<and>
    n' = n + of_nat (fbytes it_sacked l') - of_nat (fbytes it_sacked l) \<and>
    fbytes it_sacked l \<le> fbytes it_sacked l' \<and>
    (n' \<noteq> n \<longrightarrow> fst (tx_highestSack tx') \<noteq> None) \<and>
    (fst (tx_highestSack tx) \<noteq> None \<longrightarrow> fst (tx_highestSack tx') \<noteq> None) \<and>
    (tx_highestSack tx' = tx_highestSack tx \<or> fst (tx_highestSack tx') \<in> Some ` it_id ` set l) \<and>
    tx' = tx\<lparr>tx_sackedOut := tx_sackedOut tx', tx_lostOut := tx_lostOut tx',
             tx_highestSack := tx_highestSack tx'\<rparr>"

subsection \<open>Flag changes\<close>

lemma same_item_refl [simp]: "same_item a a"
  by (simp add: same_item_def)

lemma same_items_refl [simp]: "same_items l l"
  by (simp add: same_items_def list.rel_refl)

lemma same_items_Cons [simp]: "same_items (a # l) (b # l') \<longleftrightarrow> same_item a b \<and> same_items l l'"
  by (simp add: same_items_def)

lemma same_items_Nil [simp]: "same_items [] l \<longleftrightarrow> l = []" "same_items l [] \<longleftrightarrow> l = []"
  by (simp_all add: same_items_def)

lemma same_items_append:
  "same_items a b \<Longrightarrow> same_items a' b' \<Longrightarrow> same_items (a @ a') (b @ b')"
  unfolding same_items_def by (rule list_all2_appendI)

lemma same_items_rev: "same_items (rev a) (rev b) = same_items a b"
  by (simp add: same_items_def)

lemma same_items_trans: "same_items a b \<Longrightarrow> same_items b c \<Longrightarrow> same_items a c"
  unfolding same_items_def by (rule list_all2_trans) (auto simp: same_item_def)

lemma same_items_map: "(\<And>it. same_item it (f it)) \<Longrightarrow> same_items l (map f l)"
  by (induction l) auto

lemma same_items_keep:
  assumes "same_items l l'"
  shows "tbytes l' = tbytes l" "payload l' = payload l" "contig s l' = contig s l"
    "map it_id l' = map it_id l" "ids_ok i l' = ids_ok i l" "it_id ` set l' = it_id ` set l"
proof -
  have "tbytes l' = tbytes l \<and> payload l' = payload l \<and> (\<forall>s. contig s l' = contig s l)
    \<and> map it_id l' = map it_id l"
    using assms unfolding same_items_def
    by (induction rule: list_all2_induct) (auto simp: same_item_def ilen_def isize_def)
  then show "tbytes l' = tbytes l" "payload l' = payload l" "contig s l' = contig s l"
    and m: "map it_id l' = map it_id l" by blast+
  show im: "it_id ` set l' = it_id ` set l"
    using arg_cong [OF m, of set] by simp
  have "(\<forall>it \<in> set l'. it_id it < i) \<longleftrightarrow> (\<forall>it \<in> set l. it_id it < i)"
    by (metis (no_types) im imageE imageI)
  then show "ids_ok i l' = ids_ok i l"
    unfolding ids_ok_def m by simp
qed

lemma tx_wf_flags:
  assumes "tx_wf tx" "same_items (tx_sentList tx) sent'" "list_all item_ok sent'"
    and "tx_sackedOut tx' = of_nat (fbytes it_sacked sent')" "tx_lostOut tx' = of_nat (fbytes it_lost sent')"
    and "tx_retrans tx' = of_nat (fbytes it_retrans sent')"
    and "tx_sentList tx' = sent'" "tx_appList tx' = tx_appList tx" "tx_firstByteSeq tx' = tx_firstByteSeq tx"
    and "tx_size tx' = tx_size tx" "tx_sentSize tx' = tx_sentSize tx" "tx_nextId tx' = tx_nextId tx"
  shows "tx_wf tx' \<and> tx_stream tx' = tx_stream tx"
  using tx_wfD [OF assms(1)] same_items_keep [OF assms(2)] assms(3-)
  unfolding tx_wf_def ConsistencyCheck_iff tx_items_simps tx_stream_def tx_items_def by simp

lemma fbytes_all: "(\<And>it. it \<in> set l \<Longrightarrow> P it) \<Longrightarrow> fbytes P l = tbytes l"
  by (induction l) auto

lemma fbytes_none: "(\<And>it. it \<in> set l \<Longrightarrow> \<not> P it) \<Longrightarrow> fbytes P l = 0"
  by (induction l) auto

lemma map_eq_nth: "map f l = map f l' \<Longrightarrow> length l = length l' \<and> (\<forall>i < length l. f (l ! i) = f (l' ! i))"
  by (metis length_map nth_map)

lemma fbytes_rev: "fbytes P (rev l) = fbytes P l"
  by (induction l) auto

lemma fbytes_eqI: "list_all2 (\<lambda>a b. ilen a = ilen b \<and> P a = P b) l l' \<Longrightarrow> fbytes P l = fbytes P l'"
  by (induction rule: list_all2_induct) auto

subsection \<open>Resets\<close>

lemma ResetRenoSack_wf:
  assumes "tx_wf tx"
  shows "tx_wf (ResetRenoSack tx) \<and> tx_stream (ResetRenoSack tx) = tx_stream tx"
proof -
  let ?f = "\<lambda>it. it\<lparr>it_sacked := False\<rparr>"
  note w = tx_wfD [OF assms]
  have "same_items (tx_sentList tx) (map ?f (tx_sentList tx))"
    by (rule same_items_map) (simp add: same_item_def)
  moreover have "list_all item_ok (map ?f (tx_sentList tx))"
    using w(1) by (auto simp: list_all_iff item_ok_def)
  moreover have "fbytes it_lost (map ?f l) = fbytes it_lost l" "fbytes it_retrans (map ?f l) = fbytes it_retrans l"
    "fbytes it_sacked (map ?f l) = 0" for l
    by (induction l) auto
  ultimately show ?thesis
    using w(5,6) by (intro tx_wf_flags [OF assms]) (auto simp: ResetRenoSack_def)
qed

lemma ResetSentList_wf:
  assumes "tx_wf tx"
  shows "tx_wf (ResetSentList tx) \<and> tx_stream (ResetSentList tx) = tx_stream tx"
proof -
  let ?f = "\<lambda>it. it\<lparr>it_retrans := False, it_sacked := False, it_lost := False\<rparr>"
  note w = tx_wfD [OF assms]
  have "same_items (tx_sentList tx) (map ?f (tx_sentList tx))"
    by (rule same_items_map) (simp add: same_item_def)
  note k = same_items_keep [OF this]
  moreover have "list_all item_clean (map ?f (tx_sentList tx))"
    using w(1) by (auto simp: list_all_iff item_ok_def item_clean_def)
  ultimately show ?thesis
    using w by (auto simp: tx_wf_def ConsistencyCheck_iff ResetSentList_def tx_stream_def tx_items_def)
qed

lemma set_lost_walk_spec:
  assumes "list_all item_ok l" "set_lost_walk l n = (l', n')"
  shows "same_items l l' \<and> list_all item_ok l' \<and> fbytes it_sacked l' = fbytes it_sacked l
    \<and> fbytes it_retrans l' = 0 \<and> n' = n + of_nat (fbytes it_lost l')
    \<and> (\<forall>it \<in> set l'. it_lost it \<noteq> it_sacked it)"
  using assms
proof (induction l arbitrary: n l' n')
  case (Cons a l)
  let ?m = "if it_lost a \<or> \<not> it_sacked a then n + isize a else n"
  obtain l1 n1 where w: "set_lost_walk l ?m = (l1, n1)" by fastforce
  have "list_all item_ok l" using Cons.prems(1) by simp
  note IH = Cons.IH [OF this w]
  have "l' = a\<lparr>it_lost := it_lost a \<or> \<not> it_sacked a, it_retrans := False\<rparr> # l1" "n' = n1"
    using Cons.prems(2) w by (auto simp: Let_def split: if_splits)
  with IH Cons.prems(1) show ?case
    by (auto simp: item_ok_def same_item_def isize_ilen)
qed simp

lemma SetSentListLost_ok:
  assumes "tx_wf tx"
  shows "\<exists>tx'. SetSentListLost resetSack tx = Inr tx' \<and> tx_wf tx' \<and> tx_stream tx' = tx_stream tx
    \<and> tx_retrans tx' = 0 \<and> (\<forall>it \<in> set (tx_sentList tx'). it_lost it \<noteq> it_sacked it)
    \<and> (resetSack \<longrightarrow> tx_sackedOut tx' = 0)"
proof -
  note w = tx_wfD [OF assms]
  define tx1 where "tx1 = (if resetSack then
           tx\<lparr>tx_retrans := 0, tx_sackedOut := 0, tx_lostOut := tx_sentSize tx,
              tx_highestSack := (None, 0),
              tx_sentList := map (\<lambda>it. it\<lparr>it_sacked := False, it_lost := True, it_retrans := False\<rparr>)
                               (tx_sentList tx)\<rparr>
         else
           let (its, lostOut) = set_lost_walk (tx_sentList tx) 0 in
           tx\<lparr>tx_retrans := 0, tx_lostOut := lostOut, tx_sentList := its\<rparr>)"
  have "tx_wf tx1 \<and> tx_stream tx1 = tx_stream tx"
    and "tx_retrans tx1 = 0 \<and> (\<forall>it \<in> set (tx_sentList tx1). it_lost it \<noteq> it_sacked it)
      \<and> (resetSack \<longrightarrow> tx_sackedOut tx1 = 0)"
  proof -
    show "tx_wf tx1 \<and> tx_stream tx1 = tx_stream tx"
    proof (cases resetSack)
      case True
      let ?f = "\<lambda>it. it\<lparr>it_sacked := False, it_lost := True, it_retrans := False\<rparr>"
      have "same_items (tx_sentList tx) (map ?f (tx_sentList tx))"
        by (rule same_items_map) (simp add: same_item_def)
      moreover have "list_all item_ok (map ?f (tx_sentList tx))"
        using w(1) by (auto simp: list_all_iff item_ok_def)
      moreover have "fbytes it_lost (map ?f l) = tbytes l" "fbytes it_retrans (map ?f l) = 0"
        "fbytes it_sacked (map ?f l) = 0" for l
        by (induction l) auto
      ultimately show ?thesis
        using w(7) True by (intro tx_wf_flags [OF assms]) (auto simp: tx1_def)
    next
      case False
      obtain its n where s: "set_lost_walk (tx_sentList tx) 0 = (its, n)" by fastforce
      show ?thesis
        using set_lost_walk_spec [OF w(1) s] False s w(4)
        by (intro tx_wf_flags [OF assms]) (auto simp: tx1_def)
    qed
    show "tx_retrans tx1 = 0 \<and> (\<forall>it \<in> set (tx_sentList tx1). it_lost it \<noteq> it_sacked it)
      \<and> (resetSack \<longrightarrow> tx_sackedOut tx1 = 0)"
      using set_lost_walk_spec [OF w(1)] by (auto simp: tx1_def split: prod.splits)
  qed
  moreover from this have "SetSentListLost resetSack tx = Inr tx1"
    using tx_wf_counts [of tx1] by (simp add: SetSentListLost_def tx1_def [symmetric])
  ultimately show ?thesis by blast
qed

lemma MarkHeadAsLost_wf:
  assumes "tx_wf tx"
  shows "tx_wf (MarkHeadAsLost tx) \<and> tx_stream (MarkHeadAsLost tx) = tx_stream tx"
proof (cases "tx_sentList tx")
  case Nil
  with assms show ?thesis by (simp add: MarkHeadAsLost_def)
next
  case (Cons it its)
  note w = tx_wfD [OF assms]
  show ?thesis
    using w(1,4-6) Cons
    by (intro tx_wf_flags [OF assms, where sent' = "it\<lparr>it_sacked := False, it_retrans := False, it_lost := True\<rparr> # its"])
      (auto simp: MarkHeadAsLost_def same_item_def item_ok_def isize_ilen)
qed

lemma DeleteRetransmittedFlagFromHead_ok:
  assumes "tx_wf tx"
  shows "\<exists>tx'. DeleteRetransmittedFlagFromHead tx = Inr tx' \<and> tx_wf tx' \<and> tx_stream tx' = tx_stream tx"
proof (cases "tx_sentList tx")
  case Nil
  with tx_wfD(7) [OF assms] assms show ?thesis
    by (simp add: DeleteRetransmittedFlagFromHead_def)
next
  case (Cons it its)
  note w = tx_wfD [OF assms]
  let ?tx = "tx\<lparr>tx_sentList := it\<lparr>it_retrans := False\<rparr> # its, tx_retrans := tx_retrans tx - isize it\<rparr>"
  have "tx_wf ?tx \<and> tx_stream ?tx = tx_stream tx" if "it_retrans it"
    using w(1,4-6) Cons that
    by (intro tx_wf_flags [OF assms, where sent' = "it\<lparr>it_retrans := False\<rparr> # its"])
      (auto simp: same_item_def item_ok_def isize_ilen)
  with Cons assms show ?thesis
    by (auto simp: DeleteRetransmittedFlagFromHead_def)
qed

lemma reno_sack_first_spec:
  assumes "reno_sack_first l = Some (it, l')"
  shows "\<exists>a b. l = a @ it # b \<and> l' = a @ it\<lparr>it_sacked := True\<rparr> # b \<and> \<not> it_sacked it"
  using assms
proof (induction l arbitrary: l')
  case (Cons x l)
  show ?case
  proof (cases "it_sacked x")
    case True
    with Cons.prems obtain l1 where l1: "reno_sack_first l = Some (it, l1)" "l' = x # l1"
      by (auto split: option.splits)
    from Cons.IH [OF l1(1)] obtain a b where "l = a @ it # b" "l1 = a @ it\<lparr>it_sacked := True\<rparr> # b" "\<not> it_sacked it"
      by blast
    with l1(2) show ?thesis
      by (intro exI [of _ "x # a"] exI [of _ b]) simp
  next
    case False
    with Cons.prems have "x = it" "l' = it\<lparr>it_sacked := True\<rparr> # l" by auto
    with False show ?thesis
      by (metis append_Nil)
  qed
qed simp

text \<open>
  A Reno duplicate acknowledgment marks at most one further item as SACKed, never the
  head.  The item must not be lost; the code does not check this.
\<close>

lemma AddRenoSack_ok:
  assumes "tx_wf tx" "if tx_sackEnabled tx then length (tx_sentList tx) > 1 else tx_sentList tx \<noteq> []"
    and "\<forall>it \<in> set (tl (tx_sentList tx)). \<not> it_lost it"
  shows "\<exists>tx'. AddRenoSack tx = Inr tx' \<and> tx_wf tx' \<and> tx_stream tx' = tx_stream tx
    \<and> tx_lostOut tx' = tx_lostOut tx \<and> hd (tx_sentList tx') = hd (tx_sentList tx)"
proof -
  note w = tx_wfD [OF assms(1)]
  obtain h t where ht: "tx_sentList tx = h # t"
    using assms(2) by (cases "tx_sentList tx") (auto split: if_splits)
  show ?thesis
  proof (cases "reno_sack_first t")
    case None
    have "tx_wf (tx\<lparr>tx_renoSack := True\<rparr>)" "tx_stream (tx\<lparr>tx_renoSack := True\<rparr>) = tx_stream tx"
      using assms(1) by (simp_all add: tx_wf_def ConsistencyCheck_iff tx_stream_def tx_items_def)
    then show ?thesis
      using assms(2) None ht by (intro exI [of _ "tx\<lparr>tx_renoSack := True\<rparr>"]) (simp add: AddRenoSack_def)
  next
    case (Some r)
    then obtain it l' where r: "reno_sack_first t = Some (it, l')" by (cases r) auto
    from reno_sack_first_spec [OF r] obtain a b where
      ab: "t = a @ it # b" "l' = a @ it\<lparr>it_sacked := True\<rparr> # b" "\<not> it_sacked it" by blast
    have nl: "\<not> it_lost it" using assms(3) ht ab(1) by simp
    let ?tx = "tx\<lparr>tx_renoSack := True, tx_sentList := h # l', tx_sackedOut := tx_sackedOut tx + isize it,
                   tx_highestSack := (Some (it_id it), it_startSeq it)\<rparr>"
    have "tx_wf ?tx \<and> tx_stream ?tx = tx_stream tx"
      using w(1,4-6) ht ab nl
      by (intro tx_wf_flags [OF assms(1), where sent' = "h # l'"])
        (auto simp: same_item_def item_ok_def isize_ilen intro!: same_items_append)
    moreover have "AddRenoSack tx = Inr ?tx"
      using assms(2) r ht by (simp add: AddRenoSack_def)
    ultimately show ?thesis
      using ht by (intro exI [of _ ?tx]) simp
  qed
qed

subsection \<open>Loss marking\<close>

lemma lost_walk_spec:
  assumes "list_all item_ok l" "lost_walk thresh sk n l = (l', sk', n')"
  shows "same_items l l' \<and> list_all item_ok l' \<and> fbytes it_sacked l' = fbytes it_sacked l
    \<and> fbytes it_retrans l' = fbytes it_retrans l
    \<and> n' = n + of_nat (fbytes it_lost l') - of_nat (fbytes it_lost l)
    \<and> map it_sacked l' = map it_sacked l"
  using assms
proof (induction l arbitrary: sk n l' sk' n')
  case (Cons a l)
  let ?sk = "if it_sacked a then sk + 1 else sk"
  let ?mark = "?sk \<ge> thresh \<and> \<not> it_sacked a \<and> \<not> it_lost a"
  let ?n = "if ?mark then n + isize a else n"
  obtain l1 s1 n1 where w: "lost_walk thresh ?sk ?n l = (l1, s1, n1)" by (metis prod_cases3)
  have "list_all item_ok l" using Cons.prems(1) by simp
  note IH = Cons.IH [OF this w]
  have "l' = (if ?mark then a\<lparr>it_lost := True\<rparr> else a) # l1" "n' = n1"
    using Cons.prems(2) w by (auto simp: Let_def split: if_splits)
  with IH Cons.prems(1) show ?case
    by (auto simp: item_ok_def same_item_def isize_ilen)
qed simp

lemma split_at_item_spec:
  "i \<in> it_id ` set l \<Longrightarrow> \<exists>a b. split_at_item i pre l = Some (pre @ a, b) \<and> l = a @ b \<and> a \<noteq> []"
proof (induction l arbitrary: pre)
  case (Cons x l)
  show ?case
  proof (cases "it_id x = i")
    case True
    then show ?thesis by (intro exI [of _ "[x]"] exI [of _ l]) simp
  next
    case False
    then have "i \<in> it_id ` set l" using Cons.prems by auto
    from Cons.IH [OF this, of "pre @ [x]"] obtain a b where
      "split_at_item i (pre @ [x]) l = Some ((pre @ [x]) @ a, b)" "l = a @ b" by blast
    with False show ?thesis by (intro exI [of _ "x # a"] exI [of _ b]) simp
  qed
qed simp

lemma UpdateLostCount_ok:
  assumes "tx_wf tx" "hs_ok tx" "fst (tx_highestSack tx) \<noteq> None" "\<not> it_sacked (hd (tx_sentList tx))"
  shows "\<exists>tx'. UpdateLostCount tx = Inr tx' \<and> tx_wf tx' \<and> tx_stream tx' = tx_stream tx
    \<and> tx_sackedOut tx' = tx_sackedOut tx \<and> tx_highestSack tx' = tx_highestSack tx
    \<and> same_items (tx_sentList tx) (tx_sentList tx')
    \<and> map it_sacked (tx_sentList tx') = map it_sacked (tx_sentList tx)"
proof -
  note w = tx_wfD [OF assms(1)]
  obtain i where i: "fst (tx_highestSack tx) = Some i" "i \<in> it_id ` set (tx_sentList tx)"
    using assms(2,3) by (auto simp: hs_ok_def)
  from split_at_item_spec [OF i(2), of "[]"] obtain a b where
    sp: "split_at_item i [] (tx_sentList tx) = Some (a, b)" "tx_sentList tx = a @ b" "a \<noteq> []" by auto
  then obtain h t where a: "a = h # t" by (cases a) auto
  have sent: "tx_sentList tx = h # t @ b" using sp(2) a by simp
  obtain wk sk n where lw: "lost_walk (tx_dupAckThresh tx) 0 (tx_lostOut tx) (rev t) = (wk, sk, n)"
    by (metis prod_cases3)
  have "list_all item_ok (rev t)" using w(1) sent by simp
  note S = lost_walk_spec [OF this lw]
  let ?t = "rev wk"
  have T: "same_items t ?t" "list_all item_ok ?t" "fbytes it_sacked ?t = fbytes it_sacked t"
    "fbytes it_retrans ?t = fbytes it_retrans t" "n = tx_lostOut tx + of_nat (fbytes it_lost ?t) - of_nat (fbytes it_lost t)"
    "map it_sacked ?t = map it_sacked t"
    using S same_items_rev [of t ?t] by (auto simp: fbytes_rev rev_map [symmetric])
  have hs: "\<not> it_sacked h" using assms(4) sent by simp
  let ?mark = "sk \<ge> tx_dupAckThresh tx \<and> \<not> it_lost h"
  let ?h = "if ?mark then h\<lparr>it_lost := True\<rparr> else h"
  let ?tx' = "tx\<lparr>tx_sentList := ?h # ?t @ b, tx_lostOut := if ?mark then n + isize h else n\<rparr>"
  have "UpdateLostCount tx = Inr ?tx'"
    using i(1) sp(1) a lw by (auto simp: UpdateLostCount_def Let_def)
  moreover have "tx_wf ?tx' \<and> tx_stream ?tx' = tx_stream tx"
    using w(1,4-6) sent T hs
    by (intro tx_wf_flags [OF assms(1), where sent' = "?h # ?t @ b"])
      (auto simp: same_item_def item_ok_def isize_ilen intro!: same_items_append)
  moreover have "same_items (tx_sentList tx) (tx_sentList ?tx')"
    using sent T(1) by (auto simp: same_item_def intro!: same_items_append)
  moreover have "map it_sacked (tx_sentList ?tx') = map it_sacked (tx_sentList tx)"
    using sent T(6) by simp
  ultimately show ?thesis
    by (intro exI [of _ ?tx']) simp
qed

subsection \<open>SACK blocks\<close>

lemma sack_step_refl: "list_all item_ok l \<Longrightarrow> sack_step l tx n l tx n"
  by (simp add: sack_step_def list.rel_refl)

lemma sack_step_keep:
  "sack_step l tx n l' tx' n' \<Longrightarrow> item_ok a \<Longrightarrow> sack_step (a # l) tx n (a # l') tx' n'"
  unfolding sack_step_def by auto

lemma sack_step_wf:
  assumes "tx_wf tx" "hs_ok tx" "sack_step (tx_sentList tx) tx n l' tx1 n'"
  shows "tx_wf (tx1\<lparr>tx_sentList := l'\<rparr>)" "hs_ok (tx1\<lparr>tx_sentList := l'\<rparr>)"
    "tx_stream (tx1\<lparr>tx_sentList := l'\<rparr>) = tx_stream tx"
proof -
  note w = tx_wfD [OF assms(1)] and S = assms(3) [unfolded sack_step_def]
  have tx1: "tx1 = tx\<lparr>tx_sackedOut := tx_sackedOut tx1, tx_lostOut := tx_lostOut tx1,
      tx_highestSack := tx_highestSack tx1\<rparr>" using S by blast
  have f: "tx_appList tx1 = tx_appList tx" "tx_firstByteSeq tx1 = tx_firstByteSeq tx"
    "tx_size tx1 = tx_size tx" "tx_sentSize tx1 = tx_sentSize tx" "tx_nextId tx1 = tx_nextId tx"
    "tx_retrans tx1 = tx_retrans tx"
    by (subst tx1, simp)+
  have "tx_wf (tx1\<lparr>tx_sentList := l'\<rparr>) \<and> tx_stream (tx1\<lparr>tx_sentList := l'\<rparr>) = tx_stream tx"
    using S w(4-6) f by (intro tx_wf_flags [OF assms(1), where sent' = l']) simp_all
  then show "tx_wf (tx1\<lparr>tx_sentList := l'\<rparr>)" "tx_stream (tx1\<lparr>tx_sentList := l'\<rparr>) = tx_stream tx" by blast+
  have "it_id ` set l' = it_id ` set (tx_sentList tx)"
    using S same_items_keep(6) by blast
  with S assms(2) show "hs_ok (tx1\<lparr>tx_sentList := l'\<rparr>)"
    by (auto simp: hs_ok_def)
qed

context item_observer
begin

lemma cb_fields:
  "same_item it (fst (cb it st))" "it_sacked (fst (cb it st)) = it_sacked it"
  "it_lost (fst (cb it st)) = it_lost it" "it_retrans (fst (cb it st)) = it_retrans it"
  "ilen (fst (cb it st)) = ilen it" "it_packet (fst (cb it st)) = it_packet it"
  by (subst keeps, simp add: same_item_def ilen_def)+

lemma update_block_ok:
  assumes "list_all item_ok l"
  shows "\<exists>l' tx' n' st'. update_block cb blk bgn l tx n st = Inr (l', tx', n', st') \<and> sack_step l tx n l' tx' n'
    \<and> (l \<noteq> [] \<longrightarrow> it_sacked (hd l') \<longrightarrow> it_sacked (hd l)
        \<or> (seq_ge bgn (fst blk) \<and> seq_le (bgn + isize (hd l)) (snd blk)))"
  using assms
proof (induction l arbitrary: bgn tx n st)
  case Nil
  then show ?case by (simp add: sack_step_refl)
next
  case (Cons a l)
  have ok: "list_all item_ok l" "item_ok a" using Cons.prems by simp_all
  let ?in = "seq_ge bgn (fst blk) \<and> seq_le (bgn + isize a) (snd blk)"
  consider (keep) "?in" "it_sacked a" | (sack) "?in" "\<not> it_sacked a"
    | (stop) "\<not> ?in" "seq_gt (bgn + isize a) (snd blk)" | (skip) "\<not> ?in" "\<not> seq_gt (bgn + isize a) (snd blk)"
    by blast
  then show ?case
  proof cases
    case keep
    from Cons.IH [OF ok(1), of "bgn + isize a" tx n st] obtain l' tx' n' st' where
      u: "update_block cb blk (bgn + isize a) l tx n st = Inr (l', tx', n', st')" "sack_step l tx n l' tx' n'"
      by blast
    have "\<not> it_lost a" using ok(2) keep by (simp add: item_ok_def)
    with u keep sack_step_keep [OF u(2) ok(2)] show ?thesis
      by (intro exI [of _ "a # l'"] exI [of _ tx'] exI [of _ n'] exI [of _ st']) simp
  next
    case skip
    from Cons.IH [OF ok(1), of "bgn + isize a" tx n st] obtain l' tx' n' st' where
      u: "update_block cb blk (bgn + isize a) l tx n st = Inr (l', tx', n', st')" "sack_step l tx n l' tx' n'"
      by blast
    with skip sack_step_keep [OF u(2) ok(2)] show ?thesis
      by (intro exI [of _ "a # l'"] exI [of _ tx'] exI [of _ n'] exI [of _ st']) auto
  next
    case stop
    with Cons.prems sack_step_refl [of "a # l"] show ?thesis
      by (intro exI [of _ "a # l"] exI [of _ tx] exI [of _ n] exI [of _ st]) auto
  next
    case sack
    define tx1 where "tx1 = (if it_lost a then tx\<lparr>tx_lostOut := tx_lostOut tx - isize a\<rparr> else tx)"
    define tx2 where "tx2 = tx1\<lparr>tx_sackedOut := tx_sackedOut tx1 + isize a\<rparr>"
    define tx3 where "tx3 = (if fst (tx_highestSack tx2) = None \<or> seq_le (snd (tx_highestSack tx2)) (bgn + isize a)
                   then tx2\<lparr>tx_highestSack := (Some (it_id a), bgn)\<rparr> else tx2)"
    define b where "b = fst (cb (a\<lparr>it_lost := False, it_sacked := True\<rparr>) st)"
    define st1 where "st1 = snd (cb (a\<lparr>it_lost := False, it_sacked := True\<rparr>) st)"
    from Cons.IH [OF ok(1), of "bgn + isize a" tx3 "n + isize a" st1] obtain l' tx' n' st' where
      u: "update_block cb blk (bgn + isize a) l tx3 (n + isize a) st1 = Inr (l', tx', n', st')"
        "sack_step l tx3 (n + isize a) l' tx' n'"
      by blast
    have b: "same_item a b" "it_sacked b" "\<not> it_lost b" "it_retrans b = it_retrans a" "ilen b = ilen a"
      "it_packet b \<noteq> []"
      using cb_fields [of "a\<lparr>it_lost := False, it_sacked := True\<rparr>" st] ok(2)
      by (auto simp: b_def same_item_def item_ok_def)
    have cb: "cb (a\<lparr>it_lost := False, it_sacked := True\<rparr>) st = (b, st1)"
      by (simp add: b_def st1_def)
    have "update_block cb blk bgn (a # l) tx n st = Inr (b # l', tx', n', st')"
      unfolding update_block.simps Let_def tx1_def [symmetric] tx2_def [symmetric] tx3_def [symmetric] cb
        prod.case u(1) bindE_simps
      using sack by simp
    moreover have "sack_step (a # l) tx n (b # l') tx' n'"
      using u(2) b sack by (auto simp: sack_step_def tx3_def tx2_def tx1_def isize_ilen item_ok_def)
    ultimately show ?thesis
      using sack(1) by (intro exI [of _ "b # l'"] exI [of _ tx'] exI [of _ n'] exI [of _ st']) simp
  qed
qed

lemma update_blocks_ok:
  assumes "tx_wf tx" "hs_ok tx" "tx_sentList tx \<noteq> []" "\<not> it_sacked (hd (tx_sentList tx))"
    and "head_not_covered blks tx"
  shows "\<exists>early tx' n' st'. update_blocks cb blks tx n st = Inr (early, tx', n', st')
    \<and> tx_wf tx' \<and> hs_ok tx' \<and> same_items (tx_sentList tx) (tx_sentList tx')
    \<and> tx_stream tx' = tx_stream tx \<and> \<not> it_sacked (hd (tx_sentList tx'))
    \<and> n' = n + tx_sackedOut tx' - tx_sackedOut tx
    \<and> list_all2 (\<lambda>a b. it_sacked a \<longrightarrow> it_sacked b) (tx_sentList tx) (tx_sentList tx')
    \<and> (fst (tx_highestSack tx) \<noteq> None \<or> n' \<noteq> n \<longrightarrow> fst (tx_highestSack tx') \<noteq> None)"
  using assms
proof (induction blks arbitrary: tx n st)
  case Nil
  then show ?case
    by (intro exI [of _ False]) (simp add: list.rel_refl)
next
  case (Cons blk blks)
  show ?case
  proof (cases "seq_lt (tx_firstByteSeq tx + tx_sentSize tx) (fst blk)")
    case True
    with Cons.prems show ?thesis
      by (intro exI [of _ True]) (simp add: list.rel_refl)
  next
    case False
    from update_block_ok [OF tx_wfD(1) [OF Cons.prems(1)], of blk "tx_firstByteSeq tx" tx n st]
    obtain l' tx1 n1 st1 where
      u: "update_block cb blk (tx_firstByteSeq tx) (tx_sentList tx) tx n st = Inr (l', tx1, n1, st1)"
        "sack_step (tx_sentList tx) tx n l' tx1 n1" and
      hd1: "it_sacked (hd l') \<longrightarrow> it_sacked (hd (tx_sentList tx))
        \<or> (seq_ge (tx_firstByteSeq tx) (fst blk)
            \<and> seq_le (tx_firstByteSeq tx + isize (hd (tx_sentList tx))) (snd blk))"
      using Cons.prems(3) by blast
    let ?tx = "tx1\<lparr>tx_sentList := l'\<rparr>"
    note wf1 = sack_step_wf [OF Cons.prems(1,2) u(2)] and S = u(2) [unfolded sack_step_def]
    have same: "same_items (tx_sentList tx) l'" using S by blast
    then have l': "l' \<noteq> []" "isize (hd l') = isize (hd (tx_sentList tx))"
      using Cons.prems(3) by (cases l'; cases "tx_sentList tx"; simp add: same_item_def isize_def)+
    have "tx1 = tx\<lparr>tx_sackedOut := tx_sackedOut tx1, tx_lostOut := tx_lostOut tx1,
      tx_highestSack := tx_highestSack tx1\<rparr>" using S by blast
    then have "tx_firstByteSeq tx1 = tx_firstByteSeq tx"
      by (metis tx_buffer.select_convs(6) tx_buffer.surjective tx_buffer.update_convs(7,8,9))
    then have hd2: "\<not> it_sacked (hd l')" "head_not_covered blks ?tx"
      using hd1 Cons.prems(4,5) l'(2) by (auto simp: head_not_covered_def)
    have "\<exists>early tx' n' st'. update_blocks cb blks ?tx n1 st1 = Inr (early, tx', n', st')
      \<and> tx_wf tx' \<and> hs_ok tx' \<and> same_items l' (tx_sentList tx')
      \<and> tx_stream tx' = tx_stream ?tx \<and> \<not> it_sacked (hd (tx_sentList tx'))
      \<and> n' = n1 + tx_sackedOut tx' - tx_sackedOut tx1
      \<and> list_all2 (\<lambda>a b. it_sacked a \<longrightarrow> it_sacked b) l' (tx_sentList tx')
      \<and> (fst (tx_highestSack tx1) \<noteq> None \<or> n' \<noteq> n1 \<longrightarrow> fst (tx_highestSack tx') \<noteq> None)"
      using Cons.IH [of ?tx n1 st1] wf1 hd2 l'(1) by simp
    then obtain early tx' n' st' where
      R: "update_blocks cb blks ?tx n1 st1 = Inr (early, tx', n', st')" "tx_wf tx'" "hs_ok tx'"
      "same_items l' (tx_sentList tx')" "tx_stream tx' = tx_stream ?tx"
      "\<not> it_sacked (hd (tx_sentList tx'))" "n' = n1 + tx_sackedOut tx' - tx_sackedOut tx1"
      "list_all2 (\<lambda>a b. it_sacked a \<longrightarrow> it_sacked b) l' (tx_sentList tx')"
      "fst (tx_highestSack tx1) \<noteq> None \<or> n' \<noteq> n1 \<longrightarrow> fst (tx_highestSack tx') \<noteq> None"
      by blast
    have "list_all2 (\<lambda>a b. it_sacked a \<longrightarrow> it_sacked b) (tx_sentList tx) l'" using S by blast
    then have mono: "list_all2 (\<lambda>a b. it_sacked a \<longrightarrow> it_sacked b) (tx_sentList tx) (tx_sentList tx')"
      using R(8) by (rule list_all2_trans [rotated]) blast
    have "n' = n + tx_sackedOut tx' - tx_sackedOut tx"
      using R(7) S by simp
    moreover have "fst (tx_highestSack tx) \<noteq> None \<or> n' \<noteq> n \<longrightarrow> fst (tx_highestSack tx') \<noteq> None"
      using R(9) S by metis
    ultimately show ?thesis
      using R(1-6) False u(1) mono same_items_trans [OF same R(4)] wf1(3)
      by (intro exI [of _ early] exI [of _ tx'] exI [of _ n'] exI [of _ st']) simp
  qed
qed

lemma Update_ok:
  assumes "tx_wf tx" "hs_ok tx" "tx_sentList tx \<noteq> []" "\<not> it_sacked (hd (tx_sentList tx))"
    and "head_not_covered blks tx"
  shows "\<exists>n tx' st'. Update cb blks tx st = Inr (n, tx', st') \<and> tx_wf tx' \<and> hs_ok tx'
    \<and> tx_stream tx' = tx_stream tx \<and> tx_sackedOut tx' = tx_sackedOut tx + n
    \<and> list_all2 (\<lambda>a b. it_sacked a \<longrightarrow> it_sacked b) (tx_sentList tx) (tx_sentList tx')
    \<and> \<not> it_sacked (hd (tx_sentList tx'))"
proof -
  obtain early tx1 n st' where U: "update_blocks cb blks tx 0 st = Inr (early, tx1, n, st')"
    "tx_wf tx1" "hs_ok tx1" "same_items (tx_sentList tx) (tx_sentList tx1)"
    "tx_stream tx1 = tx_stream tx" "\<not> it_sacked (hd (tx_sentList tx1))"
    "n = 0 + tx_sackedOut tx1 - tx_sackedOut tx"
    "list_all2 (\<lambda>a b. it_sacked a \<longrightarrow> it_sacked b) (tx_sentList tx) (tx_sentList tx1)"
    "n \<noteq> 0 \<longrightarrow> fst (tx_highestSack tx1) \<noteq> None"
    using update_blocks_ok [OF assms, of 0 st] by metis
  have ne: "tx_sentList tx1 \<noteq> []" using U(4) assms(3) by auto
  show ?thesis
  proof (cases "early \<or> n = 0")
    case True
    with U ne tx_wf_counts [OF U(2)] show ?thesis
      by (cases "tx_sentList tx1") (auto simp: Update_def)
  next
    case False
    then have hs: "fst (tx_highestSack tx1) \<noteq> None" using U(9) by simp
    obtain tx2 where L: "UpdateLostCount tx1 = Inr tx2" "tx_wf tx2" "tx_stream tx2 = tx_stream tx1"
      "tx_sackedOut tx2 = tx_sackedOut tx1" "tx_highestSack tx2 = tx_highestSack tx1"
      "same_items (tx_sentList tx1) (tx_sentList tx2)"
      "map it_sacked (tx_sentList tx2) = map it_sacked (tx_sentList tx1)"
      using UpdateLostCount_ok [OF U(2,3) hs U(6)] by blast
    obtain h t where h: "tx_sentList tx2 = h # t"
      using L(6) ne by (cases "tx_sentList tx2") auto
    have "it_sacked h = it_sacked (hd (tx_sentList tx1))"
      using L(7) h ne by (cases "tx_sentList tx1") auto
    with U(6) have hs2: "\<not> it_sacked h" by simp
    have "hs_ok tx2"
      using U(3) L(5) same_items_keep(6) [OF L(6)] by (simp add: hs_ok_def)
    moreover have "Update cb blks tx st = Inr (n, tx2, st')"
      using U(1) False hs L(1) h hs2 tx_wf_counts [OF L(2)] by (simp add: Update_def word_gt_0)
    moreover have "list_all2 (\<lambda>a b. it_sacked a \<longrightarrow> it_sacked b) (tx_sentList tx) (tx_sentList tx2)"
      using U(8) L(7) by (auto simp: list_all2_conv_all_nth dest!: map_eq_nth)
    ultimately show ?thesis
      using L U(5,7) h hs2 by (intro exI [of _ n] exI [of _ tx2] exI [of _ st']) simp
  qed
qed

end

end
