(* ===== verification/TxProps.thy ===== *)
theory TxProps
  imports TxScore
begin

text \<open>
  Properties of the send buffer as a whole: the byte stream it holds, the choice of
  the next segment, the bytes in flight, and three inputs on which the code fails.
\<close>

text \<open>A buffer with segments of four bytes, used by the witnesses.\<close>

definition demo_buffer :: "seq \<Rightarrow> nat \<Rightarrow> tx_buffer" where
  "demo_buffer s n =
    snd (TxAdd (map of_nat [0 ..< n]) (SetDupAckThresh 3 (SetSegmentSize 4 (TcpTxBuffer s))))"

text \<open>\<open>n\<close> segments of four bytes taken from the front of the unsent data.\<close>

fun demo_send :: "nat \<Rightarrow> tx_buffer \<Rightarrow> tx_buffer result" where
  "demo_send 0 tx = Inr tx"
| "demo_send (Suc n) tx =
    bindE (CopyFromSequence 0 4 (tx_firstByteSeq tx + tx_sentSize tx) tx) (\<lambda>(_, tx). demo_send n tx)"

definition demo_sent :: "seq \<Rightarrow> nat \<Rightarrow> nat \<Rightarrow> tx_buffer" where
  "demo_sent s n k = (case demo_send k (demo_buffer s n) of Inr tx \<Rightarrow> tx | Inl _ \<Rightarrow> demo_buffer s n)"

definition no_callback :: "unit item_callback" where
  "no_callback it st = (it, st)"

definition demo_update :: "sack_block list \<Rightarrow> tx_buffer result \<Rightarrow> tx_buffer result" where
  "demo_update blks r = bindE r (\<lambda>tx. bindE (Update no_callback blks tx ()) (\<lambda>(_, tx, _). Inr tx))"

subsection \<open>The next segment\<close>

lemma next_seg_walk_Inl:
  assumes "next_seg_walk isRec bgn l r3 = Inl s"
  shows "\<exists>pre it post. l = pre @ it # post \<and> s = bgn + of_nat (tbytes pre)
    \<and> it_lost it \<and> \<not> it_sacked it \<and> \<not> it_retrans it
    \<and> (\<forall>x \<in> set pre. \<not> (it_lost x \<and> \<not> it_sacked x \<and> \<not> it_retrans x))"
  using assms
proof (induction l arbitrary: bgn r3)
  case (Cons a l)
  show ?case
  proof (cases "it_lost a \<and> \<not> it_sacked a \<and> \<not> it_retrans a")
    case True
    with Cons.prems show ?thesis
      by (intro exI [of _ "[]"] exI [of _ a] exI [of _ l]) simp
  next
    case False
    then obtain r where "next_seg_walk isRec (bgn + isize a) l r = Inl s"
      using Cons.prems by (auto split: if_splits)
    from Cons.IH [OF this] obtain pre it post where "l = pre @ it # post"
      "s = bgn + isize a + of_nat (tbytes pre)" "it_lost it \<and> \<not> it_sacked it \<and> \<not> it_retrans it"
      "\<forall>x \<in> set pre. \<not> (it_lost x \<and> \<not> it_sacked x \<and> \<not> it_retrans x)" by blast
    with False show ?thesis
      by (intro exI [of _ "a # pre"] exI [of _ it] exI [of _ post]) (simp add: isize_ilen)
  qed
qed simp

lemma next_seg_walk_Inr:
  assumes "next_seg_walk isRec bgn l r3 = Inr (s, True)"
  shows "r3 = (s, True) \<or> (\<exists>pre it post. l = pre @ it # post \<and> s = bgn + of_nat (tbytes pre)
    \<and> \<not> it_lost it \<and> \<not> it_sacked it \<and> \<not> it_retrans it)"
  using assms
proof (induction l arbitrary: bgn r3)
  case (Cons a l)
  let ?free = "\<not> it_retrans a \<and> \<not> it_sacked a"
  let ?r = "if ?free \<and> fst r3 = 0 \<and> isRec then (bgn, True) else r3"
  have "next_seg_walk isRec (bgn + isize a) l ?r = Inr (s, True)" "?free \<longrightarrow> \<not> it_lost a"
    using Cons.prems by (auto split: if_splits)
  from Cons.IH [OF this(1)] consider "?r = (s, True)"
    | pre it post where "l = pre @ it # post" "s = bgn + isize a + of_nat (tbytes pre)"
      "\<not> it_lost it \<and> \<not> it_sacked it \<and> \<not> it_retrans it" by blast
  then show ?case
  proof cases
    case 1
    then have "r3 = (s, True) \<or> (?free \<and> s = bgn)"
      by (auto split: if_splits)
    with \<open>?free \<longrightarrow> \<not> it_lost a\<close> show ?thesis
      by (auto intro!: exI [of _ "[]"])
  next
    case 2
    then show ?thesis
      by (intro disjI2 exI [of _ "a # pre"] exI [of _ it] exI [of _ post]) (simp add: isize_ilen)
  qed
qed simp

text \<open>What \<open>NextSeg\<close> returns: the start of an unSACKed item, or the first unsent byte.\<close>

lemma NextSeg_cases:
  assumes "tx_wf tx" "NextSeg rWnd isRec tx = Some (s, h)"
  shows "(\<exists>pre it post. tx_sentList tx = pre @ it # post \<and> s = seqof (tx_firstByteSeq tx) (tbytes pre)
      \<and> \<not> it_sacked it \<and> \<not> it_retrans it)
    \<or> (s = tx_firstByteSeq tx + tx_sentSize tx \<and> tx_appList tx \<noteq> [])"
proof (cases "next_seg_walk isRec (tx_firstByteSeq tx) (tx_sentList tx) (0, False)")
  case (Inl s')
  with assms(2) have "s = s'" by (simp add: NextSeg_def)
  with next_seg_walk_Inl [OF Inl] show ?thesis
    by (auto simp: seqof_def)
next
  case (Inr r)
  let ?e = "tx_firstByteSeq tx + tx_sentSize tx"
  note w = tx_wfD [OF assms(1)]
  show ?thesis
  proof (cases "SizeFromSequence ?e tx > 0")
    case True
    have "?e = seqof (tx_firstByteSeq tx) (tbytes (tx_sentList tx))"
      using w(7) by (simp add: seqof_def)
    then have "SizeFromSequence ?e tx = of_nat (tbytes (tx_appList tx))"
      using SizeFromSequence_seqof [OF assms(1), of "tbytes (tx_sentList tx)"] by simp
    with True have "tx_appList tx \<noteq> []" by auto
    moreover have "s = ?e"
      using assms(2) Inr True by (auto simp: NextSeg_def Let_def split: prod.splits if_splits)
    ultimately show ?thesis by blast
  next
    case False
    then have "r = (s, True)"
      using assms(2) Inr by (auto simp: NextSeg_def Let_def split: prod.splits if_splits)
    with next_seg_walk_Inr [of isRec "tx_firstByteSeq tx" "tx_sentList tx" "(0, False)" s] Inr
    show ?thesis by (auto simp: seqof_def)
  qed
qed

lemma demo_buffer_wf:
  assumes "n \<le> 32768"
  shows "tx_wf (demo_buffer s n)"
proof -
  let ?tx = "SetDupAckThresh 3 (SetSegmentSize 4 (TcpTxBuffer s))"
  have "tx_wf ?tx"
    by (simp add: tx_wf_def ConsistencyCheck_iff SetDupAckThresh_def SetSegmentSize_def TcpTxBuffer_def
        tx_items_def)
  moreover have "unat (tx_size ?tx) \<le> unat (tx_maxBuffer ?tx)" "unat (tx_maxBuffer ?tx) < 2 ^ 31"
    by (simp_all add: SetDupAckThresh_def SetSegmentSize_def TcpTxBuffer_def)
  ultimately show ?thesis
    using TxAdd_wf [of ?tx "map of_nat [0 ..< n]"] assms by (simp add: demo_buffer_def)
qed

lemma demo_send_wf:
  assumes "tx_wf tx" "4 * k \<le> tbytes (tx_appList tx)"
  shows "\<exists>tx'. demo_send k tx = Inr tx' \<and> tx_wf tx'"
  using assms
proof (induction k arbitrary: tx)
  case (Suc k)
  then have "tx_appList tx \<noteq> []" by auto
  from copy_new_data [OF Suc.prems(1) _ _ this, of 4 0] Suc.prems(2) obtain item tx' where
    c: "CopyFromSequence 0 4 (tx_firstByteSeq tx + tx_sentSize tx) tx = Inr (Some item, tx')"
    and i: "it_packet item = take 4 (payload (tx_appList tx))"
    and s: "payload (tx_sentList tx') = payload (tx_sentList tx) @ it_packet item"
    and w: "tx_wf tx'" and r: "tx_stream tx' = tx_stream tx"
    by auto
  have "length (it_packet item) = 4"
    using Suc.prems(2) by (simp add: i)
  then have "tbytes (tx_appList tx) = 4 + tbytes (tx_appList tx')"
    using arg_cong [OF r, of length] arg_cong [OF s, of length]
    by (simp add: tx_stream_def tx_items_def)
  with Suc.IH [OF w] Suc.prems(2) c show ?case by simp
qed simp

lemma demo_sent_wf:
  assumes "n \<le> 32768" "4 * k \<le> n"
  shows "tx_wf (demo_sent s n k)"
proof -
  have "tbytes (tx_appList (demo_buffer s n)) = n"
    using assms(1)
    by (simp add: demo_buffer_def TxAdd_def TxAvailable_def SetDupAckThresh_def SetSegmentSize_def TcpTxBuffer_def
        ilen_def pkt_size_def word_le_nat_alt word_less_nat_alt unat_of_nat new_item_def)
  with demo_send_wf [OF demo_buffer_wf [OF assms(1)], of k s] assms(2) show ?thesis
    by (auto simp: demo_sent_def)
qed

subsection \<open>Properties\<close>

text \<open>
  C26: a segment chosen by \<open>NextSeg\<close> can always be taken out of the buffer:
  \<open>CopyFromSequence\<close> returns an item that begins there, with no failed assertion, and the
  stream and the counters of the buffer stay intact.  The second hypothesis excludes the
  sequence numbers that wrap inside the data of the buffer, where the code fails.
\<close>

theorem tx_next_segment_is_sendable:
  assumes "tx_wf tx" "NextSeg rWnd isRec tx = Some (s, h)" "0 < n" "n < 2 ^ 32"
    and "unat s + tbytes (tx_items tx) < 2 ^ 32"
  shows "\<exists>item tx'. CopyFromSequence now (of_nat n) s tx = Inr (Some item, tx') \<and> it_startSeq item = s
    \<and> it_packet item \<noteq> [] \<and> tx_wf tx' \<and> tx_stream tx' = tx_stream tx"
proof (rule disjE [OF NextSeg_cases [OF assms(1,2)]])
  assume "\<exists>pre it post. tx_sentList tx = pre @ it # post \<and> s = seqof (tx_firstByteSeq tx) (tbytes pre)
      \<and> \<not> it_sacked it \<and> \<not> it_retrans it"
  then obtain pre it post where p: "tx_sentList tx = pre @ it # post"
    "s = seqof (tx_firstByteSeq tx) (tbytes pre)" "\<not> it_sacked it" by blast
  have "it_packet it \<noteq> []"
    using tx_wfD(1) [OF assms(1)] p(1) by (simp add: item_ok_def)
  then have "tx_stream tx \<noteq> []" "tbytes pre < length (tx_stream tx)"
    by (auto simp: tx_stream_def tx_items_def p(1) ilen_def)
  with copy_retransmission [OF assms(1) p(1,3) assms(3,4), of now] p(2) assms(5) show ?thesis
    by fastforce
next
  assume a: "s = tx_firstByteSeq tx + tx_sentSize tx \<and> tx_appList tx \<noteq> []"
  then have "0 < tbytes (tx_appList tx)"
    using tbytes_0 [OF item_clean_nonempty [OF tx_wfD(2) [OF assms(1)]]] by simp
  moreover from this have "payload (tx_appList tx) \<noteq> []"
    by (metis length_payload list.size(3) less_irrefl)
  ultimately show ?thesis
    using a copy_new_data [OF assms(1,3,4), of now] assms(3) by fastforce
qed

theorem tx_next_segment_is_sendable_witness:
  "\<exists>item tx'. CopyFromSequence 7 4 100 (demo_buffer 100 20) = Inr (Some item, tx') \<and> it_startSeq item = 100
    \<and> it_packet item \<noteq> [] \<and> tx_wf tx' \<and> tx_stream tx' = tx_stream (demo_buffer 100 20)"
proof -
  have "NextSeg 50 False (demo_buffer 100 20) = Some (100, 104)"
    by code_simp
  moreover have "tbytes (tx_items (demo_buffer 100 20)) = 20"
    by code_simp
  ultimately show ?thesis
    using tx_next_segment_is_sendable [OF demo_buffer_wf [of 20 100], of 50 False 100 104 4 7] by simp
qed

text \<open>
  C12: new data leaves the buffer in order: \<open>CopyFromSequence\<close> at the first unsent byte
  returns the first \<open>min n unsent\<close> bytes of the unsent data, whatever packets the
  application wrote, and appends exactly these to the data sent.
\<close>

theorem tx_new_data_in_order:
  assumes "tx_wf tx" "0 < n" "n < 2 ^ 32" "tx_appList tx \<noteq> []"
  shows "\<exists>item tx'. CopyFromSequence now (of_nat n) (tx_firstByteSeq tx + tx_sentSize tx) tx = Inr (Some item, tx')
    \<and> it_packet item = take (min n (tbytes (tx_appList tx))) (payload (tx_appList tx))
    \<and> it_startSeq item = tx_firstByteSeq tx + tx_sentSize tx
    \<and> payload (tx_sentList tx') = payload (tx_sentList tx) @ it_packet item
    \<and> tx_wf tx' \<and> tx_stream tx' = tx_stream tx"
  using copy_new_data [OF assms, of now] by blast

theorem tx_new_data_in_order_witness:
  "\<exists>item tx'. CopyFromSequence 0 3 8 (demo_buffer 8 5) = Inr (Some item, tx') \<and> it_packet item = [0, 1, 2]"
proof -
  have d: "tx_firstByteSeq (demo_buffer 8 5) + tx_sentSize (demo_buffer 8 5) = 8"
    "tx_appList (demo_buffer 8 5) \<noteq> []" "payload (tx_appList (demo_buffer 8 5)) = [0, 1, 2, 3, 4]"
    "tbytes (tx_appList (demo_buffer 8 5)) = 5"
    by code_simp+
  then show ?thesis
    using tx_new_data_in_order [OF demo_buffer_wf [of 5 8], of 3 0] by (auto simp: numeral_3_eq_3)
qed

text \<open>
  C27: a retransmission from the start of an unSACKed item returns exactly the bytes of the
  stream at that position, at most two items with equal loss mark, and changes
  neither the stream nor the SACK and loss marks of any byte.
\<close>

theorem tx_retransmission_exact:
  assumes "tx_wf tx" "tx_sentList tx = pre @ cur # post" "\<not> it_sacked cur" "0 < n" "n < 2 ^ 32"
    and "tbytes pre + n \<le> tbytes (tx_sentList tx)
      \<or> unat (seqof (tx_firstByteSeq tx) (tbytes pre)) + tbytes (tx_items tx) < 2 ^ 32"
    and "m = min (min n (tbytes (tx_sentList tx) - tbytes pre)) (rtx_limit cur post)"
  shows "\<exists>item tx'. CopyFromSequence now (of_nat n) (seqof (tx_firstByteSeq tx) (tbytes pre)) tx
      = Inr (Some item, tx')
    \<and> it_packet item = take m (drop (tbytes pre) (tx_stream tx)) \<and> 0 < m
    \<and> tx_wf tx' \<and> tx_stream tx' = tx_stream tx \<and> marks (tx_sentList tx') = marks (tx_sentList tx)"
  using copy_retransmission [OF assms(1-6), of now] unfolding assms(7) by blast

theorem tx_retransmission_exact_witness:
  "\<exists>item tx'. CopyFromSequence 9 4 100 (demo_sent 100 20 3) = Inr (Some item, tx') \<and> it_packet item = [0, 1, 2, 3]"
proof -
  let ?tx = "demo_sent 100 20 3"
  have wf: "tx_wf ?tx" by (rule demo_sent_wf) simp_all
  have f: "tx_sentList ?tx \<noteq> []" "\<not> it_sacked (hd (tx_sentList ?tx))" "tx_firstByteSeq ?tx = 100"
    "tbytes (tx_sentList ?tx) = 12" "rtx_limit (hd (tx_sentList ?tx)) (tl (tx_sentList ?tx)) = 8"
    "take 4 (tx_stream ?tx) = [0, 1, 2, 3]"
    by code_simp+
  then have "tx_sentList ?tx = [] @ hd (tx_sentList ?tx) # tl (tx_sentList ?tx)" by simp
  from tx_retransmission_exact [OF wf this f(2), of 4 4 9] f show ?thesis
    by (auto simp: min_def)
qed



text \<open>
  The application can write a packet iff it fits into the free space, and an accepted
  packet is appended to the stream unchanged.
\<close>

theorem tx_add_appends:
  assumes "tx_wf tx" "unat (tx_size tx) \<le> unat (tx_maxBuffer tx)" "unat (tx_maxBuffer tx) < 2 ^ 31"
    and "length p < 2 ^ 32"
  shows "tx_wf (snd (TxAdd p tx))
    \<and> (fst (TxAdd p tx) \<longleftrightarrow> tbytes (tx_items tx) + length p \<le> unat (tx_maxBuffer tx))
    \<and> tx_stream (snd (TxAdd p tx)) = tx_stream tx @ (if fst (TxAdd p tx) then p else [])"
  using TxAdd_wf [OF assms] .

theorem tx_add_appends_witness:
  "fst (TxAdd [1, 2] (demo_buffer 100 20)) \<and> tx_stream (snd (TxAdd [1, 2] (demo_buffer 100 20)))
    = tx_stream (demo_buffer 100 20) @ [1, 2]"
proof -
  have f: "unat (tx_size (demo_buffer 100 20)) = 20" "unat (tx_maxBuffer (demo_buffer 100 20)) = 32768"
    "tbytes (tx_items (demo_buffer 100 20)) = 20"
    by code_simp+
  show ?thesis
    using tx_add_appends [OF demo_buffer_wf [of 20 100], of "[1, 2]"] f by simp
qed

text \<open>
  C23: \<open>BytesInFlight\<close> never fails its assertion and is the number of bytes sent that are
  neither SACKed nor marked lost, plus the bytes retransmitted.
\<close>

theorem tx_bytes_in_flight_exact:
  assumes "tx_wf tx"
  shows "TxBytesInFlight tx = Inr (of_nat
    (fbytes (\<lambda>it. \<not> it_sacked it \<and> \<not> it_lost it) (tx_sentList tx) + fbytes it_retrans (tx_sentList tx)))"
proof -
  note w = tx_wfD [OF assms]
  have "fbytes (\<lambda>it. \<not> it_sacked it \<and> \<not> it_lost it) l + fbytes it_sacked l + fbytes it_lost l = tbytes l"
    if "list_all item_ok l" for l
    using that by (induction l) (auto simp: item_ok_def)
  from arg_cong [OF this [OF w(1)], of "of_nat :: nat \<Rightarrow> u32"]
  have "(of_nat (tbytes (tx_sentList tx)) :: u32) - (of_nat (fbytes it_sacked (tx_sentList tx))
      + of_nat (fbytes it_lost (tx_sentList tx)))
    = of_nat (fbytes (\<lambda>it. \<not> it_sacked it \<and> \<not> it_lost it) (tx_sentList tx))"
    by (simp add: algebra_simps)
  then show ?thesis
    using tx_wf_counts [OF assms] w(4-7) by (simp add: TxBytesInFlight_def)
qed

theorem tx_bytes_in_flight_exact_witness:
  "TxBytesInFlight (demo_sent 100 20 3) = Inr 12"
proof -
  have "tx_wf (demo_sent 100 20 3)" by (rule demo_sent_wf) simp_all
  moreover have "fbytes (\<lambda>it. \<not> it_sacked it \<and> \<not> it_lost it) (tx_sentList (demo_sent 100 20 3)) = 12"
    "fbytes it_retrans (tx_sentList (demo_sent 100 20 3)) = 0"
    by code_simp+
  ultimately show ?thesis
    using tx_bytes_in_flight_exact [of "demo_sent 100 20 3"] by simp
qed

text \<open>
  After a retransmission timeout (\<open>SetSentListLost\<close>) every byte sent is lost unless it is
  SACKed, nothing counts as retransmitted, and no assertion fails; with a reset of the
  SACK state every byte is lost.
\<close>

theorem tx_timeout_marks_all_lost:
  assumes "tx_wf tx"
  shows "\<exists>tx'. SetSentListLost resetSack tx = Inr tx' \<and> tx_wf tx' \<and> tx_stream tx' = tx_stream tx
    \<and> tx_retrans tx' = 0 \<and> (\<forall>it \<in> set (tx_sentList tx'). it_lost it \<noteq> it_sacked it)
    \<and> (resetSack \<longrightarrow> tx_sackedOut tx' = 0)"
  using SetSentListLost_ok [OF assms] .

theorem tx_timeout_marks_all_lost_witness:
  "\<exists>tx'. SetSentListLost True (demo_sent 100 20 3) = Inr tx' \<and> tx_wf tx' \<and> tx_sackedOut tx' = 0"
proof -
  have "tx_wf (demo_sent 100 20 3)" by (rule demo_sent_wf) simp_all
  from tx_timeout_marks_all_lost [OF this, of True] show ?thesis by auto
qed

subsection \<open>Inputs on which the code fails\<close>

text \<open>
  At a wrap of the sequence number the partial case of \<open>CopyFromSequence\<close> is missed,
  because its comparisons are on the raw 32-bit values: with eight bytes sent from
  sequence number 4294967292 and more data behind them, a request for twelve bytes at the
  head reaches the dereference of the null item.  The same buffer with the head at sequence
  number 100 serves the request.
\<close>

theorem tx_copy_fails_at_wrap:
  "CopyFromSequence 0 12 4294967292 (demo_sent 4294967292 20 2) = Inl (Undefined 273)
    \<and> is_ok (CopyFromSequence 0 12 100 (demo_sent 100 20 2))"
  by code_simp

text \<open>
  A SACK option that arrives when nothing is outstanding makes \<open>Update\<close> dereference the
  end iterator of the empty sent list, unless a block lies beyond the data sent.
\<close>

theorem tx_update_fails_on_empty_list:
  assumes "tx_sentList tx = []"
    and "\<forall>blk \<in> set blks. \<not> seq_lt (tx_firstByteSeq tx + tx_sentSize tx) (fst blk)"
  shows "Update cb blks tx st = Inl (Undefined 867)"
proof -
  have e: "tx\<lparr>tx_sentList := []\<rparr> = tx"
    using assms(1) by (cases tx) simp
  have "update_blocks cb blks tx n st = Inr (False, tx, n, st)" for n
    using assms(2)
  proof (induction blks)
    case (Cons blk blks)
    then show ?case using assms(1) by (simp add: e Let_def)
  qed simp
  then show ?thesis
    using assms(1) by (simp add: Update_def)
qed

theorem tx_update_fails_on_empty_list_witness:
  "Update no_callback [(92, 96)] (demo_buffer 100 20) () = Inl (Undefined 867)"
proof -
  have "tx_sentList (demo_buffer 100 20) = []"
    "\<not> seq_lt (tx_firstByteSeq (demo_buffer 100 20) + tx_sentSize (demo_buffer 100 20)) 92"
    by code_simp+
  then show ?thesis
    by (intro tx_update_fails_on_empty_list) auto
qed

text \<open>
  \<open>Update\<close> can move \<open>m_highestSack\<close> backwards, because it compares the start of the old
  highest item with the end of the new one.  When the three segments above the head are
  SACKed in the order third, first, second, the highest item becomes the second one and
  the head is not marked lost; the same SACK information in one option marks it lost.
\<close>

theorem tx_update_highest_sack_regresses:
  "bindE (demo_update [(104, 116)] (demo_update [(112, 116), (104, 108)]
      (demo_update [(112, 116)] (Inr (demo_sent 100 16 4)))))
     (\<lambda>tx. Inr (map it_sacked (tx_sentList tx), snd (tx_highestSack tx), snd (FindHighestSacked tx), tx_lostOut tx))
    = Inr ([False, True, True, True], 108, 112, 0)
   \<and> bindE (demo_update [(104, 116)] (Inr (demo_sent 100 16 4)))
     (\<lambda>tx. Inr (map it_sacked (tx_sentList tx), snd (tx_highestSack tx), snd (FindHighestSacked tx), tx_lostOut tx))
    = Inr ([False, True, True, True], 112, 112, 4)"
  by code_simp

end
