(* ===== verification/RateOps.thy ===== *)
theory RateOps
  imports TxScore
begin

text \<open>
  The delivery rate sampler \<open>TcpRateLinux\<close> of src/internet/model/tcp-rate-ops.cc.
  Times are integer ticks (nanoseconds) and \<open>Simulator::Now\<close> is an argument.  The
  \<open>int32_t\<close> members are integers into which the code's conversions are written out.
  The \<open>double\<close> quotient of line 131 is the exact quotient; a value outside the range of
  \<open>uint64_t\<close>, for which the conversion has no meaning in C++, is \<open>Undefined\<close>.
\<close>

record TcpRateConnection =
  rc_delivered :: u64
  rc_deliveredTime :: time
  rc_firstSentTime :: time
  rc_appLimited :: u32
  rc_txItemDelivered :: u32
  rc_rateDelivered :: int
  rc_rateInterval :: time
  rc_rateAppLimited :: bool

record TcpRateSample =
  rs_deliveryRate :: u64
  rs_isAppLimited :: bool
  rs_interval :: time
  rs_delivered :: int
  rs_priorDelivered :: u32
  rs_priorTime :: time
  rs_sendElapsed :: time
  rs_ackElapsed :: time
  rs_bytesLoss :: u32
  rs_priorInFlight :: u32
  rs_ackedSacked :: u32

record TcpRateLinux =
  m_rate :: TcpRateConnection
  m_rateSample :: TcpRateSample

definition IsValid :: "TcpRateSample \<Rightarrow> bool" where
  "IsValid s \<longleftrightarrow> rs_priorTime s \<noteq> 0 \<or> rs_interval s \<noteq> 0"

definition new_TcpRateLinux :: TcpRateLinux where
  "new_TcpRateLinux =
    \<lparr> m_rate = \<lparr> rc_delivered = 0, rc_deliveredTime = 0, rc_firstSentTime = 0, rc_appLimited = 0,
        rc_txItemDelivered = 0, rc_rateDelivered = 0, rc_rateInterval = 0, rc_rateAppLimited = False \<rparr>,
      m_rateSample = \<lparr> rs_deliveryRate = 0, rs_isAppLimited = False, rs_interval = 0, rs_delivered = 0,
        rs_priorDelivered = 0, rs_priorTime = 0, rs_sendElapsed = 0, rs_ackElapsed = 0,
        rs_bytesLoss = 0, rs_priorInFlight = 0, rs_ackedSacked = 0 \<rparr> \<rparr>"

text \<open>
  \<open>DataRate (delivered * 8.0 / interval.GetSeconds ())\<close>: the quotient in bit per second,
  truncated towards zero.
\<close>

definition delivery_rate :: "int \<Rightarrow> time \<Rightarrow> u64 result" where
  "delivery_rate delivered interval =
    (let num = delivered * 8 * 1000000000 in
     if interval = 0 then Inl (Undefined 131)
     else if (num \<ge> 0) = (interval > 0) then
       if \<bar>num\<bar> div \<bar>interval\<bar> < 2 ^ 64 then Inr (of_int (\<bar>num\<bar> div \<bar>interval\<bar>)) else Inl (Undefined 131)
     else if \<bar>num\<bar> < \<bar>interval\<bar> then Inr 0
     else Inl (Undefined 131))"

definition GenerateSample ::
  "u32 \<Rightarrow> u32 \<Rightarrow> bool \<Rightarrow> u32 \<Rightarrow> time \<Rightarrow> TcpRateLinux \<Rightarrow> TcpRateLinux result" where
  "GenerateSample delivered lost is_sack_reneg priorInFlight minRtt r =
    (let rate = m_rate r;
         rate = (if rc_appLimited rate \<noteq> 0 \<and> rc_delivered rate > ucast (rc_appLimited rate)
                 then rate\<lparr>rc_appLimited := 0\<rparr> else rate);
         s = (m_rateSample r)\<lparr>rs_ackedSacked := delivered, rs_bytesLoss := lost,
                               rs_priorInFlight := priorInFlight\<rparr>
     in
     if rs_priorTime s = 0 \<or> is_sack_reneg then
       Inr \<lparr> m_rate = rate, m_rateSample = s\<lparr>rs_delivered := -1, rs_interval := 0\<rparr> \<rparr>
     else
       let s = s\<lparr>rs_interval := max (rs_sendElapsed s) (rs_ackElapsed s),
                 rs_delivered := sint (ucast (rc_delivered rate - ucast (rs_priorDelivered s)) :: u32)\<rparr> in
       if rs_interval s < minRtt then
         Inr \<lparr> m_rate = rate, m_rateSample = s\<lparr>rs_interval := 0, rs_priorTime := 0\<rparr> \<rparr>
       else if \<not> rs_isAppLimited s
            \<or> rs_delivered s * rc_rateInterval rate \<ge> rc_rateDelivered rate * rs_interval s then
         bindE (delivery_rate (rs_delivered s) (rs_interval s)) (\<lambda>bps.
           Inr \<lparr> m_rate = rate\<lparr>rc_rateDelivered := rs_delivered s, rc_rateInterval := rs_interval s,
                                 rc_rateAppLimited := rs_isAppLimited s\<rparr>,
                  m_rateSample = s\<lparr>rs_deliveryRate := bps\<rparr> \<rparr>)
       else Inr \<lparr> m_rate = rate, m_rateSample = s \<rparr>)"

definition CalculateAppLimited ::
  "u32 \<Rightarrow> u32 \<Rightarrow> u32 \<Rightarrow> seq \<Rightarrow> seq \<Rightarrow> u32 \<Rightarrow> u32 \<Rightarrow> TcpRateLinux \<Rightarrow> TcpRateLinux" where
  "CalculateAppLimited cWnd in_flight segmentSize tailSeq nextTx lostOut retransOut r =
    (if sint (seq_minus tailSeq nextTx) < sint segmentSize \<and> in_flight < cWnd \<and> lostOut \<le> retransOut then
       r\<lparr>m_rate := (m_rate r)\<lparr>rc_appLimited :=
            max (ucast (rc_delivered (m_rate r) + ucast in_flight)) 1\<rparr>\<rparr>
     else r)"

definition SkbDelivered :: "time \<Rightarrow> TcpRateLinux item_callback" where
  "SkbDelivered now skb r =
    (let info = it_rateInfo skb in
     if ri_deliveredTime info = Time_Max then (skb, r)
     else
       let rate = (m_rate r)\<lparr>rc_delivered := rc_delivered (m_rate r) + ucast (GetSeqSize skb),
                             rc_deliveredTime := now\<rparr>;
           s = m_rateSample r;
           newer = (rs_priorDelivered s = 0 \<or> ri_delivered info > ucast (rs_priorDelivered s));
           s' = (if newer then
                   s\<lparr>rs_ackElapsed := now - rs_priorTime s,
                     rs_priorDelivered := ucast (ri_delivered info),
                     rs_priorTime := ri_deliveredTime info,
                     rs_isAppLimited := ri_isAppLimited info,
                     rs_sendElapsed := it_lastSent skb - ri_firstSent info\<rparr>
                 else s);
           rate = (if newer then rate\<lparr>rc_firstSentTime := it_lastSent skb\<rparr> else rate)
       in (skb\<lparr>it_rateInfo := info\<lparr>ri_deliveredTime := Time_Max\<rparr>\<rparr>,
           \<lparr> m_rate = rate\<lparr>rc_txItemDelivered := ucast (ri_delivered info)\<rparr>, m_rateSample = s' \<rparr>))"

definition SkbSent :: "time \<Rightarrow> bool \<Rightarrow> TcpRateLinux item_callback" where
  "SkbSent now isStartOfTransmission skb r =
    (let rate = (if isStartOfTransmission
                 then (m_rate r)\<lparr>rc_firstSentTime := now, rc_deliveredTime := now\<rparr> else m_rate r)
     in (skb\<lparr>it_rateInfo := \<lparr> ri_delivered = rc_delivered rate, ri_deliveredTime = rc_deliveredTime rate,
                              ri_firstSent = rc_firstSentTime rate,
                              ri_isAppLimited = (rc_appLimited rate \<noteq> 0) \<rparr>\<rparr>,
         r\<lparr>m_rate := rate\<rparr>))"

text \<open>The item carries the rate information of a transmission not yet counted as delivered.\<close>

definition armed :: "tx_item \<Rightarrow> bool" where
  "armed it \<longleftrightarrow> ri_deliveredTime (it_rateInfo it) \<noteq> Time_Max"

definition unsacked_armed :: "(tx_item \<Rightarrow> bool) \<Rightarrow> tx_item list \<Rightarrow> bool" where
  "unsacked_armed P l \<longleftrightarrow> (\<forall>it \<in> set l. \<not> it_sacked it \<longrightarrow> P it)"

text \<open>A buffer with two items in flight, used by the witness.\<close>

definition demo_item :: "nat \<Rightarrow> seq \<Rightarrow> packet \<Rightarrow> tx_item" where
  "demo_item i s p = (new_item i p)\<lparr>it_startSeq := s, it_lastSent := 2,
     it_rateInfo := \<lparr> ri_delivered = 0, ri_deliveredTime = 1, ri_firstSent = 1, ri_isAppLimited = False \<rparr>\<rparr>"


definition demo_rate :: TcpRateLinux where
  "demo_rate = snd (SkbDelivered 3000 (demo_item 0 100 [1, 2]) new_TcpRateLinux)"

lemma ucast_of_nat_u32: "n < 2 ^ 32 \<Longrightarrow> ucast (of_nat n :: u32) = (of_nat n :: u64)"
  by (simp add: unsigned_of_nat take_bit_nat_eq_self)

lemma list_case_Inr:
  "(case l of [] \<Rightarrow> Inl e | x # xs \<Rightarrow> f x xs) = Inr y \<longleftrightarrow> (\<exists>x xs. l = x # xs \<and> f x xs = Inr y)"
  by (cases l) simp_all

lemma fbytes_mono:
  assumes "same_items l l'" "list_all2 (\<lambda>a b. P a \<longrightarrow> P b) l l'"
  shows "fbytes P l \<le> fbytes P l'"
  using assms unfolding same_items_def
  by (induction l l' rule: list_all2_induct) (auto simp: same_item_def ilen_def)

lemma GetSeqSize_armed:
  assumes "it_packet it \<noteq> []" "ilen it < 2 ^ 32"
  shows "ucast (GetSeqSize (it\<lparr>it_lost := l, it_sacked := s\<rparr>)) = (of_nat (ilen it) :: u64)"
proof -
  have "isize it \<noteq> 0"
    using assms by (simp add: isize_ilen word_of_nat_eq_0_iff ilen_def nat_dvd_not_less)
  then have "GetSeqSize (it\<lparr>it_lost := l, it_sacked := s\<rparr>) = of_nat (ilen it)"
    by (simp add: GetSeqSize_def isize_def pkt_size_def ilen_def word_neq_0_conv)
  then show ?thesis using ucast_of_nat_u32 [OF assms(2)] by simp
qed

subsection \<open>Counting observers\<close>

text \<open>
  An observer that counts the bytes of each item it is shown, as long as the
  item satisfies \<open>P\<close>; \<open>P\<close> does not look at the flags of the scoreboard.
\<close>

locale counting_observer = item_observer cb for cb :: "'s item_callback" +
  fixes cnt :: "'s \<Rightarrow> u64" and P :: "tx_item \<Rightarrow> bool"
  assumes counts: "P it \<Longrightarrow> cnt (snd (cb it st)) = cnt st + ucast (GetSeqSize it)"
    and flags: "P (it\<lparr>it_lost := l, it_sacked := s\<rparr>) = P it"
begin

lemma update_block_counts:
  assumes "update_block cb blk bgn l tx n st = Inr (l', tx', n', st')" "list_all item_ok l" "unsacked_armed P l"
    and "tbytes l < 2 ^ 32"
  shows "cnt st' = cnt st + of_nat (fbytes it_sacked l') - of_nat (fbytes it_sacked l) \<and> unsacked_armed P l'"
  using assms
proof (induction l arbitrary: bgn tx n st l')
  case (Cons a l)
  have ok: "list_all item_ok l" "unsacked_armed P l" "tbytes l < 2 ^ 32" "ilen a < 2 ^ 32" "item_ok a"
    using Cons.prems(2-4) by (simp_all add: unsacked_armed_def)
  then have ne: "it_packet a \<noteq> []" by (simp add: item_ok_def)
  let ?in = "seq_ge bgn (fst blk) \<and> seq_le (bgn + isize a) (snd blk)"
  show ?case
  proof (cases "?in \<and> \<not> it_sacked a")
    case True
    let ?a = "a\<lparr>it_lost := False, it_sacked := True\<rparr>"
    obtain b st1 where b: "cb ?a st = (b, st1)" by fastforce
    from Cons.prems(1) True obtain tx1 l1 where
      r: "update_block cb blk (bgn + isize a) l tx1 (n + isize a) st1 = Inr (l1, tx', n', st')" "l' = b # l1"
      by (auto simp: Let_def b bindE_Inr cong: if_cong split del: if_split)
    have s: "it_sacked b" "ilen b = ilen a"
      using cb_fields [of ?a st] b by (simp_all add: ilen_def)
    have "P ?a" using flags [of True False a] Cons.prems(3) True by (simp add: unsacked_armed_def)
    from counts [OF this, of st] ne ok(4) have "cnt st1 = cnt st + of_nat (ilen a)"
      by (simp add: b GetSeqSize_armed)
    with Cons.IH [OF r(1) ok(1-3)] r(2) s True show ?thesis
      by (simp add: unsacked_armed_def)
  next
    case False
    show ?thesis
    proof (cases "\<not> ?in \<and> seq_gt (bgn + isize a) (snd blk)")
      case True
      with Cons.prems show ?thesis by (auto simp: Let_def)
    next
      case cont: False
      with False Cons.prems(1) obtain l1 where
        r: "update_block cb blk (bgn + isize a) l tx n st = Inr (l1, tx', n', st')" "l' = a # l1"
        by (auto simp: Let_def bindE_Inr ns_assert_Inr split: if_splits)
      with Cons.IH [OF r(1) ok(1-3)] Cons.prems(3) show ?thesis
        by (auto simp: unsacked_armed_def)
    qed
  qed
qed simp

lemma update_blocks_counts:
  assumes "update_blocks cb blks tx n st = Inr (early, tx', n', st')" "tx_wf tx" "hs_ok tx"
    and "unsacked_armed P (tx_sentList tx)"
  shows "cnt st' = cnt st + of_nat (fbytes it_sacked (tx_sentList tx')) - of_nat (fbytes it_sacked (tx_sentList tx))"
  using assms
proof (induction blks arbitrary: tx n st)
  case (Cons blk blks)
  show ?case
  proof (cases "seq_lt (tx_firstByteSeq tx + tx_sentSize tx) (fst blk)")
    case True
    with Cons.prems show ?thesis by simp
  next
    case False
    from update_block_ok [OF tx_wfD(1) [OF Cons.prems(2)], of blk "tx_firstByteSeq tx" tx n st]
    obtain l1 tx1 n1 st1 where
      u: "update_block cb blk (tx_firstByteSeq tx) (tx_sentList tx) tx n st = Inr (l1, tx1, n1, st1)"
        "sack_step (tx_sentList tx) tx n l1 tx1 n1" by blast
    note c = update_block_counts [OF u(1) tx_wfD(1) [OF Cons.prems(2)] Cons.prems(4)]
    have "tbytes (tx_sentList tx) < 2 ^ 32"
        using tx_wfD(9) [OF Cons.prems(2)] by simp
    note c = c [OF this]
    let ?tx = "tx1\<lparr>tx_sentList := l1\<rparr>"
    have "update_blocks cb blks ?tx n1 st1 = Inr (early, tx', n', st')"
      using Cons.prems(1) False u(1) by simp
    from Cons.IH [OF this sack_step_wf(1,2) [OF Cons.prems(2,3) u(2)]] c show ?thesis
      by simp
  qed
qed simp

text \<open>The bytes that \<open>Update\<close> reports as newly SACKed are those the observer has counted.\<close>

lemma Update_counts:
  assumes "tx_wf tx" "hs_ok tx" "tx_sentList tx \<noteq> []" "\<not> it_sacked (hd (tx_sentList tx))"
    and "head_not_covered blks tx" "unsacked_armed P (tx_sentList tx)"
    and "Update cb blks tx st = Inr (n, tx', st')"
  shows "cnt st' = cnt st + ucast n"
proof -
  obtain early tx1 st1 m where U: "update_blocks cb blks tx 0 st = Inr (early, tx1, m, st1)"
    "tx_wf tx1" "same_items (tx_sentList tx) (tx_sentList tx1)" "m = 0 + tx_sackedOut tx1 - tx_sackedOut tx"
    "list_all2 (\<lambda>a b. it_sacked a \<longrightarrow> it_sacked b) (tx_sentList tx) (tx_sentList tx1)"
    using update_blocks_ok [OF assms(1-5), of 0 st] by metis
  have r: "n = m" "st' = st1"
    using assms(7) U(1)
    by (auto simp: Update_def bindE_Inr ns_assert_Inr list_case_Inr split: if_splits)
  let ?f = "fbytes it_sacked (tx_sentList tx)" and ?f1 = "fbytes it_sacked (tx_sentList tx1)"
  have le: "?f \<le> ?f1" by (rule fbytes_mono [OF U(3,5)])
  have "?f1 < 2 ^ 32"
    using fbytes_le [of it_sacked "tx_sentList tx1"] tx_wfD(9) [OF U(2)] by simp
  then have "?f1 - ?f < 2 ^ 32" by simp
  moreover have "n = of_nat (?f1 - ?f)"
    using r(1) U(4) tx_wfD(4) [OF U(2)] tx_wfD(4) [OF assms(1)] le by (simp add: of_nat_diff)
  ultimately have "ucast n = (of_nat (?f1 - ?f) :: u64)"
    using ucast_of_nat_u32 by simp
  then show ?thesis
    using update_blocks_counts [OF U(1) assms(1,2,6)] r(2) le by (simp add: of_nat_diff)
qed

end

subsection \<open>The sampler is a counting observer\<close>

interpretation rate: counting_observer "SkbDelivered now" "\<lambda>r. rc_delivered (m_rate r)" armed
proof unfold_locales
  show "fst (SkbDelivered now it r) = it\<lparr>it_rateInfo := it_rateInfo (fst (SkbDelivered now it r))\<rparr>" for it r
    by (simp add: SkbDelivered_def Let_def)
  show "rc_delivered (m_rate (snd (SkbDelivered now it r))) = rc_delivered (m_rate r) + ucast (GetSeqSize it)"
    if "armed it" for it r
    using that by (simp add: SkbDelivered_def Let_def armed_def)
  show "armed (it\<lparr>it_lost := l, it_sacked := s\<rparr>) = armed it" for it l s
    by (simp add: armed_def)
qed



subsection \<open>Rate samples\<close>





text \<open>
  The sampler counts every transmission of an item once: a second delivery report for
  the item (the cumulative acknowledgment after a SACK) changes neither the item nor the
  sampler, and the first one adds exactly its size, until \<open>SkbSent\<close> arms the item again.
\<close>

theorem rate_counts_item_once:
  "(case SkbDelivered now it r of (it', r') \<Rightarrow>
     SkbDelivered now' it' r' = (it', r')
     \<and> rc_delivered (m_rate r') = rc_delivered (m_rate r) + (if armed it then ucast (GetSeqSize it) else 0)
     \<and> (rc_deliveredTime (m_rate (snd (SkbSent t first it' r'))) \<noteq> Time_Max
          \<longrightarrow> armed (fst (SkbSent t first it' r'))))"
  by (simp add: SkbDelivered_def SkbSent_def armed_def Let_def split: prod.splits)

theorem rate_counts_item_once_witness:
  "armed (fst (SkbSent 7 True (demo_item 0 100 [1, 2]) new_TcpRateLinux))"
proof -
  have "SkbDelivered 9 ((demo_item 0 100 [1, 2])\<lparr>it_rateInfo := default_rate_information\<rparr>) new_TcpRateLinux
    = ((demo_item 0 100 [1, 2])\<lparr>it_rateInfo := default_rate_information\<rparr>, new_TcpRateLinux)"
    by code_simp
  then show ?thesis
    using rate_counts_item_once [where now = 9 and now' = 9 and t = 7 and first = True and r = new_TcpRateLinux
      and it = "(demo_item 0 100 [1, 2])\<lparr>it_rateInfo := default_rate_information\<rparr>"]
    by (simp add: SkbSent_def Let_def new_TcpRateLinux_def Time_Max_def armed_def)
qed

text \<open>
  A sample taken during SACK reneging, which the comment of \<open>GenerateSample\<close> calls
  invalid, is valid for \<open>IsValid\<close> whenever a packet was delivered before: the branch
  clears the interval only, and \<open>IsValid\<close> also accepts a non-zero prior time.
\<close>

theorem rate_reneg_sample_stays_valid:
  assumes "rs_priorTime (m_rateSample r) \<noteq> 0"
  shows "\<exists>r'. GenerateSample acked lost True inFlight minRtt r = Inr r' \<and> IsValid (m_rateSample r')
    \<and> rs_delivered (m_rateSample r') = -1"
  using assms by (simp add: GenerateSample_def Let_def IsValid_def)

theorem rate_reneg_sample_stays_valid_witness:
  "\<exists>r'. GenerateSample 2 0 True 2 1000 demo_rate = Inr r' \<and> IsValid (m_rateSample r')"
proof -
  have "rs_priorTime (m_rateSample demo_rate) \<noteq> 0" by code_simp
  from rate_reneg_sample_stays_valid [OF this, of 2 0 2 1000] show ?thesis by blast
qed

end
