(* ===== verification/ByteBuffer.thy ===== *)
theory ByteBuffer
  imports Prelude
begin

text \<open>
  The reads and writes of \<open>Buffer::Iterator\<close> (src/network/model/buffer.h and buffer.cc)
  that the TCP header uses.  An iterator is the list of bytes from its position to the
  end of the data; a read returns the value and the iterator behind it.  Reading past
  the end fails the assertion of \<open>PeekU8\<close> or, in the unchecked reads in network
  order, has no defined meaning.  Writes are the bytes written.
\<close>

type_synonym bytes = "u8 list"

definition PeekU8 :: "bytes \<Rightarrow> u8 result" where
  "PeekU8 i = (case i of [] \<Rightarrow> Inl (NsAssert 1008) | x # _ \<Rightarrow> Inr x)"

definition ReadU8 :: "bytes \<Rightarrow> (u8 \<times> bytes) result" where
  "ReadU8 i = bindE (PeekU8 i) (\<lambda>x. Inr (x, tl i))"

definition ReadU16 :: "bytes \<Rightarrow> (u16 \<times> bytes) result" where
  "ReadU16 i = bindE (ReadU8 i) (\<lambda>(byte0, i). bindE (ReadU8 i) (\<lambda>(byte1, i).
    Inr (push_bit 8 (ucast byte1) OR ucast byte0, i)))"

definition ReadNtohU16 :: "bytes \<Rightarrow> (u16 \<times> bytes) result" where
  "ReadNtohU16 i = (case i of
      b0 # b1 # i \<Rightarrow> Inr (push_bit 8 (ucast b0) OR ucast b1, i)
    | _ \<Rightarrow> Inl (Undefined 970))"

definition ReadNtohU32 :: "bytes \<Rightarrow> (u32 \<times> bytes) result" where
  "ReadNtohU32 i = (case i of
      b0 # b1 # b2 # b3 # i \<Rightarrow>
        Inr (push_bit 8 (push_bit 8 (push_bit 8 (ucast b0) OR ucast b1) OR ucast b2) OR ucast b3, i)
    | _ \<Rightarrow> Inl (Undefined 994))"

fun Read_bytes :: "nat \<Rightarrow> bytes \<Rightarrow> (bytes \<times> bytes) result" where
  "Read_bytes 0 i = Inr ([], i)"
| "Read_bytes (Suc n) i = bindE (ReadU8 i) (\<lambda>(x, i). bindE (Read_bytes n i) (\<lambda>(xs, i). Inr (x # xs, i)))"

definition Next :: "nat \<Rightarrow> bytes \<Rightarrow> bytes result" where
  "Next delta i = ns_assert 869 (delta \<le> length i) (Inr (drop delta i))"

definition WriteU16 :: "u16 \<Rightarrow> bytes" where
  "WriteU16 d = [ucast d, ucast (drop_bit 8 d)]"

definition WriteHtonU16 :: "u16 \<Rightarrow> bytes" where
  "WriteHtonU16 d = [ucast (drop_bit 8 d), ucast d]"

definition WriteHtonU32 :: "u32 \<Rightarrow> bytes" where
  "WriteHtonU32 d = [ucast (drop_bit 24 d), ucast (drop_bit 16 d), ucast (drop_bit 8 d), ucast d]"

text \<open>The sum of the 16-bit words, its folding, and \<open>CalculateIpChecksum\<close>.\<close>

fun checksum_words :: "nat \<Rightarrow> u32 \<Rightarrow> bytes \<Rightarrow> (u32 \<times> bytes) result" where
  "checksum_words 0 acc i = Inr (acc, i)"
| "checksum_words (Suc n) acc i =
    bindE (ReadU16 i) (\<lambda>(w, i). checksum_words n (acc + ucast w) i)"

function fold_sum :: "u32 \<Rightarrow> u32" where
  "fold_sum acc = (if drop_bit 16 acc = 0 then acc else fold_sum ((acc AND 0xffff) + drop_bit 16 acc))"
  by pat_completeness auto
termination
proof (relation "measure unat")
  fix s :: u32
  assume "drop_bit 16 s \<noteq> 0"
  then have "0 < unat s div 65536"
    unfolding unat_drop_bit_16 [symmetric] by (simp add: unat_gt_0 del: unsigned_drop_bit_eq)
  moreover have "unat ((s AND 0xffff) + drop_bit 16 s) \<le> unat s mod 65536 + unat s div 65536"
    unfolding unat_and_0xffff [symmetric] unat_drop_bit_16 [symmetric]
    by (metis unat_word_ariths(1) mod_less_eq_dividend)
  ultimately show "((s AND 0xffff) + drop_bit 16 s, s) \<in> measure unat"
    using div_mult_mod_eq [of "unat s" 65536] unfolding in_measure by linarith
qed simp

definition CalculateIpChecksum :: "u16 \<Rightarrow> u32 \<Rightarrow> bytes \<Rightarrow> u16 result" where
  "CalculateIpChecksum sz initialChecksum i =
    bindE (checksum_words (unat sz div 2) initialChecksum i) (\<lambda>(acc, i).
    bindE (if odd (unat sz) then bindE (ReadU8 i) (\<lambda>(x, _). Inr (acc + ucast x)) else Inr acc) (\<lambda>acc.
    Inr (ucast (NOT (fold_sum acc)))))"

text \<open>Reference definitions: the sum over the integers and its end-around carry.\<close>

fun word_sum :: "bytes \<Rightarrow> nat" where
  "word_sum [] = 0"
| "word_sum [a] = unat a"
| "word_sum (a # b # i) = unat a + 256 * unat b + word_sum i"

definition carried :: "nat \<Rightarrow> nat" where
  "carried n = (if n \<noteq> 0 \<and> n mod 65535 = 0 then 65535 else n mod 65535)"

declare fold_sum.simps [simp del]

subsection \<open>Codecs\<close>

text \<open>A writer of \<open>n\<close> bytes and the reader that inverts it.\<close>

locale codec =
  fixes put :: "'a \<Rightarrow> bytes" and get :: "bytes \<Rightarrow> ('a \<times> bytes) result" and n :: nat
  assumes get_put: "get (put x @ i) = Inr (x, i)"
    and put_length: "length (put x) = n"
begin

lemma put_inj: "put x = put y \<Longrightarrow> x = y"
  using get_put [of x "[]"] get_put [of y "[]"] by simp

lemma get_put_seq:
  assumes "codec put' get' n'"
  shows "bindE (get (put x @ put' y @ i)) (\<lambda>(a, i). bindE (get' i) (\<lambda>(b, i). f a b i)) = f x y i"
  by (simp add: get_put codec.get_put [OF assms])

end

lemma ReadU8_Cons [simp]: "ReadU8 (x # i) = Inr (x, i)"
  by (simp add: ReadU8_def PeekU8_def)

lemma u16_bytes: "push_bit 8 (ucast (ucast (drop_bit 8 d) :: u8)) OR ucast (ucast d :: u8) = (d :: u16)"
  by (rule bit_word_eqI) (auto simp: bit_simps)

lemma u32_bytes:
  "push_bit 8 (push_bit 8 (push_bit 8 (ucast (ucast (drop_bit 24 d) :: u8)) OR ucast (ucast (drop_bit 16 d) :: u8))
     OR ucast (ucast (drop_bit 8 d) :: u8)) OR ucast (ucast d :: u8) = (d :: u32)"
  (is "?l = d")
proof (rule bit_word_eqI)
  fix n
  assume n: "n < LENGTH(32)"
  consider "n < 8" | "8 \<le> n" "n < 16" | "16 \<le> n" "n < 24" | "24 \<le> n" by linarith
  then show "bit ?l n = bit d n"
    using n by cases (auto simp: bit_simps)
qed

interpretation c8: codec "\<lambda>x. [x]" ReadU8 1
  by unfold_locales simp_all

lemma ReadU16_Cons: "ReadU16 (b0 # b1 # i) = Inr (push_bit 8 (ucast b1) OR ucast b0, i)"
  by (simp add: ReadU16_def)

lemma ReadNtoh_Cons:
  "ReadNtohU16 (b0 # b1 # i) = Inr (push_bit 8 (ucast b0) OR ucast b1, i)"
  "ReadNtohU32 (b0 # b1 # b2 # b3 # i)
    = Inr (push_bit 8 (push_bit 8 (push_bit 8 (ucast b0) OR ucast b1) OR ucast b2) OR ucast b3, i)"
  by (simp_all add: ReadNtohU16_def ReadNtohU32_def)

interpretation le16: codec WriteU16 ReadU16 2
proof unfold_locales
  show "ReadU16 (WriteU16 x @ i) = Inr (x, i)" for x i
    unfolding WriteU16_def append.simps ReadU16_Cons u16_bytes ..
qed (simp add: WriteU16_def)

interpretation n16: codec WriteHtonU16 ReadNtohU16 2
proof unfold_locales
  show "ReadNtohU16 (WriteHtonU16 x @ i) = Inr (x, i)" for x i
    unfolding WriteHtonU16_def append.simps ReadNtoh_Cons u16_bytes ..
qed (simp add: WriteHtonU16_def)

interpretation n32: codec WriteHtonU32 ReadNtohU32 4
proof unfold_locales
  show "ReadNtohU32 (WriteHtonU32 x @ i) = Inr (x, i)" for x i
    unfolding WriteHtonU32_def append.simps ReadNtoh_Cons u32_bytes ..
qed (simp add: WriteHtonU32_def)

lemmas codec_simps = c8.get_put le16.get_put n16.get_put n32.get_put
lemmas codec_lengths = le16.put_length n16.put_length n32.put_length

declare codec_simps [simp] codec_lengths [simp]

lemma Read_bytes_append [simp]: "Read_bytes (length b) (b @ i) = Inr (b, i)"
  by (induction b) simp_all

lemma Next_append [simp]: "Next (length b) (b @ i) = Inr i"
  by (simp add: Next_def)

subsection \<open>The checksum is the ones' complement sum\<close>

lemma carried_small: "n < 65536 \<Longrightarrow> carried n = n"
  by (cases "n = 65535") (auto simp: carried_def)

lemma carried_le: "carried n \<le> 65535"
  using mod_less_divisor [of 65535 n] by (auto simp: carried_def)

lemma carried_le_self: "carried n \<le> n"
  using dvd_imp_le [of 65535 n] by (auto simp: carried_def mod_eq_0_iff_dvd)

lemma carried_fold: "carried (n mod 65536 + n div 65536) = carried n"
proof -
  obtain q r where n: "n mod 65536 = r" "n div 65536 = q" "n = q * 65536 + r"
    by (metis div_mult_mod_eq)
  have "(r + q) mod 65535 = (r + q + q * 65535) mod 65535"
    by (simp only: mod_mult_self1)
  also have "r + q + q * 65535 = n" by (simp add: n(3))
  finally have "(n mod 65536 + n div 65536) mod 65535 = n mod 65535" by (simp add: n(1,2))
  moreover have "n mod 65536 + n div 65536 = 0 \<longleftrightarrow> n = 0"
    using n by auto
  ultimately show ?thesis by (simp add: carried_def)
qed

lemma fold_sum_carried: "unat (fold_sum s) = carried (unat s)"
proof (induction s rule: fold_sum.induct)
  case (1 s)
  show ?case
  proof (cases "drop_bit 16 s = 0")
    case True
    then have "unat s div 65536 = 0"
      unfolding unat_drop_bit_16 [symmetric] by simp
    then have "unat s < 65536" by (simp add: div_eq_0_iff)
    then show ?thesis by (simp add: fold_sum.simps True carried_small)
  next
    case False
    have "unat s < 4294967296" using unsigned_less [of s] by simp
    then have "unat s div 65536 < 65536" by (simp add: less_mult_imp_div_less)
    moreover have "unat s mod 65536 < 65536" by simp
    ultimately have "unat (s AND 0xffff) + unat (drop_bit 16 s) < 2 ^ 32"
      unfolding unat_and_0xffff unat_drop_bit_16 by simp
    then have "unat ((s AND 0xffff) + drop_bit 16 s) = unat s mod 65536 + unat s div 65536"
      using unat_add_lem [of "s AND 0xffff" "drop_bit 16 s"]
      unfolding unat_and_0xffff unat_drop_bit_16 by simp
    with 1 [OF False] show ?thesis
      using False by (subst fold_sum.simps) (simp add: carried_fold)
  qed
qed

lemma word_sum_append:
  "even (length a) \<Longrightarrow> word_sum (a @ b) = word_sum a + word_sum b"
  by (induction a rule: word_sum.induct) auto

lemma unat_u8: "unat (x :: u8) \<le> 255"
  using unsigned_less [of x, where 'a = nat] by simp

lemma word_sum_bound: "word_sum i \<le> 65535 * ((length i + 1) div 2)"
proof (induction i rule: word_sum.induct)
  case (2 a)
  then show ?case using unat_u8 [of a] by simp
next
  case (3 a b i)
  then show ?case using unat_u8 [of a] unat_u8 [of b] by simp
qed simp

lemma unat_le16: "unat (push_bit 8 (ucast b1) OR ucast (b0 :: u8) :: u16) = unat b0 + 256 * unat (b1 :: u8)"
proof -
  have "push_bit 8 (ucast b1) OR ucast b0 = (push_bit 8 (ucast b1) + ucast b0 :: u16)"
    by (rule disjunctive_add [symmetric]) (auto simp: bit_simps dest: bit_imp_le_length)
  also have "\<dots> = of_nat (unat b0 + 256 * unat b1)"
    by (simp add: push_bit_eq_mult)
  finally show ?thesis
    using unat_u8 [of b0] unat_u8 [of b1] by (simp add: unsigned_of_nat take_bit_nat_eq_self del: of_nat_add of_nat_mult)
qed

lemma checksum_words_sum:
  assumes "n = length i div 2"
  shows "\<exists>r. checksum_words n s i = Inr (r, drop (2 * n) i)
    \<and> r = s + of_nat (word_sum (take (2 * n) i))"
  using assms
proof (induction n arbitrary: s i)
  case (Suc n)
  then obtain a b j where i: "i = a # b # j" "n = length j div 2"
    by (cases i; cases "tl i") auto
  have "ucast (push_bit 8 (ucast b) OR ucast a :: u16) = (of_nat (unat a + 256 * unat b) :: u32)"
    unfolding unat_le16 [symmetric] by simp
  then show ?case
    using Suc.IH [OF i(2), of "s + ucast (push_bit 8 (ucast b) OR ucast a :: u16)"]
    by (simp add: i(1) ReadU16_Cons add.assoc del: of_nat_mult)
qed simp

lemma ucast_NOT_of_nat:
  assumes "c \<le> 65535"
  shows "ucast (NOT (of_nat c :: u32)) = (of_nat (65535 - c) :: u16)"
proof -
  have "ucast (NOT (of_nat c :: u32)) = NOT (ucast (of_nat c :: u32) :: u16)"
    by (rule bit_word_eqI) (simp add: bit_simps)
  also have "ucast (of_nat c :: u32) = (of_nat c :: u16)"
    using assms by (simp add: unsigned_of_nat take_bit_nat_eq_self)
  also have "NOT (of_nat c :: u16) = of_nat 65535 - of_nat c"
    by (simp add: not_eq_complement)
  finally show ?thesis using assms by (simp add: of_nat_diff)
qed

lemma checksum_spec:
  assumes "length i < 65536" "unat s < 65536"
  shows "CalculateIpChecksum (of_nat (length i)) s i = Inr (of_nat (65535 - carried (unat s + word_sum i)))"
proof -
  let ?n = "length i div 2"
  have len: "unat (of_nat (length i) :: u16) = length i"
    using assms(1) by (simp add: unsigned_of_nat take_bit_nat_eq_self)
  have tail: "word_sum i = word_sum (take (2 * ?n) i) + word_sum (drop (2 * ?n) i)"
    using word_sum_append [of "take (2 * ?n) i" "drop (2 * ?n) i"] by simp
  have sum: "(if odd (length i) then bindE (ReadU8 (drop (2 * ?n) i)) (\<lambda>(x, _). Inr (r + ucast x)) else Inr r)
    = Inr (r + of_nat (word_sum (drop (2 * ?n) i)))" for r :: u32
  proof (cases "odd (length i)")
    case True
    then have "length (drop (2 * ?n) i) = Suc 0" by simp presburger
    then obtain x where "drop (2 * ?n) i = [x]" unfolding length_Suc_conv by blast
    with True show ?thesis by simp
  next
    case False
    then show ?thesis by simp
  qed
  have "word_sum i \<le> 65535 * 32768"
    using word_sum_bound [of i] assms(1) by (simp add: le_trans)
  with assms(2) have u: "unat (s + of_nat (word_sum i)) = unat s + word_sum i"
    by (subst unat_add_lem [THEN iffD1]) (simp_all add: unsigned_of_nat take_bit_nat_eq_self)
  have "ucast (NOT (fold_sum (s + of_nat (word_sum i)))) = (of_nat (65535 - carried (unat s + word_sum i)) :: u16)"
  proof -
    let ?f = "fold_sum (s + of_nat (word_sum i))"
    have "?f = of_nat (unat ?f)" by simp
    then have c: "?f = of_nat (carried (unat s + word_sum i))"
      by (simp only: fold_sum_carried u)
    show ?thesis unfolding c by (rule ucast_NOT_of_nat [OF carried_le])
  qed
  with sum checksum_words_sum [OF refl, of i s] show ?thesis
    by (auto simp: CalculateIpChecksum_def len tail add.assoc)
qed

end
