(* ===== verification/TcpOptions.thy ===== *)
theory TcpOptions
  imports ByteBuffer
begin

text \<open>
  The TCP options of src/internet/model/tcp-option.cc, tcp-option-rfc793.cc,
  tcp-option-ts.cc, tcp-option-winscale.cc, tcp-option-sack.cc,
  tcp-option-sack-permitted.cc and tcp-option-cwnd.cc: one constructor per class with
  the members of the class, and the virtual methods by cases on the class.
\<close>

datatype TcpOption =
    TcpOptionEnd
  | TcpOptionNOP
  | TcpOptionMSS u16
  | TcpOptionWinScale u8
  | TcpOptionSackPermitted
  | TcpOptionSack "(u32 \<times> u32) list"
  | TcpOptionTS u32 u32
  | TcpOptionCwnd u32
  | TcpOptionUnknown u8 u32 bytes

fun GetKind :: "TcpOption \<Rightarrow> u8" where
  "GetKind TcpOptionEnd = 0"
| "GetKind TcpOptionNOP = 1"
| "GetKind (TcpOptionMSS _) = 2"
| "GetKind (TcpOptionWinScale _) = 3"
| "GetKind TcpOptionSackPermitted = 4"
| "GetKind (TcpOptionSack _) = 5"
| "GetKind (TcpOptionTS _ _) = 8"
| "GetKind (TcpOptionCwnd _) = 16"
| "GetKind (TcpOptionUnknown kind _ _) = kind"

definition IsKindKnown :: "u8 \<Rightarrow> bool" where
  "IsKindKnown kind \<longleftrightarrow> kind \<in> {0, 1, 2, 3, 4, 5, 8, 16}"

text \<open>A new object of the class for a kind; \<open>m_cwnd\<close> is 0 and \<open>m_content\<close> empty until they are read.\<close>

definition CreateOption :: "u8 \<Rightarrow> TcpOption" where
  "CreateOption kind =
    (if kind = 0 then TcpOptionEnd else if kind = 2 then TcpOptionMSS 1460
     else if kind = 1 then TcpOptionNOP else if kind = 8 then TcpOptionTS 0 0
     else if kind = 16 then TcpOptionCwnd 0 else if kind = 3 then TcpOptionWinScale 0
     else if kind = 4 then TcpOptionSackPermitted else if kind = 5 then TcpOptionSack []
     else TcpOptionUnknown 255 0 [])"

definition GetNumSackBlocks :: "(u32 \<times> u32) list \<Rightarrow> u32" where
  "GetNumSackBlocks sackList = of_nat (length sackList)"

definition AddSackBlock :: "u32 \<times> u32 \<Rightarrow> (u32 \<times> u32) list \<Rightarrow> (u32 \<times> u32) list" where
  "AddSackBlock s sackList = sackList @ [s]"

fun OptSerializedSize :: "TcpOption \<Rightarrow> u32" where
  "OptSerializedSize TcpOptionEnd = 1"
| "OptSerializedSize TcpOptionNOP = 1"
| "OptSerializedSize (TcpOptionMSS _) = 4"
| "OptSerializedSize (TcpOptionWinScale _) = 3"
| "OptSerializedSize TcpOptionSackPermitted = 2"
| "OptSerializedSize (TcpOptionSack l) = 2 + GetNumSackBlocks l * 8"
| "OptSerializedSize (TcpOptionTS _ _) = 10"
| "OptSerializedSize (TcpOptionCwnd _) = 6"
| "OptSerializedSize (TcpOptionUnknown _ sz _) = sz"

fun write_sack_blocks :: "(u32 \<times> u32) list \<Rightarrow> bytes" where
  "write_sack_blocks [] = []"
| "write_sack_blocks ((l, r) # s) = WriteHtonU32 l @ WriteHtonU32 r @ write_sack_blocks s"

text \<open>
  \<open>Serialize\<close> of the classes.  An unknown option with a size of one, or a size beyond its
  content, writes memory outside \<open>m_content\<close>.
\<close>

definition Serialize_End :: bytes where
  [simp]: "Serialize_End = [0]"

definition Serialize_NOP :: bytes where
  [simp]: "Serialize_NOP = [1]"

definition Serialize_MSS :: "u16 \<Rightarrow> bytes" where
  [simp]: "Serialize_MSS mss = [2, 4] @ WriteHtonU16 mss"

definition Serialize_WinScale :: "u8 \<Rightarrow> bytes" where
  [simp]: "Serialize_WinScale scale = [3, 3, scale]"

definition Serialize_SackPermitted :: bytes where
  [simp]: "Serialize_SackPermitted = [4, 2]"

definition Serialize_Sack :: "(u32 \<times> u32) list \<Rightarrow> bytes" where
  [simp]: "Serialize_Sack l = [5, ucast (GetNumSackBlocks l * 8 + 2)] @ write_sack_blocks l"

definition Serialize_TS :: "u32 \<Rightarrow> u32 \<Rightarrow> bytes" where
  [simp]: "Serialize_TS ts echo = [8, 10] @ WriteHtonU32 ts @ WriteHtonU32 echo"

definition Serialize_Cwnd :: "u32 \<Rightarrow> bytes" where
  [simp]: "Serialize_Cwnd cwnd = [16, 6] @ WriteHtonU32 cwnd"

definition Serialize_Unknown :: "u8 \<Rightarrow> u32 \<Rightarrow> bytes \<Rightarrow> bytes result" where
  [simp]: "Serialize_Unknown kind sz content =
    (if sz = 0 then Inr []
     else if unat (sz - 2) \<le> length content then Inr ([kind, ucast sz] @ take (unat (sz - 2)) content)
     else Inl (Undefined 168))"

fun OptSerialize :: "TcpOption \<Rightarrow> bytes result" where
  "OptSerialize TcpOptionEnd = Inr Serialize_End"
| "OptSerialize TcpOptionNOP = Inr Serialize_NOP"
| "OptSerialize (TcpOptionMSS mss) = Inr (Serialize_MSS mss)"
| "OptSerialize (TcpOptionWinScale scale) = Inr (Serialize_WinScale scale)"
| "OptSerialize TcpOptionSackPermitted = Inr Serialize_SackPermitted"
| "OptSerialize (TcpOptionSack l) = Inr (Serialize_Sack l)"
| "OptSerialize (TcpOptionTS ts echo) = Inr (Serialize_TS ts echo)"
| "OptSerialize (TcpOptionCwnd cwnd) = Inr (Serialize_Cwnd cwnd)"
| "OptSerialize (TcpOptionUnknown kind sz content) = Serialize_Unknown kind sz content"

text \<open>The loop of \<open>TcpOptionSack::Deserialize\<close>.\<close>

fun read_sack_blocks :: "nat \<Rightarrow> (u32 \<times> u32) list \<Rightarrow> bytes \<Rightarrow> (u32 \<times> u32) list result" where
  "read_sack_blocks 0 l i = Inr l"
| "read_sack_blocks (Suc n) l i =
    bindE (ReadNtohU32 i) (\<lambda>(leftEdge, i). bindE (ReadNtohU32 i) (\<lambda>(rightEdge, i).
      read_sack_blocks n (AddSackBlock (leftEdge, rightEdge) l) i))"

text \<open>
  \<open>Deserialize\<close> on an object of the class: the object afterwards and the returned size,
  0 for a malformed option.  \<open>(size - 2) / 8\<close> is a division of \<open>int\<close> values, 0 for sizes
  below two.
\<close>

definition read_kind :: "u8 \<Rightarrow> bytes \<Rightarrow> TcpOption \<Rightarrow> (bytes \<Rightarrow> (TcpOption \<times> u32) result)
    \<Rightarrow> (TcpOption \<times> u32) result" where
  "read_kind kind i old f =
    bindE (ReadU8 i) (\<lambda>(readKind, i). if readKind \<noteq> kind then Inr (old, 0) else f i)"

definition read_size :: "u8 \<Rightarrow> bytes \<Rightarrow> TcpOption \<Rightarrow> (bytes \<Rightarrow> (TcpOption \<times> u32) result)
    \<Rightarrow> (TcpOption \<times> u32) result" where
  "read_size n i old f = bindE (ReadU8 i) (\<lambda>(sz, i). if sz \<noteq> n then Inr (old, 0) else f i)"

definition Deserialize_End :: "bytes \<Rightarrow> (TcpOption \<times> u32) result" where
  [simp]: "Deserialize_End i = read_kind 0 i TcpOptionEnd (\<lambda>_. Inr (TcpOptionEnd, 1))"

definition Deserialize_NOP :: "bytes \<Rightarrow> (TcpOption \<times> u32) result" where
  [simp]: "Deserialize_NOP i = read_kind 1 i TcpOptionNOP (\<lambda>_. Inr (TcpOptionNOP, 1))"

definition Deserialize_MSS :: "u16 \<Rightarrow> bytes \<Rightarrow> (TcpOption \<times> u32) result" where
  [simp]: "Deserialize_MSS m i =
    read_kind 2 i (TcpOptionMSS m) (\<lambda>i.
      bindE (ReadU8 i) (\<lambda>(sz, i).
        ns_abort_if 233 (sz \<noteq> 4)
          (bindE (ReadNtohU16 i) (\<lambda>(mss, i). Inr (TcpOptionMSS mss, 4)))))"

definition Deserialize_WinScale :: "u8 \<Rightarrow> bytes \<Rightarrow> (TcpOption \<times> u32) result" where
  [simp]: "Deserialize_WinScale s i =
    read_kind 3 i (TcpOptionWinScale s) (\<lambda>i. read_size 3 i (TcpOptionWinScale s) (\<lambda>i.
      bindE (ReadU8 i) (\<lambda>(scale, i). Inr (TcpOptionWinScale scale, 3))))"

definition Deserialize_SackPermitted :: "bytes \<Rightarrow> (TcpOption \<times> u32) result" where
  [simp]: "Deserialize_SackPermitted i =
    read_kind 4 i TcpOptionSackPermitted (\<lambda>i. read_size 2 i TcpOptionSackPermitted (\<lambda>i.
      Inr (TcpOptionSackPermitted, 2)))"

definition Deserialize_Sack :: "(u32 \<times> u32) list \<Rightarrow> bytes \<Rightarrow> (TcpOption \<times> u32) result" where
  [simp]: "Deserialize_Sack l i =
    read_kind 5 i (TcpOptionSack l) (\<lambda>i.
      bindE (ReadU8 i) (\<lambda>(sz, i).
      bindE (read_sack_blocks ((unat sz - 2) div 8) [] i) (\<lambda>l.
        Inr (TcpOptionSack l, OptSerializedSize (TcpOptionSack l)))))"

definition Deserialize_TS :: "u32 \<Rightarrow> u32 \<Rightarrow> bytes \<Rightarrow> (TcpOption \<times> u32) result" where
  [simp]: "Deserialize_TS ts e i =
    read_kind 8 i (TcpOptionTS ts e) (\<lambda>i. read_size 10 i (TcpOptionTS ts e) (\<lambda>i.
      bindE (ReadNtohU32 i) (\<lambda>(timestamp, i). bindE (ReadNtohU32 i) (\<lambda>(echo, i).
        Inr (TcpOptionTS timestamp echo, 10)))))"

definition Deserialize_Cwnd :: "u32 \<Rightarrow> bytes \<Rightarrow> (TcpOption \<times> u32) result" where
  [simp]: "Deserialize_Cwnd c i =
    read_kind 16 i (TcpOptionCwnd c) (\<lambda>i. read_size 6 i (TcpOptionCwnd c) (\<lambda>i.
      bindE (ReadNtohU32 i) (\<lambda>(cwnd, i). Inr (TcpOptionCwnd cwnd, 6))))"

definition Deserialize_Unknown :: "bytes \<Rightarrow> bytes \<Rightarrow> (TcpOption \<times> u32) result" where
  [simp]: "Deserialize_Unknown content i =
    bindE (ReadU8 i) (\<lambda>(kind, i). bindE (ReadU8 i) (\<lambda>(sz, i).
      if sz < 2 \<or> sz > 40 then Inr (TcpOptionUnknown kind (ucast sz) content, 0)
      else bindE (Read_bytes (unat sz - 2) i) (\<lambda>(content, i).
        Inr (TcpOptionUnknown kind (ucast sz) content, ucast sz))))"

fun OptDeserialize :: "TcpOption \<Rightarrow> bytes \<Rightarrow> (TcpOption \<times> u32) result" where
  "OptDeserialize TcpOptionEnd i = Deserialize_End i"
| "OptDeserialize TcpOptionNOP i = Deserialize_NOP i"
| "OptDeserialize (TcpOptionMSS m) i = Deserialize_MSS m i"
| "OptDeserialize (TcpOptionWinScale s) i = Deserialize_WinScale s i"
| "OptDeserialize TcpOptionSackPermitted i = Deserialize_SackPermitted i"
| "OptDeserialize (TcpOptionSack l) i = Deserialize_Sack l i"
| "OptDeserialize (TcpOptionTS ts e) i = Deserialize_TS ts e i"
| "OptDeserialize (TcpOptionCwnd c) i = Deserialize_Cwnd c i"
| "OptDeserialize (TcpOptionUnknown _ _ content) i = Deserialize_Unknown content i"

text \<open>\<open>GetScale\<close> and \<open>SetScale\<close> of the window scale option; the timestamp clock in milliseconds.\<close>

definition GetScale :: "u8 \<Rightarrow> u8 result" where
  "GetScale scale = ns_assert 109 (scale \<le> 14) (Inr scale)"

definition SetScale :: "u8 \<Rightarrow> TcpOption result" where
  "SetScale scale = ns_assert 117 (scale \<le> 14) (Inr (TcpOptionWinScale scale))"

definition NowToTsValue :: "int \<Rightarrow> u32" where
  "NowToTsValue now = of_int (now div 1000000)"

definition ElapsedTimeFromTsValue :: "int \<Rightarrow> u32 \<Rightarrow> int" where
  "ElapsedTimeFromTsValue now echoTime =
    (let now32 = (of_int (now div 1000000) :: u32) in
     if now32 > echoTime then uint (now32 - echoTime) * 1000000 else 0)"

text \<open>
  Options whose size fits the length byte; an unknown option has the kind, size and
  content of a successful \<open>Deserialize\<close>.
\<close>

fun opt_ok :: "TcpOption \<Rightarrow> bool" where
  "opt_ok (TcpOptionSack l) = (length l \<le> 31)"
| "opt_ok (TcpOptionUnknown kind sz content) =
    (\<not> IsKindKnown kind \<and> 2 \<le> sz \<and> sz \<le> 40 \<and> length content = unat sz - 2)"
| "opt_ok _ = True"

subsection \<open>Round trip\<close>

lemma length_write_sack_blocks [simp]: "length (write_sack_blocks l) = 8 * length l"
  by (induction l rule: write_sack_blocks.induct) simp_all

lemma read_write_sack_blocks: "read_sack_blocks (length l) acc (write_sack_blocks l @ i) = Inr (acc @ l)"
  by (induction l arbitrary: acc rule: write_sack_blocks.induct) (simp_all add: AddSackBlock_def)

lemma sack_length:
  assumes "n \<le> 31"
  shows "unat (of_nat n * 8 + 2 :: u32) = n * 8 + 2" "unat (ucast (of_nat n * 8 + 2 :: u32) :: u8) = n * 8 + 2"
proof -
  have "of_nat n * 8 + 2 = (of_nat (n * 8 + 2) :: u32)" by simp
  then show u: "unat (of_nat n * 8 + 2 :: u32) = n * 8 + 2"
    using assms unat_of_nat_32 [of "n * 8 + 2"] by (simp only:) simp
  then show "unat (ucast (of_nat n * 8 + 2 :: u32) :: u8) = n * 8 + 2"
    using assms unfolding unsigned_ucast_eq unsigned_take_bit_eq by (simp add: take_bit_nat_eq_self)
qed

lemma unknown_length:
  assumes "2 \<le> (sz :: u32)" "sz \<le> 40"
  shows "unat (sz - 2) = unat sz - 2" "unat sz \<ge> 2" "unat sz \<le> 40" "ucast (ucast sz :: u8) = sz"
    "\<not> (ucast sz :: u8) < 2" "\<not> 40 < (ucast sz :: u8)" "unat (ucast sz :: u8) = unat sz"
proof -
  show le: "unat sz \<ge> 2" "unat sz \<le> 40"
    using assms by (simp_all add: word_le_nat_alt)
  show "unat (sz - 2) = unat sz - 2"
    using assms(1) by (simp add: unat_sub)
  show u: "unat (ucast sz :: u8) = unat sz"
    using le unfolding unsigned_ucast_eq unsigned_take_bit_eq by (simp add: take_bit_nat_eq_self)
  then show "\<not> (ucast sz :: u8) < 2" "\<not> 40 < (ucast sz :: u8)"
    using le by (simp_all add: word_less_nat_alt)
  show "ucast (ucast sz :: u8) = sz"
    using u le by (subst word_unat_eq_iff) (subst unsigned_ucast_eq, subst unsigned_take_bit_eq,
      simp add: take_bit_nat_eq_self)
qed

lemma OptSerialize_ok:
  assumes "opt_ok opt"
  shows "\<exists>b. OptSerialize opt = Inr (GetKind opt # b) \<and> Suc (length b) = unat (OptSerializedSize opt)"
  using assms
proof (cases opt)
  case (TcpOptionSack l)
  then show ?thesis using assms sack_length(1) [of "length l"]
    by (simp add: GetNumSackBlocks_def add.commute)
next
  case (TcpOptionUnknown kind sz content)
  then have "2 \<le> sz" "sz \<le> 40" using assms by simp_all
  note u = unknown_length [OF this]
  from u(2) have "sz \<noteq> 0" by auto
  with TcpOptionUnknown assms u show ?thesis by auto
qed simp_all

lemma CreateOption_kind:
  assumes "opt_ok opt"
  shows "CreateOption (if IsKindKnown (GetKind opt) then GetKind opt else 255) =
    (case opt of
       TcpOptionMSS _ \<Rightarrow> TcpOptionMSS 1460 | TcpOptionWinScale _ \<Rightarrow> TcpOptionWinScale 0
     | TcpOptionSack _ \<Rightarrow> TcpOptionSack [] | TcpOptionTS _ _ \<Rightarrow> TcpOptionTS 0 0
     | TcpOptionCwnd _ \<Rightarrow> TcpOptionCwnd 0 | TcpOptionUnknown _ _ _ \<Rightarrow> TcpOptionUnknown 255 0 []
     | _ \<Rightarrow> opt)"
  using assms by (cases opt) (simp_all add: IsKindKnown_def CreateOption_def)

lemma OptDeserialize_Serialize:
  assumes "opt_ok opt" "OptSerialize opt = Inr b"
  shows "OptDeserialize (CreateOption (if IsKindKnown (GetKind opt) then GetKind opt else 255)) (b @ i)
    = Inr (opt, OptSerializedSize opt)"
proof (cases opt)
  case (TcpOptionSack l)
  with assms(1) have "(unat (ucast (GetNumSackBlocks l * 8 + 2) :: u8) - 2) div 8 = length l"
    by (simp add: GetNumSackBlocks_def sack_length)
  with TcpOptionSack assms(2) show ?thesis
    unfolding CreateOption_kind [OF assms(1)]
    using read_write_sack_blocks [of l "[]" i] by (auto simp: read_kind_def)
next
  case (TcpOptionUnknown kind sz content)
  then have sz: "2 \<le> sz" "sz \<le> 40" "length content = unat sz - 2" using assms(1) by simp_all
  note u = unknown_length [OF sz(1,2)]
  from u(2) have "sz \<noteq> 0" by auto
  with TcpOptionUnknown assms(2) sz(3) u have "b = kind # ucast sz # content" by auto
  with TcpOptionUnknown u Read_bytes_append [of content i] sz(3) show ?thesis
    unfolding CreateOption_kind [OF assms(1)] by simp
qed (use assms(2) in \<open>auto simp: CreateOption_kind [OF assms(1)] IsKindKnown_def CreateOption_def read_kind_def
  read_size_def\<close>)

end
