(* ===== verification/TcpHdr.thy ===== *)
theory TcpHdr
  imports TcpOptions
begin

text \<open>
  The TCP header of src/internet/model/tcp-header.cc at the level of its bytes.
  \<open>Serialize\<close> takes the bytes that follow the header in the packet, because the
  checksum covers them; \<open>Deserialize\<close> takes the packet from the header on.  The buffer
  that \<open>Packet::AddHeader\<close> reserves has exactly the bytes that are written.
\<close>

datatype Address = NoAddress | Ipv4Address bytes | Ipv6Address bytes

record TcpHeader =
  h_sourcePort :: u16
  h_destinationPort :: u16
  h_sequenceNumber :: u32
  h_ackNumber :: u32
  h_length :: u8
  h_flags :: u8
  h_windowSize :: u16
  h_urgentPointer :: u16
  h_source :: Address
  h_destination :: Address
  h_protocol :: u8
  h_calcChecksum :: bool
  h_goodChecksum :: bool
  h_options :: "TcpOption list"
  h_optionsLen :: u8

definition new_TcpHeader :: TcpHeader where
  "new_TcpHeader =
    \<lparr> h_sourcePort = 0, h_destinationPort = 0, h_sequenceNumber = 0, h_ackNumber = 0, h_length = 5,
      h_flags = 0, h_windowSize = 0xffff, h_urgentPointer = 0, h_source = NoAddress,
      h_destination = NoAddress, h_protocol = 6, h_calcChecksum = False, h_goodChecksum = True,
      h_options = [], h_optionsLen = 0 \<rparr>"

definition m_maxOptionsLen :: u8 where
  "m_maxOptionsLen = 40"

definition flagNames :: "string list" where
  "flagNames = [''FIN'', ''SYN'', ''RST'', ''PSH'', ''ACK'', ''URG'', ''ECE'', ''CWR'']"

fun flags_to_string :: "nat \<Rightarrow> string list \<Rightarrow> u8 \<Rightarrow> string \<Rightarrow> string \<Rightarrow> string" where
  "flags_to_string k [] flags delimiter d = d"
| "flags_to_string k (name # names) flags delimiter d =
    flags_to_string (k + 1) names flags delimiter
      (if bit flags k then (if d = [] then d else d @ delimiter) @ name else d)"

definition FlagsToString :: "u8 \<Rightarrow> string \<Rightarrow> string" where
  "FlagsToString flags delimiter = flags_to_string 0 flagNames flags delimiter []"

definition EnableChecksums :: "TcpHeader \<Rightarrow> TcpHeader" where
  "EnableChecksums h = h\<lparr>h_calcChecksum := True\<rparr>"

definition InitializeChecksum :: "Address \<Rightarrow> Address \<Rightarrow> u8 \<Rightarrow> TcpHeader \<Rightarrow> TcpHeader" where
  "InitializeChecksum source destination protocol h =
    h\<lparr>h_source := source, h_destination := destination, h_protocol := protocol\<rparr>"

fun address_bytes :: "Address \<Rightarrow> bytes" where
  "address_bytes NoAddress = []"
| "address_bytes (Ipv4Address b) = b"
| "address_bytes (Ipv6Address b) = b"

text \<open>
  The pseudo header.  When the addresses are shorter than the header size assumes, the sum
  reads bytes that were never written.
\<close>

definition CalculateHeaderChecksum :: "u16 \<Rightarrow> TcpHeader \<Rightarrow> u16 result" where
  "CalculateHeaderChecksum sz h =
    (let addrs = address_bytes (h_source h) @ address_bytes (h_destination h);
         v4 = (case h_source h of Ipv4Address _ \<Rightarrow> True | _ \<Rightarrow> False);
         buf = (if v4 then addrs @ [0, h_protocol h, ucast (drop_bit 8 sz), ucast sz]
                else addrs @ [0, 0, ucast (drop_bit 8 sz), ucast sz, 0, 0, 0, h_protocol h]);
         hdrSize = (if v4 then 12 else 40 :: nat)
     in if length buf < hdrSize then Inl (Undefined 233)
        else bindE (CalculateIpChecksum (of_nat hdrSize) 0 buf) (\<lambda>c. Inr (NOT c)))"

definition options_size :: "TcpOption list \<Rightarrow> u32" where
  "options_size ops = sum_list (map OptSerializedSize ops)"

definition CalculateHeaderLength :: "TcpHeader \<Rightarrow> u8" where
  "CalculateHeaderLength h =
    (let len = 20 + options_size (h_options h);
         len = (if len mod 4 \<noteq> 0 then len + (4 - len mod 4) else len)
     in ucast (drop_bit 2 len))"

definition GetSerializedSize :: "TcpHeader \<Rightarrow> u32" where
  "GetSerializedSize h = ucast (CalculateHeaderLength h) * 4"

fun serialize_options :: "TcpOption list \<Rightarrow> bytes result" where
  "serialize_options [] = Inr []"
| "serialize_options (op # ops) =
    bindE (OptSerialize op) (\<lambda>b. bindE (serialize_options ops) (\<lambda>bs. Inr (b @ bs)))"

definition pad_length :: "u32 \<Rightarrow> nat" where
  "pad_length optionLen = unat ((4 - optionLen mod 4) mod 4)"

definition Serialize :: "TcpHeader \<Rightarrow> bytes \<Rightarrow> bytes result" where
  "Serialize h payload =
    bindE (serialize_options (h_options h)) (\<lambda>options.
      let bytes = WriteHtonU16 (h_sourcePort h) @ WriteHtonU16 (h_destinationPort h)
            @ WriteHtonU32 (h_sequenceNumber h) @ WriteHtonU32 (h_ackNumber h)
            @ WriteHtonU16 (push_bit 12 (ucast (h_length h)) OR ucast (h_flags h))
            @ WriteHtonU16 (h_windowSize h) @ WriteHtonU16 0 @ WriteHtonU16 (h_urgentPointer h)
            @ options @ replicate (pad_length (options_size (h_options h))) 0 @ payload;
          sz = of_nat (length bytes)
      in
      if h_calcChecksum h then
        bindE (CalculateHeaderChecksum sz h) (\<lambda>headerChecksum.
        bindE (CalculateIpChecksum sz (ucast headerChecksum) bytes) (\<lambda>checksum.
        Inr (take 16 bytes @ WriteU16 checksum @ drop 18 bytes)))
      else Inr bytes)"

text \<open>
  The loop of \<open>Deserialize\<close> over the options, on the options and \<open>m_optionsLen\<close> read so
  far.  The fuel bounds its iterations.  Behind an END option the rest of the
  option space is skipped byte by byte, which ends the loop.
\<close>

fun deserialize_options ::
  "nat \<Rightarrow> u32 \<Rightarrow> bytes \<Rightarrow> TcpOption list \<Rightarrow> u8 \<Rightarrow> (TcpOption list \<times> u8) result" where
  "deserialize_options 0 optionLen i ops len = Inl (Diverges 353)"
| "deserialize_options (Suc fuel) optionLen i ops len =
    (if optionLen = 0 then Inr (ops, len)
     else
       bindE (PeekU8 i) (\<lambda>kind.
       bindE (OptDeserialize (CreateOption (if IsKindKnown kind then kind else 255)) i) (\<lambda>(op, optionSize).
         if optionSize \<noteq> OptSerializedSize op then Inr (ops, len)
         else if optionLen \<ge> optionSize then
           bindE (Next (unat optionSize) i) (\<lambda>i.
             if GetKind op = 0 then
               bindE (Next (unat (optionLen - optionSize)) i) (\<lambda>i.
                 Inr (ops @ [op], len + ucast optionSize + ucast (optionLen - optionSize)))
             else deserialize_options fuel (optionLen - optionSize) i (ops @ [op]) (len + ucast optionSize))
         else Inr (ops, len))))"

definition options_fuel :: nat where
  "options_fuel = 41"

definition Deserialize :: "bytes \<Rightarrow> TcpHeader \<Rightarrow> (TcpHeader \<times> u32) result" where
  "Deserialize start h =
    bindE (ReadNtohU16 start) (\<lambda>(sourcePort, i).
    bindE (ReadNtohU16 i) (\<lambda>(destinationPort, i).
    bindE (ReadNtohU32 i) (\<lambda>(sequenceNumber, i).
    bindE (ReadNtohU32 i) (\<lambda>(ackNumber, i).
    bindE (ReadNtohU16 i) (\<lambda>(field, i).
    bindE (ReadNtohU16 i) (\<lambda>(windowSize, i).
    bindE (Next 2 i) (\<lambda>i.
    bindE (ReadNtohU16 i) (\<lambda>(urgentPointer, i).
      let h = h\<lparr>h_optionsLen := 0, h_sourcePort := sourcePort, h_destinationPort := destinationPort,
                h_sequenceNumber := sequenceNumber, h_ackNumber := ackNumber,
                h_flags := ucast (field AND 0xFF), h_length := ucast (drop_bit 12 field),
                h_windowSize := windowSize, h_urgentPointer := urgentPointer, h_options := []\<rparr>;
          optionLen = (ucast (h_length h) - 5) * 4 :: u32
      in
      if optionLen > ucast m_maxOptionsLen then Inr (h, 20)
      else
        bindE (deserialize_options options_fuel optionLen i [] 0) (\<lambda>(ops, len).
        let h = h\<lparr>h_options := ops, h_optionsLen := len\<rparr>; sz = of_nat (length start) in
        bindE (if h_calcChecksum h then
                 bindE (CalculateHeaderChecksum sz h) (\<lambda>headerChecksum.
                 bindE (CalculateIpChecksum sz (ucast headerChecksum) start) (\<lambda>checksum.
                 Inr (h\<lparr>h_goodChecksum := (checksum = 0)\<rparr>)))
               else Inr h) (\<lambda>h.
        Inr (h, GetSerializedSize h)))))))))))"

definition AppendOption :: "TcpOption \<Rightarrow> TcpHeader \<Rightarrow> bool \<times> TcpHeader" where
  "AppendOption option h =
    (if ucast (h_optionsLen h) + OptSerializedSize option \<le> ucast m_maxOptionsLen then
       if \<not> IsKindKnown (GetKind option) then (False, h)
       else if GetKind option \<noteq> 0 then
         let len = h_optionsLen h + ucast (OptSerializedSize option);
             totalLen = 20 + 3 + ucast len :: u32
         in (True, h\<lparr>h_options := h_options h @ [option], h_optionsLen := len,
                      h_length := ucast (drop_bit 2 totalLen)\<rparr>)
       else (True, h)
     else (False, h))"

definition GetOption :: "u8 \<Rightarrow> TcpHeader \<Rightarrow> TcpOption option" where
  "GetOption kind h = List.find (\<lambda>op. GetKind op = kind) (h_options h)"

definition HasOption :: "u8 \<Rightarrow> TcpHeader \<Rightarrow> bool" where
  "HasOption kind h = list_ex (\<lambda>op. GetKind op = kind) (h_options h)"

definition header_eq :: "TcpHeader \<Rightarrow> TcpHeader \<Rightarrow> bool" where
  "header_eq lhs rhs \<longleftrightarrow>
    h_sourcePort lhs = h_sourcePort rhs \<and> h_destinationPort lhs = h_destinationPort rhs
    \<and> h_sequenceNumber lhs = h_sequenceNumber rhs \<and> h_ackNumber lhs = h_ackNumber rhs
    \<and> h_flags lhs = h_flags rhs \<and> h_windowSize lhs = h_windowSize rhs
    \<and> h_urgentPointer lhs = h_urgentPointer rhs"

text \<open>
  The headers that \<open>AppendOption\<close> builds: known options other than END in at most 40
  bytes, with \<open>m_optionsLen\<close> and \<open>m_length\<close> their sizes in bytes and, rounded up, in words.
\<close>

definition options_bytes :: "TcpOption list \<Rightarrow> nat" where
  "options_bytes ops = sum_list (map (unat \<circ> OptSerializedSize) ops)"

definition sendable :: "TcpOption \<Rightarrow> bool" where
  "sendable op \<longleftrightarrow> opt_ok op \<and> IsKindKnown (GetKind op) \<and> GetKind op \<noteq> 0"

definition hdr_ok :: "TcpHeader \<Rightarrow> bool" where
  "hdr_ok h \<longleftrightarrow> list_all sendable (h_options h) \<and> options_bytes (h_options h) \<le> 40
    \<and> unat (h_optionsLen h) = options_bytes (h_options h)
    \<and> unat (h_length h) = 5 + (options_bytes (h_options h) + 3) div 4"

text \<open>What the receiver sees of the options: an END option marks the padding.\<close>

definition padded :: "TcpOption list \<Rightarrow> TcpOption list" where
  "padded ops = ops @ (if options_bytes ops mod 4 = 0 then [] else [TcpOptionEnd])"

definition options_words :: "TcpHeader \<Rightarrow> nat" where
  "options_words h = (options_bytes (h_options h) + 3) div 4"

definition header_prefix :: "TcpHeader \<Rightarrow> bytes" where
  "header_prefix h = WriteHtonU16 (h_sourcePort h) @ WriteHtonU16 (h_destinationPort h)
    @ WriteHtonU32 (h_sequenceNumber h) @ WriteHtonU32 (h_ackNumber h)
    @ WriteHtonU16 (push_bit 12 (ucast (h_length h)) OR ucast (h_flags h)) @ WriteHtonU16 (h_windowSize h)"

text \<open>The header \<open>r\<close> of the receiver after the header \<open>h\<close> was read into it.\<close>

definition received :: "TcpHeader \<Rightarrow> TcpHeader \<Rightarrow> TcpHeader" where
  "received h r =
    r\<lparr>h_sourcePort := h_sourcePort h, h_destinationPort := h_destinationPort h,
      h_sequenceNumber := h_sequenceNumber h, h_ackNumber := h_ackNumber h, h_length := h_length h,
      h_flags := h_flags h, h_windowSize := h_windowSize h, h_urgentPointer := h_urgentPointer h,
      h_options := padded (h_options h), h_optionsLen := of_nat (4 * options_words h)\<rparr>"

subsection \<open>Options in the header\<close>

lemma sendable_size:
  assumes "sendable op"
  shows "0 < unat (OptSerializedSize op)" "\<exists>b. OptSerialize op = Inr (GetKind op # b)
    \<and> Suc (length b) = unat (OptSerializedSize op)"
  using OptSerialize_ok [of op] assms by (auto simp: sendable_def)

lemma options_bytes_simps [simp]:
  "options_bytes [] = 0"
  "options_bytes (op # ops) = unat (OptSerializedSize op) + options_bytes ops"
  "options_bytes (ops @ ops') = options_bytes ops + options_bytes ops'"
  by (simp_all add: options_bytes_def)

lemma options_size_bytes: "options_size ops = of_nat (options_bytes ops)"
  by (induction ops) (simp_all add: options_size_def)

lemma length_le_options_bytes: "list_all sendable ops \<Longrightarrow> length ops \<le> options_bytes ops"
proof (induction ops)
  case (Cons op ops)
  then show ?case using sendable_size(1) [of op] by auto
qed simp

lemma serialize_options_ok:
  "list_all sendable ops \<Longrightarrow> \<exists>b. serialize_options ops = Inr b \<and> length b = options_bytes ops"
proof (induction ops)
  case (Cons op ops)
  then show ?case using sendable_size(2) [of op] by auto
qed simp

lemma OptDeserialize_End: "OptDeserialize (CreateOption 0) (0 # i) = Inr (TcpOptionEnd, 1)"
  by (simp add: CreateOption_def read_kind_def)

lemma deserialize_padding:
  assumes "p < 4"
  shows "deserialize_options (Suc fuel) (of_nat p) (replicate p 0 @ i) ops len
    = Inr (ops @ (if p = 0 then [] else [TcpOptionEnd]), len + of_nat p)"
proof (cases p)
  case (Suc k)
  then have p: "(of_nat p :: u32) \<noteq> 0" "1 \<le> (of_nat p :: u32)" "unat (of_nat p - 1 :: u32) = k"
    "ucast (of_nat p - 1 :: u32) = (of_nat k :: u8)"
  proof -
    from Suc assms consider "k = 0" | "k = 1" | "k = 2" by linarith
    then show "(of_nat p :: u32) \<noteq> 0" "1 \<le> (of_nat p :: u32)" "unat (of_nat p - 1 :: u32) = k"
      "ucast (of_nat p - 1 :: u32) = (of_nat k :: u8)"
      using Suc by (cases; simp)+
  qed
  have n: "Next (Suc 0) (replicate p 0 @ i) = Inr (replicate k 0 @ i)"
    "Next k (replicate k 0 @ i) = Inr i"
    using Suc by (simp_all add: Next_def)
  have "PeekU8 (replicate p 0 @ i) = Inr 0" "IsKindKnown 0"
    using Suc by (simp_all add: PeekU8_def IsKindKnown_def)
  moreover have "OptDeserialize (CreateOption 0) (replicate p 0 @ i) = Inr (TcpOptionEnd, 1)"
    using OptDeserialize_End [of "replicate k 0 @ i"] by (simp add: Suc)
  ultimately show ?thesis
    using n p Suc by (simp del: replicate.simps of_nat_Suc add: add.assoc) simp
qed simp

lemma deserialize_serialized:
  assumes "list_all sendable ops" "serialize_options ops = Inr b" "length ops < fuel"
    and "options_bytes ops + p \<le> 40" "p < 4"
  shows "deserialize_options fuel (of_nat (options_bytes ops + p)) (b @ replicate p 0 @ i) acc len
    = Inr (acc @ ops @ (if p = 0 then [] else [TcpOptionEnd]), len + of_nat (options_bytes ops + p))"
  using assms
proof (induction ops arbitrary: b fuel acc len)
  case Nil
  then obtain f where "fuel = Suc f" by (cases fuel) auto
  with Nil deserialize_padding [OF Nil.prems(5), of f i acc len] show ?case by simp
next
  case (Cons op ops)
  obtain f where f: "fuel = Suc f" using Cons.prems(3) by (cases fuel) auto
  let ?s = "OptSerializedSize op"
  have op: "sendable op" "opt_ok op" "IsKindKnown (GetKind op)" "GetKind op \<noteq> 0" "list_all sendable ops"
    using Cons.prems(1) sendable_def [of op] by simp_all
  obtain b1 b2 where b: "OptSerialize op = Inr (GetKind op # b1)" "Suc (length b1) = unat ?s"
    "serialize_options ops = Inr b2" "b = (GetKind op # b1) @ b2"
    using sendable_size(2) [OF op(1)] serialize_options_ok [OF op(5)] Cons.prems(2) by auto
  have d: "OptDeserialize (CreateOption (GetKind op)) ((GetKind op # b1) @ j) = Inr (op, ?s)" for j
    using OptDeserialize_Serialize [OF op(2) b(1), of j] op(3) by simp
  let ?n = "of_nat (options_bytes (op # ops) + p) :: u32"
  have n: "unat ?n = unat ?s + (options_bytes ops + p)"
    using Cons.prems(4) by (subst unat_of_nat_32) auto
  then have le: "?s \<le> ?n" "?n \<noteq> 0"
    using sendable_size(1) [OF op(1)] by (auto simp: word_le_nat_alt)
  have diff: "?n - ?s = of_nat (options_bytes ops + p)" by simp
  have len: "ucast ?s = (of_nat (unat ?s) :: u8)"
    by simp
  have nx: "Next (unat ?s) ((GetKind op # b1) @ j) = Inr j" for j
    unfolding b(2) [symmetric] using Next_append [of "GetKind op # b1" j] by simp
  have "deserialize_options fuel ?n (b @ replicate p 0 @ i) acc len
      = deserialize_options f (of_nat (options_bytes ops + p)) (b2 @ replicate p 0 @ i) (acc @ [op])
          (len + of_nat (unat ?s))"
    unfolding f b(4) append_assoc
    using le op(3,4) d [of "b2 @ replicate p 0 @ i"] nx [of "b2 @ replicate p 0 @ i"] diff len
    by (simp add: PeekU8_def del: of_nat_add)
  also have "\<dots> = Inr ((acc @ [op]) @ ops @ (if p = 0 then [] else [TcpOptionEnd]),
      len + of_nat (unat ?s) + of_nat (options_bytes ops + p))"
    using Cons.prems(3-5) f by (intro Cons.IH [OF op(5) b(3)]) auto
  finally show ?case by (simp add: add.assoc)
qed

subsection \<open>Lengths\<close>

lemma pad_length_nat: "n \<le> 40 \<Longrightarrow> pad_length (of_nat n) = (4 - n mod 4) mod 4"
proof -
  assume "n \<le> 40"
  then have m: "unat (of_nat n mod 4 :: u32) = n mod 4" by (simp add: unat_mod)
  then have "of_nat n mod 4 \<le> (4 :: u32)" by (simp add: word_le_nat_alt)
  then have "unat (4 - of_nat n mod 4 :: u32) = 4 - n mod 4" by (simp add: unat_sub m)
  then show ?thesis by (simp add: pad_length_def unat_mod)
qed

lemma CalculateHeaderLength_nat:
  assumes "options_bytes (h_options h) \<le> 41"
  shows "unat (CalculateHeaderLength h) = 5 + (options_bytes (h_options h) + 3) div 4"
proof -
  let ?n = "options_bytes (h_options h)"
  define len where "len = 20 + options_size (h_options h)"
  define len' where "len' = (if len mod 4 \<noteq> 0 then len + (4 - len mod 4) else len)"
  have u: "unat len = 20 + ?n"
  proof -
    have "len = of_nat (20 + ?n)" by (simp add: len_def options_size_bytes)
    then show ?thesis using assms unat_of_nat_32 [of "20 + ?n"] by simp
  qed
  have m: "unat (len mod 4) = ?n mod 4"
    using u by (simp add: unat_mod mod_add_self1) presburger
  then have "len mod 4 \<le> 4" by (simp add: word_le_nat_alt)
  then have s: "unat (4 - len mod 4) = 4 - ?n mod 4" by (simp add: unat_sub m)
  have "unat len' = 20 + 4 * ((?n + 3) div 4)"
  proof (cases "?n mod 4 = 0")
    case True
    then have "len mod 4 = 0" using m by (simp add: word_unat_eq_iff)
    moreover have "4 * ((?n + 3) div 4) = ?n" using True by presburger
    ultimately show ?thesis by (simp add: len'_def u)
  next
    case False
    then have "len mod 4 \<noteq> 0" using m by (auto simp: word_unat_eq_iff)
    moreover have "unat (len + (4 - len mod 4)) = unat len + unat (4 - len mod 4)"
      using u s assms by (intro unat_add_lem [THEN iffD1]) simp
    moreover have "?n + (4 - ?n mod 4) = 4 * ((?n + 3) div 4)" using False by presburger
    ultimately show ?thesis by (simp add: len'_def u s)
  qed
  then have "unat (drop_bit 2 len') = 5 + (?n + 3) div 4"
    by (simp add: drop_bit_eq_div unat_div)
  moreover have "CalculateHeaderLength h = ucast (drop_bit 2 len')"
    by (simp add: CalculateHeaderLength_def Let_def len'_def len_def)
  moreover have "5 + (?n + 3) div 4 < 256" using assms by simp
  ultimately show ?thesis
    by (simp add: unat_ucast_mod)
qed

lemma header_field:
  assumes "unat (len :: u8) < 16"
    and field_def: "field = (push_bit 12 (ucast len) OR ucast (flags :: u8) :: u16)"
  shows "ucast (field AND 0xFF) = flags" "ucast (drop_bit 12 field) = len"
proof -
  have "(0xFF :: u16) = mask 8" by (simp add: mask_eq_exp_minus_1)
  then have "field AND 0xFF = take_bit 8 field" by (simp only: take_bit_eq_mask)
  moreover have "ucast (take_bit 8 field) = flags"
    by (rule bit_word_eqI) (auto simp: field_def bit_simps)
  ultimately show "ucast (field AND 0xFF) = flags" by simp
  have len: "take_bit 4 len = len"
    using assms(1) by (intro take_bit_word_self) simp
  then have b: "bit len n \<Longrightarrow> n < 4" for n by (metis bit_take_bit_iff)
  show "ucast (drop_bit 12 field) = len"
    by (rule bit_word_eqI) (auto simp: field_def bit_simps dest: b bit_imp_le_length)
qed

subsection \<open>Round trip\<close>

lemma word_padding:
  "n + (4 - n mod 4) mod 4 = 4 * ((n + 3) div 4)" "(4 - n mod 4) mod 4 = 0 \<longleftrightarrow> n mod 4 = (0 :: nat)"
proof -
  obtain q r where n: "n = 4 * q + r" "r < 4"
    by (metis mult_div_mod_eq mod_less_divisor zero_less_numeral)
  have m: "n mod 4 = r" using n by simp
  have "n + 3 = r + 3 + q * 4" by (simp add: n(1))
  then have d: "(n + 3) div 4 = q + (r + 3) div 4" by simp
  from n(2) have r: "r = 0 \<or> r = 1 \<or> r = 2 \<or> r = 3" by linarith
  then have "r + (4 - r) mod 4 = 4 * ((r + 3) div 4)" by (elim disjE) simp_all
  then show "n + (4 - n mod 4) mod 4 = 4 * ((n + 3) div 4)"
    unfolding m d by (simp add: n(1))
  from r show "(4 - n mod 4) mod 4 = 0 \<longleftrightarrow> n mod 4 = 0"
    unfolding m by (elim disjE) simp_all
qed

lemma hdr_okD:
  assumes "hdr_ok h"
  shows "list_all sendable (h_options h)" "options_bytes (h_options h) \<le> 40" "options_words h \<le> 10"
    "unat (h_length h) = 5 + options_words h"
    "options_bytes (h_options h) + pad_length (options_size (h_options h)) = 4 * options_words h"
    "pad_length (options_size (h_options h)) < 4"
    "pad_length (options_size (h_options h)) = 0 \<longleftrightarrow> options_bytes (h_options h) mod 4 = 0"
proof -
  show o: "list_all sendable (h_options h)" "options_bytes (h_options h) \<le> 40"
    "unat (h_length h) = 5 + options_words h"
    using assms by (simp_all add: hdr_ok_def options_words_def)
  then show "options_words h \<le> 10" by (simp add: options_words_def)
  have p: "pad_length (options_size (h_options h)) = (4 - options_bytes (h_options h) mod 4) mod 4"
    unfolding options_size_bytes using o(2) by (rule pad_length_nat)
  show "options_bytes (h_options h) + pad_length (options_size (h_options h)) = 4 * options_words h"
    unfolding p options_words_def by (rule word_padding(1))
  show "pad_length (options_size (h_options h)) < 4" unfolding p by simp
  show "pad_length (options_size (h_options h)) = 0 \<longleftrightarrow> options_bytes (h_options h) mod 4 = 0"
    unfolding p by (rule word_padding(2))
qed

lemma padded_length:
  assumes "hdr_ok h"
  shows "GetSerializedSize (received h r) = of_nat (20 + 4 * options_words h)"
proof -
  let ?n = "options_bytes (h_options h)"
  have le: "?n \<le> 40" using hdr_okD(2) [OF assms] .
  have "options_bytes (padded (h_options h)) = (if ?n mod 4 = 0 then ?n else ?n + 1)"
    by (simp add: padded_def)
  moreover have "(?n + 1 + 3) div 4 = (?n + 3) div 4" if "?n mod 4 \<noteq> 0"
    using that by presburger
  ultimately have "options_bytes (h_options (received h r)) \<le> 41"
    "(options_bytes (h_options (received h r)) + 3) div 4 = options_words h"
    using le by (auto simp: received_def options_words_def split: if_splits)
  from CalculateHeaderLength_nat [OF this(1)] this(2)
  have u: "unat (CalculateHeaderLength (received h r)) = 5 + options_words h" by simp
  have "CalculateHeaderLength (received h r) = of_nat (unat (CalculateHeaderLength (received h r)))" by simp
  then have "CalculateHeaderLength (received h r) = of_nat (5 + options_words h)" unfolding u .
  moreover have "ucast (of_nat (5 + options_words h) :: u8) = (of_nat (5 + options_words h) :: u32)"
    using hdr_okD(3) [OF assms] by (simp add: unsigned_of_nat take_bit_nat_eq_self del: of_nat_add)
  ultimately have "GetSerializedSize (received h r) = of_nat (5 + options_words h) * 4"
    by (simp only: GetSerializedSize_def)
  then show ?thesis by (simp add: distrib_left distrib_right)
qed

lemma Deserialize_bytes:
  assumes "hdr_ok h" "serialize_options (h_options h) = Inr ob" "length ck = 2"
    and B_def: "B = header_prefix h @ ck @ WriteHtonU16 (h_urgentPointer h) @ ob
    @ replicate (pad_length (options_size (h_options h))) 0 @ payload"
  shows "Deserialize B r =
    bindE (if h_calcChecksum r then
             bindE (CalculateHeaderChecksum (of_nat (length B)) (received h r)) (\<lambda>hc.
             bindE (CalculateIpChecksum (of_nat (length B)) (ucast hc) B) (\<lambda>c.
             Inr ((received h r)\<lparr>h_goodChecksum := (c = 0)\<rparr>)))
           else Inr (received h r))
     (\<lambda>h'. Inr (h', GetSerializedSize h'))"
proof -
  note D = hdr_okD [OF assms(1)]
  define field where "field = (push_bit 12 (ucast (h_length h)) OR ucast (h_flags h) :: u16)"
  let ?p = "pad_length (options_size (h_options h))"
  have f: "ucast (field AND 0xFF) = h_flags h" "ucast (drop_bit 12 field) = h_length h"
    using header_field [OF _ field_def] D(3,4) by simp_all
  have n: "Next 2 (ck @ i) = Inr i" for i
    using Next_append [of ck i] assms(3) by simp
  have "(ucast (h_length h) :: u32) = of_nat (unat (h_length h))" by simp
  then have l: "(ucast (h_length h) - 5) * 4 = (of_nat (options_bytes (h_options h) + ?p) :: u32)"
    unfolding D(4,5) by simp
  have le: "\<not> (ucast m_maxOptionsLen :: u32) < of_nat (options_bytes (h_options h) + ?p)"
    unfolding D(5) using D(3) unat_of_nat_32 [of "4 * options_words h"]
    by (simp add: m_maxOptionsLen_def word_less_nat_alt del: of_nat_mult)
  have "length (h_options h) < options_fuel"
    using length_le_options_bytes [OF D(1)] D(2) by (simp add: options_fuel_def)
  from deserialize_serialized [OF D(1) assms(2) this _ D(6), of payload "[]" 0]
  have o: "deserialize_options options_fuel (of_nat (options_bytes (h_options h) + ?p)) (ob @ replicate ?p 0 @ payload) [] 0
    = Inr (padded (h_options h), of_nat (4 * options_words h))"
    using D(3,5,7) by (simp add: padded_def del: of_nat_add)
  show ?thesis
    unfolding Deserialize_def B_def header_prefix_def append_assoc field_def [symmetric]
    by (cases r) (simp add: n f l le o Let_def received_def
        del: of_nat_add of_nat_mult left_diff_distrib_numeral)
qed

end
