(* ===== verification/TcpHdrProps.thy ===== *)
theory TcpHdrProps
  imports TcpHdr
begin

text \<open>
  Properties of the TCP header as a whole: round trip, checksum, the invariant of
  \<open>AppendOption\<close>, termination of the option parser, and inputs on which it fails.
\<close>

fun addresses_ok :: "Address \<Rightarrow> Address \<Rightarrow> bool" where
  "addresses_ok (Ipv4Address a) (Ipv4Address b) = (length a = 4 \<and> length b = 4)"
| "addresses_ok (Ipv6Address a) (Ipv6Address b) = (length a = 16 \<and> length b = 16)"
| "addresses_ok _ _ = False"


definition demo_header :: TcpHeader where
  "demo_header = snd (AppendOption (TcpOptionTS 7 9) (snd (AppendOption (TcpOptionWinScale 3)
     (new_TcpHeader\<lparr>h_sourcePort := 50, h_sequenceNumber := 0x01020304, h_flags := 16\<rparr>))))"

definition demo_checked :: TcpHeader where
  "demo_checked = EnableChecksums (InitializeChecksum (Ipv4Address [10, 0, 0, 1]) (Ipv4Address [10, 0, 0, 2]) 6
     demo_header)"

subsection \<open>Serialized bytes\<close>

lemma header_prefix_length [simp]: "length (header_prefix h) = 16"
  by (simp add: header_prefix_def)

lemma Serialize_bytes:
  assumes "hdr_ok h"
  obtains ob where "serialize_options (h_options h) = Inr ob" "length ob = options_bytes (h_options h)"
    "Serialize h payload =
      (let B = header_prefix h @ WriteHtonU16 0 @ WriteHtonU16 (h_urgentPointer h) @ ob
             @ replicate (pad_length (options_size (h_options h))) 0 @ payload
       in if h_calcChecksum h then
            bindE (CalculateHeaderChecksum (of_nat (length B)) h) (\<lambda>hc.
            bindE (CalculateIpChecksum (of_nat (length B)) (ucast hc) B) (\<lambda>c.
            Inr (take 16 B @ WriteU16 c @ drop 18 B)))
          else Inr B)"
proof -
  obtain ob where o: "serialize_options (h_options h) = Inr ob" "length ob = options_bytes (h_options h)"
    using serialize_options_ok [OF hdr_okD(1) [OF assms]] by blast
  show thesis
    by (rule that [OF o]) (simp only: Serialize_def o(1) bindE_simps header_prefix_def append_assoc Let_def)
qed

lemma word_sum_WriteU16: "word_sum (WriteU16 c @ i) = unat c + word_sum i"
proof -
  have "unat (ucast c :: u8) + 256 * unat (ucast (drop_bit 8 c) :: u8) = unat c"
    unfolding unat_le16 [symmetric] u16_bytes ..
  then show ?thesis by (simp add: WriteU16_def)
qed

lemma received_addresses:
  "h_source (received h r) = h_source r" "h_destination (received h r) = h_destination r"
  "h_protocol (received h r) = h_protocol r"
  by (simp_all add: received_def)

text \<open>The pseudo header sum exists for two addresses of one family.\<close>

lemma CalculateHeaderChecksum_ok:
  assumes "addresses_ok (h_source h) (h_destination h)"
  shows "\<exists>hc. CalculateHeaderChecksum sz h = Inr hc"
proof (cases "h_source h")
  case (Ipv4Address a)
  with assms obtain b where b: "h_destination h = Ipv4Address b" "length a = 4" "length b = 4"
    by (cases "h_destination h") auto
  let ?B = "a @ b @ [0, h_protocol h, ucast (drop_bit 8 sz), ucast sz]"
  have "length ?B = 12" using b by simp
  then show ?thesis
    using checksum_spec [of ?B 0] Ipv4Address b by (simp add: CalculateHeaderChecksum_def Let_def)
next
  case (Ipv6Address a)
  with assms obtain b where b: "h_destination h = Ipv6Address b" "length a = 16" "length b = 16"
    by (cases "h_destination h") auto
  let ?B = "a @ b @ [0, 0, ucast (drop_bit 8 sz), ucast sz, 0, 0, 0, h_protocol h]"
  have "length ?B = 40" using b by simp
  then show ?thesis
    using checksum_spec [of ?B 0] Ipv6Address b by (simp add: CalculateHeaderChecksum_def Let_def)
qed (use assms in simp)

text \<open>A checksum field that was zero when the sum was taken makes the sum of the patched bytes all ones.\<close>

lemma checksum_patch:
  assumes "length (P @ WriteHtonU16 0 @ R) < 65536" "even (length P)"
    and "CalculateIpChecksum (of_nat (length (P @ WriteHtonU16 0 @ R))) (ucast (hc :: u16)) (P @ WriteHtonU16 0 @ R) = Inr c"
  shows "CalculateIpChecksum (of_nat (length (P @ WriteU16 c @ R))) (ucast hc) (P @ WriteU16 c @ R) = Inr 0"
proof -
  let ?s = "unat hc + word_sum P + word_sum R"
  have hc: "unat (ucast hc :: u32) = unat hc" "unat hc < 65536"
    using unsigned_less [of hc, where 'a = nat] by (simp_all add: unat_ucast_mod)
  have z: "WriteHtonU16 0 = [0, 0]" by (simp add: WriteHtonU16_def)
  have "c = of_nat (65535 - carried ?s)"
    using assms(3) checksum_spec [OF assms(1), of "ucast hc"] hc
    by (simp add: z word_sum_append [OF assms(2)] add.assoc)
  then have c: "unat c = 65535 - carried ?s"
    by (simp add: unsigned_of_nat take_bit_nat_eq_self)
  have "carried (?s + unat c) = 65535"
  proof (cases "?s = 0")
    case True
    then show ?thesis by (simp add: c carried_def)
  next
    case False
    have "?s + unat c = ?s - carried ?s + 65535"
      using carried_le [of ?s] carried_le_self [of ?s] c by linarith
    moreover have "(?s - carried ?s) mod 65535 = 0"
      by (auto simp: carried_def minus_mod_eq_mult_div mod_eq_0_iff_dvd dvd_diff_nat)
    ultimately show ?thesis by (simp add: carried_def)
  qed
  then have "carried (unat (ucast hc :: u32) + word_sum (P @ WriteU16 c @ R)) = 65535"
    using hc(1) by (simp add: word_sum_append [OF assms(2)] word_sum_WriteU16 ac_simps)
  moreover have "length (P @ WriteU16 c @ R) < 65536"
    using assms(1) by simp
  ultimately show ?thesis
    using checksum_spec [of "P @ WriteU16 c @ R" "ucast hc"] hc by simp
qed

subsection \<open>Properties\<close>

text \<open>Parsing what was written, for the headers that \<open>AppendOption\<close> builds.\<close>

lemma parse_written_header:
  assumes "hdr_ok h" "\<not> h_calcChecksum h" "\<not> h_calcChecksum r"
  shows "\<exists>b. Serialize h payload = Inr (b @ payload) \<and> of_nat (length b) = GetSerializedSize (received h r)
    \<and> length b = 20 + 4 * options_words h
    \<and> Deserialize (b @ payload) r = Inr (received h r, of_nat (length b))"
proof (rule Serialize_bytes [OF assms(1), of payload])
  fix ob
  let ?b = "header_prefix h @ WriteHtonU16 0 @ WriteHtonU16 (h_urgentPointer h) @ ob
    @ replicate (pad_length (options_size (h_options h))) 0"
  assume o: "serialize_options (h_options h) = Inr ob" "length ob = options_bytes (h_options h)"
    and s: "Serialize h payload =
      (let B = header_prefix h @ WriteHtonU16 0 @ WriteHtonU16 (h_urgentPointer h) @ ob
             @ replicate (pad_length (options_size (h_options h))) 0 @ payload
       in if h_calcChecksum h then
            bindE (CalculateHeaderChecksum (of_nat (length B)) h) (\<lambda>hc.
            bindE (CalculateIpChecksum (of_nat (length B)) (ucast hc) B) (\<lambda>c.
            Inr (take 16 B @ WriteU16 c @ drop 18 B)))
          else Inr B)"
  have l: "length ?b = 20 + 4 * options_words h"
    using o(2) hdr_okD(5) [OF assms(1)] by simp
  show ?thesis
    using s l Deserialize_bytes [OF assms(1) o(1), of "WriteHtonU16 0" "?b @ payload" payload r] assms(2,3)
      padded_length [OF assms(1), of r]
    by (intro exI [of _ ?b]) (simp del: of_nat_add of_nat_mult add: Let_def)
qed

text \<open>
  C11: the header survives the wire: for every header that \<open>AppendOption\<close> can build,
  \<open>Serialize\<close> writes \<open>GetSerializedSize\<close> bytes in front of the payload, and \<open>Deserialize\<close> of
  them returns this size and gives back every field and every option, with one END
  option behind them where the options were padded.
\<close>

theorem header_roundtrip:
  assumes "hdr_ok h" "\<not> h_calcChecksum h" "\<not> h_calcChecksum r"
  shows "\<exists>b. Serialize h payload = Inr (b @ payload) \<and> of_nat (length b) = GetSerializedSize (received h r)
    \<and> length b = 20 + 4 * options_words h
    \<and> Deserialize (b @ payload) r = Inr (received h r, of_nat (length b))"
  using assms by (rule parse_written_header)

theorem header_roundtrip_witness:
  "\<exists>b. Serialize demo_header [1, 2, 3] = Inr (b @ [1, 2, 3]) \<and> length b = 36
    \<and> Deserialize (b @ [1, 2, 3]) new_TcpHeader = Inr (received demo_header new_TcpHeader, 36)"
proof -
  have "hdr_ok demo_header" "\<not> h_calcChecksum demo_header" "\<not> h_calcChecksum new_TcpHeader"
    "options_words demo_header = 4"
    by code_simp+
  from header_roundtrip [OF this(1-3), of "[1, 2, 3]"] this(4) show ?thesis
    by fastforce
qed

text \<open>
  C34: the checksum that \<open>Serialize\<close> writes verifies: whatever the fields, options and payload
  of a packet of less than 65536 bytes, \<open>Deserialize\<close> with the same addresses and
  protocol sets \<open>m_goodChecksum\<close>.
\<close>

theorem header_checksum_verifies:
  assumes "hdr_ok h" "h_calcChecksum h" "h_calcChecksum r" "addresses_ok (h_source h) (h_destination h)"
    and "h_source r = h_source h" "h_destination r = h_destination h" "h_protocol r = h_protocol h"
    and "20 + 4 * options_words h + length payload < 65536"
  shows "\<exists>b n. Serialize h payload = Inr (b @ payload) \<and> length b = 20 + 4 * options_words h
    \<and> Deserialize (b @ payload) r = Inr ((received h r)\<lparr>h_goodChecksum := True\<rparr>, n)"
proof (rule Serialize_bytes [OF assms(1), of payload])
  fix ob
  let ?R = "WriteHtonU16 (h_urgentPointer h) @ ob @ replicate (pad_length (options_size (h_options h))) 0"
  let ?B = "header_prefix h @ WriteHtonU16 0 @ ?R @ payload"
  let ?n = "of_nat (length ?B) :: u16"
  assume o: "serialize_options (h_options h) = Inr ob" "length ob = options_bytes (h_options h)"
    and s: "Serialize h payload =
      (let B = header_prefix h @ WriteHtonU16 0 @ WriteHtonU16 (h_urgentPointer h) @ ob
             @ replicate (pad_length (options_size (h_options h))) 0 @ payload
       in if h_calcChecksum h then
            bindE (CalculateHeaderChecksum (of_nat (length B)) h) (\<lambda>hc.
            bindE (CalculateIpChecksum (of_nat (length B)) (ucast hc) B) (\<lambda>c.
            Inr (take 16 B @ WriteU16 c @ drop 18 B)))
          else Inr B)"
  have l: "length ?B = 20 + 4 * options_words h + length payload"
    using o(2) hdr_okD(5) [OF assms(1)] by simp
  then have lt: "length ?B < 65536" using assms(8) by simp
  obtain hc where hc: "CalculateHeaderChecksum ?n h = Inr hc"
    using CalculateHeaderChecksum_ok [OF assms(4)] by blast
  have "CalculateHeaderChecksum sz (received h r) = CalculateHeaderChecksum sz h" for sz
    unfolding CalculateHeaderChecksum_def received_addresses assms(5-7) ..
  with hc have hr: "CalculateHeaderChecksum ?n (received h r) = Inr hc" by (simp only:)
  have "unat (ucast hc :: u32) < 65536"
    using unsigned_less [of hc, where 'a = nat] by (simp add: unat_ucast_mod)
  from checksum_spec [OF lt this] obtain c where c: "CalculateIpChecksum ?n (ucast hc) ?B = Inr c" by blast
  let ?b = "header_prefix h @ WriteU16 c @ ?R"
  have "Serialize h payload = Inr (?b @ payload)"
    unfolding s Let_def append_assoc [symmetric] using hc c assms(2)
    by (simp only: if_True append_assoc bindE_simps) simp
  moreover have "length (?b @ payload) = length ?B" by simp
  moreover have "CalculateIpChecksum ?n (ucast hc) (?b @ payload) = Inr 0"
    using checksum_patch [of "header_prefix h" "?R @ payload" hc c] lt c by simp
  ultimately show ?thesis
    using Deserialize_bytes [OF assms(1) o(1), of "WriteU16 c" "?b @ payload" payload r] assms(3) hr l
    by (intro exI [of _ ?b]) simp
qed

theorem header_checksum_verifies_witness:
  "\<exists>b n. Serialize demo_checked [1, 2, 3] = Inr (b @ [1, 2, 3])
    \<and> Deserialize (b @ [1, 2, 3]) demo_checked = Inr ((received demo_checked demo_checked)\<lparr>h_goodChecksum := True\<rparr>, n)"
proof -
  have "hdr_ok demo_checked" "h_calcChecksum demo_checked" "addresses_ok (h_source demo_checked) (h_destination demo_checked)"
    "options_words demo_checked = 4"
    by code_simp+
  from header_checksum_verifies [OF this(1,2,2,3) refl refl refl, of "[1, 2, 3]"] this(4) show ?thesis
    by fastforce
qed

subsection \<open>Building headers\<close>

lemma opt_size_small:
  assumes "opt_ok op"
  shows "unat (OptSerializedSize op) \<le> 250"
proof (cases op)
  case (TcpOptionSack l)
  with assms sack_length(1) [of "length l"] show ?thesis
    by (simp add: GetNumSackBlocks_def add.commute)
next
  case (TcpOptionUnknown kind sz content)
  with assms unknown_length(3) [of sz] show ?thesis by simp
qed simp_all

lemma append_option_cases:
  assumes "hdr_ok h" "opt_ok op"
  shows "(case AppendOption op h of (ok, h') \<Rightarrow> hdr_ok h'
    \<and> (ok \<longleftrightarrow> IsKindKnown (GetKind op) \<and> options_bytes (h_options h) + unat (OptSerializedSize op) \<le> 40)
    \<and> h_options h' = h_options h @ (if ok \<and> GetKind op \<noteq> 0 then [op] else []))"
proof -
  let ?n = "options_bytes (h_options h)" and ?s = "OptSerializedSize op"
  have n: "unat (h_optionsLen h) = ?n" "?n \<le> 40" using assms(1) by (simp_all add: hdr_ok_def)
  have "unat (ucast (h_optionsLen h) :: u32) = ?n" using n by (simp add: unat_ucast_mod)
  then have u: "unat (ucast (h_optionsLen h) + ?s) = ?n + unat ?s"
    using opt_size_small [OF assms(2)] n(2) by (subst unat_add_lem [THEN iffD1]) simp_all
  have fits: "ucast (h_optionsLen h) + ?s \<le> ucast m_maxOptionsLen \<longleftrightarrow> ?n + unat ?s \<le> 40"
    unfolding word_le_nat_alt u by (simp add: m_maxOptionsLen_def)
  have len: "unat (h_optionsLen h + ucast ?s) = ?n + unat ?s"
    "unat (ucast (drop_bit 2 (20 + 3 + ucast (h_optionsLen h + ucast ?s) :: u32)) :: u8) = 5 + (?n + unat ?s + 3) div 4"
    if "?n + unat ?s \<le> 40"
  proof -
    have "unat (ucast ?s :: u8) = unat ?s" using that by (simp add: unat_ucast_mod)
    then show l: "unat (h_optionsLen h + ucast ?s) = ?n + unat ?s"
      using that n(1) by (subst unat_add_lem [THEN iffD1]) simp_all
    have "(ucast (h_optionsLen h + ucast ?s) :: u32) = of_nat (unat (h_optionsLen h + ucast ?s))" by simp
    then have "20 + 3 + ucast (h_optionsLen h + ucast ?s) = (of_nat (23 + (?n + unat ?s)) :: u32)"
      unfolding l by simp
    then have "unat (20 + 3 + ucast (h_optionsLen h + ucast ?s) :: u32) = 23 + (?n + unat ?s)"
      using that unat_of_nat_32 [of "23 + (?n + unat ?s)"] by simp
    then have "unat (drop_bit 2 (20 + 3 + ucast (h_optionsLen h + ucast ?s) :: u32)) = (23 + (?n + unat ?s)) div 4"
      by (simp only: drop_bit_eq_div unat_div) simp
    then show "unat (ucast (drop_bit 2 (20 + 3 + ucast (h_optionsLen h + ucast ?s) :: u32)) :: u8)
      = 5 + (?n + unat ?s + 3) div 4"
      using that unfolding unat_ucast_mod by simp
  qed
  show ?thesis
    using assms fits len by (auto simp: AppendOption_def Let_def hdr_ok_def sendable_def)
qed

text \<open>
  \<open>AppendOption\<close> accepts an option iff its kind is known and it fits into the 40 bytes
  of option space, appends it unless it is END, and keeps the length fields equal to the
  sizes of the options, so every header it builds can be serialized.
\<close>

theorem append_option_exact:
  assumes "hdr_ok h" "opt_ok op"
  shows "(case AppendOption op h of (ok, h') \<Rightarrow> hdr_ok h'
    \<and> (ok \<longleftrightarrow> IsKindKnown (GetKind op) \<and> options_bytes (h_options h) + unat (OptSerializedSize op) \<le> 40)
    \<and> h_options h' = h_options h @ (if ok \<and> GetKind op \<noteq> 0 then [op] else []))"
  using assms by (rule append_option_cases)

theorem append_option_exact_witness:
  "hdr_ok (snd (AppendOption (TcpOptionSack [(1, 2)]) demo_header)) \<and> fst (AppendOption (TcpOptionSack [(1, 2)]) demo_header)"
proof -
  have "hdr_ok demo_header" "options_bytes (h_options demo_header) = 13" by code_simp+
  then show ?thesis
    using append_option_exact [of demo_header "TcpOptionSack [(1, 2)]"]
    by (auto simp: IsKindKnown_def GetNumSackBlocks_def split: prod.splits)
qed

subsection \<open>Termination of the option parser\<close>











text \<open>
  C39: an unknown option with a zero length byte makes the parser loop for ever: its size 0
  equals the size that \<open>GetSerializedSize\<close> returns, so it is accepted without
  consuming input, whatever the number of iterations.
\<close>

theorem option_parser_loops_on_zero_length:
  assumes "\<not> IsKindKnown kind" "optionLen \<noteq> 0"
  shows "deserialize_options fuel optionLen (kind # 0 # i) ops len = Inl (Diverges 353)"
proof (induction fuel arbitrary: ops len)
  case (Suc fuel)
  have "CreateOption 255 = TcpOptionUnknown 255 0 []" by (simp add: CreateOption_def)
  moreover have "kind \<noteq> 0" using assms(1) by (auto simp: IsKindKnown_def)
  ultimately show ?case
    using assms Suc.IH by (simp add: PeekU8_def Next_def)
qed simp

theorem option_parser_loops_on_zero_length_witness:
  "deserialize_options 1000000 4 [254, 0, 0, 0] [] 0 = Inl (Diverges 353)"
  by (rule option_parser_loops_on_zero_length) (simp_all add: IsKindKnown_def)

text \<open>
  \<open>Deserialize\<close> reports too short a header when more than a word of padding follows
  END: with a data offset of seven words and option bytes that are all END, it returns 24
  instead of 28, so the last four header bytes are taken for payload.
\<close>

theorem header_size_wrong_after_end:
  "(case Deserialize ([0, 1, 0, 2, 0, 0, 0, 3, 0, 0, 0, 4, 0x70, 16, 0, 9, 0, 0, 0, 0] @ replicate 8 0 @ [65, 66])
       new_TcpHeader of
      Inr (h, n) \<Rightarrow> h_length h = 7 \<and> h_optionsLen h = 8 \<and> h_options h = [TcpOptionEnd] \<and> n = 24
    | Inl _ \<Rightarrow> False)"
  by code_simp

end
