(* ===== verification/TcpState.thy ===== *)
theory TcpState
  imports TxBuffer Complex_Main
begin

text \<open>
  The congestion state shared by the socket, the congestion control and the
  recovery algorithm: class \<open>TcpSocketState\<close> of
  src/internet/model/tcp-socket-state.h with its enumerations.  A \<open>TracedValue\<close> is
  the value it traces.  \<open>DataRate\<close> is its bit rate.  The receive buffer, which
  the class only points to, is kept by the socket.
\<close>

datatype TcpCongState =
  CA_OPEN | CA_DISORDER | CA_CWR | CA_RECOVERY | CA_LOSS | CA_LAST_STATE

datatype TcpCAEvent =
  CA_EVENT_TX_START | CA_EVENT_CWND_RESTART | CA_EVENT_COMPLETE_CWR | CA_EVENT_LOSS
  | CA_EVENT_ECN_NO_CE | CA_EVENT_ECN_IS_CE | CA_EVENT_DELAYED_ACK | CA_EVENT_NON_DELAYED_ACK

datatype UseEcn = EcnOff | EcnOn | AcceptOnly

datatype EcnCodePoint = NotECT | Ect1 | Ect0 | CongExp

datatype EcnMode = ClassicEcn | DctcpEcn

datatype EcnState =
  ECN_DISABLED | ECN_IDLE | ECN_CE_RCVD | ECN_SENDING_ECE | ECN_ECE_RCVD | ECN_CWR_SENT

record TcpSocketState =
  m_cWnd :: u32
  m_cWndInfl :: u32
  m_ssThresh :: u32
  m_initialCWnd :: u32
  m_initialSsThresh :: u32
  m_isRetransDataAcked :: bool
  m_segmentSize :: u32
  m_lastAckedSeq :: seq
  m_congState :: TcpCongState
  m_ecnState :: EcnState
  m_highTxMark :: seq
  m_nextTxSequence :: seq
  m_rcvTimestampValue :: u32
  m_rcvTimestampEchoReply :: u32
  m_rcvCwndValue :: u32
  m_pacing :: bool
  m_maxPacingRate :: u64
  m_pacingRate :: u64
  m_pacingSsRatio :: u16
  m_pacingCaRatio :: u16
  m_paceInitialWindow :: bool
  m_minRtt :: time
  m_bytesInFlight :: u32
  m_lastRtt :: time
  m_ecnMode :: EcnMode
  m_useEcn :: UseEcn
  m_ectCodePoint :: EcnCodePoint
  m_lastAckedSackedBytes :: u32

definition new_TcpSocketState :: TcpSocketState where
  "new_TcpSocketState =
    \<lparr> m_cWnd = 0, m_cWndInfl = 0, m_ssThresh = 0, m_initialCWnd = 0, m_initialSsThresh = 0,
      m_isRetransDataAcked = False, m_segmentSize = 0, m_lastAckedSeq = 0, m_congState = CA_OPEN,
      m_ecnState = ECN_DISABLED, m_highTxMark = 0, m_nextTxSequence = 0, m_rcvTimestampValue = 0,
      m_rcvTimestampEchoReply = 0, m_rcvCwndValue = 0, m_pacing = False, m_maxPacingRate = 0,
      m_pacingRate = 0, m_pacingSsRatio = 0, m_pacingCaRatio = 0, m_paceInitialWindow = False,
      m_minRtt = Time_Max, m_bytesInFlight = 0, m_lastRtt = 0, m_ecnMode = ClassicEcn,
      m_useEcn = EcnOff, m_ectCodePoint = Ect0, m_lastAckedSackedBytes = 0 \<rparr>"

text \<open>Integer division and remainder of C++ on \<open>uint32_t\<close>: undefined for a zero divisor.\<close>

definition u32_div :: "nat \<Rightarrow> u32 \<Rightarrow> u32 \<Rightarrow> u32 result" where
  "u32_div line x y = (if y = 0 then Inl (Undefined line) else Inr (x div y))"

definition GetCwndInSegments :: "TcpSocketState \<Rightarrow> u32 result" where
  "GetCwndInSegments tcb = u32_div 232 (m_cWnd tcb) (m_segmentSize tcb)"

definition GetSsThreshInSegments :: "TcpSocketState \<Rightarrow> u32 result" where
  "GetSsThreshInSegments tcb = u32_div 242 (m_ssThresh tcb) (m_segmentSize tcb)"

text \<open>
  \<open>Time\<close> times a floating-point factor (src/core/model/nstime.h): the product
  is rounded to the nearest tick, halves away from zero.  The factor is an exact
  rational; the 64 fractional bits of \<open>int64x64_t\<close> are not truncated.
\<close>

definition round_away :: "rat \<Rightarrow> int" where
  "round_away x = (if x < 0 then - \<lfloor>- x + 1 / 2\<rfloor> else \<lfloor>x + 1 / 2\<rfloor>)"

definition time_scale :: "time \<Rightarrow> rat \<Rightarrow> time" where
  "time_scale t a = round_away (of_int t * a)"

definition Time_Min :: time where
  "Time_Min = - 0x8000000000000000"

subsection \<open>Facts\<close>

lemma u32_div_ok [simp]: "0 < y \<Longrightarrow> u32_div l x y = Inr (x div y)"
  by (simp add: u32_div_def word_gt_0)

lemma sint_small: "unat (x :: u32) < 2 ^ 31 \<Longrightarrow> sint x = int (unat x)"
proof -
  assume lt: "unat x < 2 ^ 31"
  have "sint (word_of_int (int (unat x)) :: u32) = int (unat x)"
  proof (rule sint_word_of_int_32)
    have "int (unat x) < int (2 ^ 31)"
      using lt by (simp only: of_nat_less_iff)
    then show "int (unat x) < 2 ^ 31"
      by simp
    show "- (2 ^ 31) \<le> int (unat x)"
      by (rule order_trans [of _ 0]) simp_all
  qed
  then show ?thesis
    by simp
qed

lemma round_away_of_int [simp]: "round_away (of_int z) = z"
proof -
  have a: "\<lfloor>of_int w + 1 / 2 :: rat\<rfloor> = w" for w
    by (rule floor_unique) simp_all
  from a [of z] a [of "- z"] show ?thesis
    by (simp add: round_away_def)
qed

lemma round_away_mono_pos: "0 \<le> x \<Longrightarrow> x \<le> y \<Longrightarrow> round_away x \<le> round_away y"
  by (simp add: round_away_def floor_mono)

end
