(* ===== verification/CongestionOps.thy ===== *)
theory CongestionOps
  imports TcpState
begin

text \<open>
  The congestion control algorithms of src/internet/model: the base class
  \<open>TcpCongestionOps\<close> and \<open>TcpNewReno\<close> (tcp-congestion-ops.cc), \<open>TcpLinuxReno\<close>
  (tcp-linux-reno.cc) and the loss-differentiating \<open>TcpCerl\<close>, \<open>TcpCerlPlus\<close> and
  \<open>TcpCerlX\<close> (tcp-cerl.cc).  An operation takes the algorithm's own members and
  the shared \<open>TcpSocketState\<close>.

  \<open>double\<close> quotients of two 32-bit integers are only truncated or compared with
  integers here, where rounding to 53 bits cannot change the result, and are written
  as integer divisions.
\<close>

subsection \<open>TcpCongestionOps\<close>

definition Base_IncreaseWindow :: "TcpSocketState \<Rightarrow> u32 \<Rightarrow> TcpSocketState" where
  "Base_IncreaseWindow tcb segmentsAcked = tcb"

definition Base_PktsAcked :: "TcpSocketState \<Rightarrow> u32 \<Rightarrow> time \<Rightarrow> TcpSocketState" where
  "Base_PktsAcked tcb segmentsAcked rtt = tcb"

definition Base_CongestionStateSet :: "TcpSocketState \<Rightarrow> TcpCongState \<Rightarrow> TcpSocketState" where
  "Base_CongestionStateSet tcb newState = tcb"

definition Base_CwndEvent :: "TcpSocketState \<Rightarrow> TcpCAEvent \<Rightarrow> TcpSocketState" where
  "Base_CwndEvent tcb event = tcb"

definition Base_HasCongControl :: bool where
  "Base_HasCongControl = False"

definition Base_CongControl :: "TcpSocketState \<Rightarrow> TcpSocketState" where
  "Base_CongControl tcb = tcb"

definition Base_ExitRecovery :: "TcpSocketState \<Rightarrow> TcpSocketState" where
  "Base_ExitRecovery tcb = tcb\<lparr>m_cWnd := m_ssThresh tcb\<rparr>"

definition Base_EnterRecovery :: "TcpSocketState \<Rightarrow> TcpSocketState" where
  "Base_EnterRecovery tcb = tcb\<lparr>m_cWnd := m_ssThresh tcb\<rparr>"

subsection \<open>TcpNewReno\<close>

definition NewReno_SlowStart :: "TcpSocketState \<Rightarrow> u32 \<Rightarrow> u32 \<times> TcpSocketState" where
  "NewReno_SlowStart tcb segmentsAcked =
    (if segmentsAcked \<ge> 1
     then (segmentsAcked - 1, tcb\<lparr>m_cWnd := m_cWnd tcb + m_segmentSize tcb\<rparr>)
     else (0, tcb))"

text \<open>
  The quotient by a zero window is an infinity, whose conversion to \<open>uint32_t\<close>
  is undefined, unless the numerator is zero too: then it is a NaN, and
  \<open>std::max (1.0, adder)\<close> returns its first argument.
\<close>

definition NewReno_adder :: "TcpSocketState \<Rightarrow> u32 result" where
  "NewReno_adder tcb =
    (let num = m_segmentSize tcb * m_segmentSize tcb in
     if m_cWnd tcb = 0 then if num = 0 then Inr 1 else Inl (Undefined 211)
     else Inr (max 1 (num div m_cWnd tcb)))"

definition NewReno_CongestionAvoidance :: "TcpSocketState \<Rightarrow> u32 \<Rightarrow> TcpSocketState result" where
  "NewReno_CongestionAvoidance tcb segmentsAcked =
    (if segmentsAcked > 0
     then bindE (NewReno_adder tcb) (\<lambda>adder. Inr (tcb\<lparr>m_cWnd := m_cWnd tcb + adder\<rparr>))
     else Inr tcb)"

definition NewReno_IncreaseWindow :: "TcpSocketState \<Rightarrow> u32 \<Rightarrow> TcpSocketState result" where
  "NewReno_IncreaseWindow tcb segmentsAcked =
    (let (segs, tcb1) = (if m_cWnd tcb < m_ssThresh tcb then NewReno_SlowStart tcb segmentsAcked
                         else (segmentsAcked, tcb))
     in if m_cWnd tcb1 \<ge> m_ssThresh tcb1 then NewReno_CongestionAvoidance tcb1 segs else Inr tcb1)"

definition NewReno_GetSsThresh :: "TcpSocketState \<Rightarrow> u32 \<Rightarrow> u32" where
  "NewReno_GetSsThresh state bytesInFlight = max (2 * m_segmentSize state) (bytesInFlight div 2)"

subsection \<open>TcpLinuxReno\<close>

text \<open>Its only member is the counter \<open>m_cWndCnt\<close>.\<close>

definition LinuxReno_SlowStart :: "TcpSocketState \<Rightarrow> u32 \<Rightarrow> (u32 \<times> TcpSocketState) result" where
  "LinuxReno_SlowStart tcb segmentsAcked =
    (if segmentsAcked \<ge> 1 then
       let sndCwnd = m_cWnd tcb;
           tcb1 = tcb\<lparr>m_cWnd := min (sndCwnd + segmentsAcked * m_segmentSize tcb) (m_ssThresh tcb)\<rparr>
       in bindE (u32_div 71 (m_cWnd tcb1 - sndCwnd) (m_segmentSize tcb1))
            (\<lambda>q. Inr (segmentsAcked - q, tcb1))
     else Inr (0, tcb))"

definition LinuxReno_CongestionAvoidance ::
  "u32 \<Rightarrow> TcpSocketState \<Rightarrow> u32 \<Rightarrow> (u32 \<times> TcpSocketState) result" where
  "LinuxReno_CongestionAvoidance cWndCnt tcb segmentsAcked =
    bindE (u32_div 82 (m_cWnd tcb) (m_segmentSize tcb)) (\<lambda>w0.
      let w = (if w0 = 0 then 1 else w0);
          (cnt1, tcb1) = (if cWndCnt \<ge> w then (0, tcb\<lparr>m_cWnd := m_cWnd tcb + m_segmentSize tcb\<rparr>)
                          else (cWndCnt, tcb));
          cnt2 = cnt1 + segmentsAcked
      in Inr (if cnt2 \<ge> w then
                let delta = cnt2 div w
                in (cnt2 - delta * w, tcb1\<lparr>m_cWnd := m_cWnd tcb1 + delta * m_segmentSize tcb1\<rparr>)
              else (cnt2, tcb1)))"

definition LinuxReno_IncreaseWindow ::
  "u32 \<Rightarrow> TcpSocketState \<Rightarrow> u32 \<Rightarrow> (u32 \<times> TcpSocketState) result" where
  "LinuxReno_IncreaseWindow cWndCnt tcb segmentsAcked =
    (if m_cWnd tcb < m_ssThresh tcb
     then bindE (LinuxReno_SlowStart tcb segmentsAcked) (\<lambda>(_, tcb1). Inr (cWndCnt, tcb1))
     else LinuxReno_CongestionAvoidance cWndCnt tcb segmentsAcked)"

definition LinuxReno_GetSsThresh :: "TcpSocketState \<Rightarrow> u32 \<Rightarrow> u32" where
  "LinuxReno_GetSsThresh state bytesInFlight = max (2 * m_segmentSize state) (m_cWnd state div 2)"

subsection \<open>TcpCerl\<close>

record TcpCerl =
  m_oldCwnd :: int
  m_lMax :: time
  m_l :: time
  m_rttMin :: time
  m_A :: rat
  m_enteredRecovery :: bool
  m_decreaseCwnd :: bool
  m_maxSentSeq :: seq

text \<open>\<open>0.55\<close> is the \<open>double\<close> nearest to it.\<close>

definition new_TcpCerl :: TcpCerl where
  "new_TcpCerl =
    \<lparr> m_oldCwnd = - 1, m_lMax = Time_Min, m_l = 0, m_rttMin = Time_Max,
      m_A = 4953959590107546 / 9007199254740992, m_enteredRecovery = False,
      m_decreaseCwnd = False, m_maxSentSeq = 0 \<rparr>"

definition Cerl_SlowStart :: "TcpSocketState \<Rightarrow> u32 \<Rightarrow> u32 \<times> TcpSocketState" where
  "Cerl_SlowStart tcb segmentsAcked =
    (if segmentsAcked \<ge> 1
     then (segmentsAcked - 1, tcb\<lparr>m_cWnd := m_cWnd tcb + m_segmentSize tcb\<rparr>)
     else (0, tcb))"

definition Cerl_CongestionAvoidance :: "TcpSocketState \<Rightarrow> u32 \<Rightarrow> TcpSocketState result" where
  "Cerl_CongestionAvoidance tcb segmentsAcked =
    (if segmentsAcked > 0
     then let num = m_segmentSize tcb * m_segmentSize tcb;
              adder = (if m_cWnd tcb = 0 then if num = 0 then Inr 1 else Inl (Undefined 65)
                       else Inr (max 1 (num div m_cWnd tcb)))
          in bindE adder (\<lambda>a. Inr (tcb\<lparr>m_cWnd := m_cWnd tcb + a\<rparr>))
     else Inr tcb)"

definition Cerl_IncreaseWindow :: "TcpSocketState \<Rightarrow> u32 \<Rightarrow> TcpSocketState result" where
  "Cerl_IncreaseWindow tcb segmentsAcked =
    (let (segs, tcb1) = (if m_cWnd tcb < m_ssThresh tcb then Cerl_SlowStart tcb segmentsAcked
                         else (segmentsAcked, tcb))
     in if m_cWnd tcb1 \<ge> m_ssThresh tcb1 then Cerl_CongestionAvoidance tcb1 segs else Inr tcb1)"

text \<open>
  \<open>GetA\<close> is virtual: \<open>isCongestionLoss\<close> and \<open>GetSsThresh\<close> take its value.
\<close>

definition Cerl_GetA :: "'a TcpCerl_scheme \<Rightarrow> rat" where
  "Cerl_GetA c = m_A c"

definition isCongestionLoss :: "rat \<Rightarrow> 'a TcpCerl_scheme \<Rightarrow> bool" where
  "isCongestionLoss a c \<longleftrightarrow> time_scale (m_lMax c) a \<le> m_l c"

definition Cerl_GetSsThresh :: "rat result \<Rightarrow> 'a TcpCerl_scheme \<Rightarrow> TcpSocketState \<Rightarrow> u32 \<Rightarrow> (u32 \<times> 'a TcpCerl_scheme) result" where
  "Cerl_GetSsThresh getA c state bytesInFlight =
    ns_assert 98 (m_lastAckedSeq state > 0)
     (if \<not> m_enteredRecovery c
      then Inr (max (2 * m_segmentSize state) (bytesInFlight div 2), c)
      else bindE getA (\<lambda>a.
        if seq_gt (m_lastAckedSeq state - 1) (m_maxSentSeq c) \<and> isCongestionLoss a c
        then Inr (max (2 * m_segmentSize state) (bytesInFlight div 2),
                  c\<lparr>m_maxSentSeq := m_highTxMark state, m_decreaseCwnd := True\<rparr>)
        else Inr (m_ssThresh state, c\<lparr>m_oldCwnd := sint (m_cWnd state)\<rparr>)))"

definition Cerl_CongestionStateSet :: "'a TcpCerl_scheme \<Rightarrow> TcpCongState \<Rightarrow> 'a TcpCerl_scheme" where
  "Cerl_CongestionStateSet c newState =
    (if newState = CA_RECOVERY then c\<lparr>m_enteredRecovery := True\<rparr> else c)"

definition Cerl_PktsAcked :: "'a TcpCerl_scheme \<Rightarrow> time \<Rightarrow> 'a TcpCerl_scheme" where
  "Cerl_PktsAcked c rtt =
    (let rttMin = min rtt (m_rttMin c);
         l = rtt - rttMin
     in c\<lparr>m_rttMin := rttMin, m_l := l, m_lMax := max (m_lMax c) l\<rparr>)"

definition Cerl_EnterRecovery :: "'a TcpCerl_scheme \<Rightarrow> TcpSocketState \<Rightarrow> 'a TcpCerl_scheme \<times> TcpSocketState" where
  "Cerl_EnterRecovery c state =
    (if \<not> m_enteredRecovery c then (c, state\<lparr>m_cWnd := m_ssThresh state\<rparr>)
     else
       let c1 = c\<lparr>m_enteredRecovery := False\<rparr>
       in if m_decreaseCwnd c1
          then (c1\<lparr>m_decreaseCwnd := False\<rparr>, state\<lparr>m_cWnd := m_ssThresh state\<rparr>)
          else (c1, state))"

definition Cerl_ExitRecovery :: "'a TcpCerl_scheme \<Rightarrow> TcpSocketState \<Rightarrow> 'a TcpCerl_scheme \<times> TcpSocketState" where
  "Cerl_ExitRecovery c state =
    (if m_oldCwnd c \<ge> 0
     then (c\<lparr>m_oldCwnd := - 1\<rparr>, state\<lparr>m_cWnd := word_of_int (m_oldCwnd c)\<rparr>)
     else (c, state\<lparr>m_cWnd := m_ssThresh state\<rparr>))"

subsection \<open>TcpCerlPlus\<close>

record TcpCerlPlus = TcpCerl +
  m_rttSum :: time
  m_sampleSize :: u32

definition new_TcpCerlPlus :: TcpCerlPlus where
  "new_TcpCerlPlus = TcpCerl.extend new_TcpCerl \<lparr> m_rttSum = 0, m_sampleSize = 0 \<rparr>"

definition CerlPlus_PktsAcked :: "'a TcpCerlPlus_scheme \<Rightarrow> time \<Rightarrow> 'a TcpCerlPlus_scheme" where
  "CerlPlus_PktsAcked c rtt =
    (let c1 = Cerl_PktsAcked c rtt
     in c1\<lparr>m_rttSum := m_rttSum c1 + rtt, m_sampleSize := m_sampleSize c1 + 1\<rparr>)"

definition CerlPlus_GetA :: "'a TcpCerlPlus_scheme \<Rightarrow> rat result" where
  "CerlPlus_GetA c =
    (if m_rttSum c = 0 then Inl (Undefined 250)
     else Inr (of_int (m_rttMin c * int (unat (m_sampleSize c))) / of_int (m_rttSum c)))"

subsection \<open>TcpCerlX\<close>

text \<open>
  A sample is the pair of the round-trip time and its time stamp; the multiset of
  round-trip times is a sorted list.  \<open>AddPkt\<close> keeps the reference
  \<open>lastSample\<close> to the front of the deque, removes the front and reads the
  reference again in line 318, which has no defined meaning: once a sample falls
  out of the window the call has no result.
\<close>

record TcpCerlX = TcpCerlPlus +
  m_samples :: "(time \<times> time) list"
  m_sampleRtts :: "time list"
  m_windowSize :: u32

definition new_TcpCerlX :: TcpCerlX where
  "new_TcpCerlX =
    TcpCerl.extend new_TcpCerl
      \<lparr> m_rttSum = 0, m_sampleSize = 0, m_samples = [], m_sampleRtts = [], m_windowSize = 60 \<rparr>"

definition AddPkt :: "time \<Rightarrow> TcpCerlX \<Rightarrow> time \<times> time \<Rightarrow> TcpCerlX result" where
  "AddPkt now c info =
    (let c1 = c\<lparr>m_samples := m_samples c @ [info], m_sampleRtts := insort (fst info) (m_sampleRtts c)\<rparr>
     in if length (m_samples c1) > 2
           \<and> now - snd (hd (m_samples c1)) > int (unat (m_windowSize c1)) * 1000000000
        then if fst (hd (m_samples c1)) \<in> set (m_sampleRtts c1) then Inl (Undefined 318)
             else Inl (Undefined 312)
        else Inr c1)"

definition CerlX_PktsAcked :: "time \<Rightarrow> TcpCerlX \<Rightarrow> time \<Rightarrow> TcpCerlX result" where
  "CerlX_PktsAcked now c rtt = AddPkt now (CerlPlus_PktsAcked c rtt) (rtt, now)"

subsection \<open>Sequences of acknowledgements\<close>

text \<open>One call of a window growth function for each number of acknowledged segments.\<close>

primrec grow_all ::
  "('s \<Rightarrow> TcpSocketState \<Rightarrow> u32 \<Rightarrow> ('s \<times> TcpSocketState) result) \<Rightarrow> 's \<Rightarrow> TcpSocketState \<Rightarrow> u32 list
   \<Rightarrow> ('s \<times> TcpSocketState) result" where
  "grow_all f s tcb [] = Inr (s, tcb)"
| "grow_all f s tcb (n # ns) = bindE (f s tcb n) (\<lambda>(s1, tcb1). grow_all f s1 tcb1 ns)"

text \<open>The stateless algorithms as such a function.\<close>

definition stateless ::
  "(TcpSocketState \<Rightarrow> u32 \<Rightarrow> TcpSocketState result) \<Rightarrow> unit \<Rightarrow> TcpSocketState \<Rightarrow> u32
   \<Rightarrow> (unit \<times> TcpSocketState) result" where
  "stateless f u tcb n = bindE (f tcb n) (\<lambda>tcb1. Inr (u, tcb1))"

text \<open>Bytes by which the acknowledgements \<open>ns\<close> may open the window at most.\<close>

definition growth_limit :: "TcpSocketState \<Rightarrow> u32 list \<Rightarrow> nat" where
  "growth_limit tcb ns = (\<Sum>n\<leftarrow>ns. (unat n + 2) * unat (m_segmentSize tcb))"

text \<open>
  One loss episode as \<open>TcpSocketBase::EnterRecovery\<close> and the end of recovery in
  \<open>ProcessAck\<close> drive the congestion control.
\<close>

definition cerl_enter :: "TcpCerl \<Rightarrow> TcpSocketState \<Rightarrow> u32 \<Rightarrow> (TcpCerl \<times> TcpSocketState) result" where
  "cerl_enter c tcb bytesInFlight =
    (let c1 = Cerl_CongestionStateSet c CA_RECOVERY;
         tcb1 = tcb\<lparr>m_congState := CA_RECOVERY\<rparr>
     in bindE (Cerl_GetSsThresh (Inr (Cerl_GetA c1)) c1 tcb1 bytesInFlight) (\<lambda>(ssThresh, c2).
          Inr (Cerl_EnterRecovery c2 (tcb1\<lparr>m_ssThresh := ssThresh\<rparr>))))"

definition demo_tcb :: TcpSocketState where
  "demo_tcb = new_TcpSocketState\<lparr>m_cWnd := 5000, m_ssThresh := 4000, m_segmentSize := 1000,
     m_lastAckedSeq := 7001, m_highTxMark := 12001\<rparr>"

subsection \<open>Contract of window growth\<close>

text \<open>
  Every algorithm promises that a call succeeds when the window holds a segment and
  cannot overflow, that it changes nothing but the window, never shrinks it,
  and opens it by at most two segments beyond the acknowledged ones.
\<close>

locale window_growth =
  fixes grow :: "'s \<Rightarrow> TcpSocketState \<Rightarrow> u32 \<Rightarrow> ('s \<times> TcpSocketState) result"
  assumes grows:
    "0 < m_segmentSize tcb \<Longrightarrow> m_segmentSize tcb \<le> m_cWnd tcb \<Longrightarrow>
     unat (m_cWnd tcb) + growth_limit tcb [n] < 2 ^ 32 \<Longrightarrow>
     \<exists>s' w. grow s tcb n = Inr (s', tcb\<lparr>m_cWnd := w\<rparr>) \<and> m_cWnd tcb \<le> w
           \<and> unat w \<le> unat (m_cWnd tcb) + growth_limit tcb [n]"
begin

lemma grow_all_bounded:
  "0 < m_segmentSize tcb \<Longrightarrow> m_segmentSize tcb \<le> m_cWnd tcb \<Longrightarrow>
   unat (m_cWnd tcb) + growth_limit tcb ns < 2 ^ 32 \<Longrightarrow>
   \<exists>s' w. grow_all grow s tcb ns = Inr (s', tcb\<lparr>m_cWnd := w\<rparr>) \<and> m_cWnd tcb \<le> w
         \<and> unat w \<le> unat (m_cWnd tcb) + growth_limit tcb ns"
proof (induction ns arbitrary: s tcb)
  case Nil
  have "tcb = tcb\<lparr>m_cWnd := m_cWnd tcb\<rparr>"
    by simp
  then show ?case
    by (metis Inr_inject dual_order.refl grow_all.simps(1) le_add1)
next
  case (Cons n ns)
  have lim: "growth_limit tcb (n # ns) = growth_limit tcb [n] + growth_limit tcb ns"
    by (simp add: growth_limit_def)
  with Cons.prems have "unat (m_cWnd tcb) + growth_limit tcb [n] < 2 ^ 32"
    by simp
  from grows [OF Cons.prems(1,2) this, of s] obtain s1 w1
    where g: "grow s tcb n = Inr (s1, tcb\<lparr>m_cWnd := w1\<rparr>)" "m_cWnd tcb \<le> w1"
      "unat w1 \<le> unat (m_cWnd tcb) + growth_limit tcb [n]"
    by blast
  let ?t = "tcb\<lparr>m_cWnd := w1\<rparr>"
  have "growth_limit ?t ns = growth_limit tcb ns"
    by (simp add: growth_limit_def)
  with Cons.IH [of ?t s1] g Cons.prems lim obtain s2 w2
    where "grow_all grow s1 ?t ns = Inr (s2, tcb\<lparr>m_cWnd := w2\<rparr>)" "w1 \<le> w2"
      "unat w2 \<le> unat w1 + growth_limit tcb ns"
    by fastforce
  with g lim show ?case
    by fastforce
qed

end

subsection \<open>The algorithms meet the contract\<close>

lemma unat_add_32: "unat x + unat y < 2 ^ 32 \<Longrightarrow> unat (x + y :: u32) = unat x + unat y"
  by (simp add: unat_word_ariths)

lemma unat_mult_le_32: "unat (x * y :: u32) \<le> unat x * unat y"
  by (simp add: unat_word_ariths)

lemma newreno_adder_le:
  assumes "0 < m_segmentSize tcb" "m_segmentSize tcb \<le> m_cWnd tcb"
  obtains a where "NewReno_adder tcb = Inr a" "0 < a" "unat a \<le> unat (m_segmentSize tcb)"
proof -
  let ?s = "m_segmentSize tcb" let ?c = "m_cWnd tcb"
  have c: "?c \<noteq> 0" "0 < unat ?s" "unat ?s \<le> unat ?c"
    using assms by (auto simp: word_le_nat_alt word_less_nat_alt)
  have "unat (?s * ?s) div unat ?c \<le> unat ?s * unat ?s div unat ?s"
    using c unat_mult_le_32 [of ?s ?s] by (meson div_le_mono div_le_mono2 order_trans)
  then have "unat (max 1 (?s * ?s div ?c)) \<le> unat ?s"
    using c by (simp add: max_def unat_div Suc_le_eq)
  moreover have "0 < max 1 (?s * ?s div ?c)"
    by (rule order_less_le_trans [OF _ max.cobounded1]) simp
  ultimately show thesis
    using that c by (simp add: NewReno_adder_def Let_def)
qed

lemma newreno_ca_grows:
  assumes "0 < m_segmentSize tcb" "m_segmentSize tcb \<le> m_cWnd tcb"
    "unat (m_cWnd tcb) + unat (m_segmentSize tcb) < 2 ^ 32"
  shows "\<exists>w. NewReno_CongestionAvoidance tcb n = Inr (tcb\<lparr>m_cWnd := w\<rparr>) \<and> m_cWnd tcb \<le> w
           \<and> unat w \<le> unat (m_cWnd tcb) + unat (m_segmentSize tcb)"
proof (cases "n > 0")
  case True
  from assms newreno_adder_le obtain a
    where a: "NewReno_adder tcb = Inr a" "unat a \<le> unat (m_segmentSize tcb)" by blast
  then have "unat (m_cWnd tcb + a) = unat (m_cWnd tcb) + unat a"
    using assms by (intro unat_add_32) linarith
  with a True show ?thesis
    by (intro exI [of _ "m_cWnd tcb + a"])
      (simp add: NewReno_CongestionAvoidance_def word_le_nat_alt)
next
  case False
  then show ?thesis
    by (intro exI [of _ "m_cWnd tcb"]) (simp add: NewReno_CongestionAvoidance_def)
qed

lemma newreno_in_ca:
  assumes "m_ssThresh tcb \<le> m_cWnd tcb"
  shows "NewReno_IncreaseWindow tcb n = NewReno_CongestionAvoidance tcb n"
proof -
  have "\<not> m_cWnd tcb < m_ssThresh tcb"
    using assms by simp
  with assms show ?thesis
    by (simp add: NewReno_IncreaseWindow_def)
qed

lemma newreno_grows:
  assumes seg: "0 < m_segmentSize tcb" "m_segmentSize tcb \<le> m_cWnd tcb"
    and room: "unat (m_cWnd tcb) + 2 * unat (m_segmentSize tcb) < 2 ^ 32"
  shows "\<exists>w. NewReno_IncreaseWindow tcb n = Inr (tcb\<lparr>m_cWnd := w\<rparr>) \<and> m_cWnd tcb \<le> w
           \<and> unat w \<le> unat (m_cWnd tcb) + 2 * unat (m_segmentSize tcb)"
proof -
  let ?c = "m_cWnd tcb" let ?s = "m_segmentSize tcb"
  have plus: "unat (?c + ?s) = unat ?c + unat ?s"
    using room by (intro unat_add_32) simp
  have ca: "\<exists>w. NewReno_CongestionAvoidance tcb n = Inr (tcb\<lparr>m_cWnd := w\<rparr>) \<and> ?c \<le> w
           \<and> unat w \<le> unat ?c + unat ?s" for n
    by (rule newreno_ca_grows) (use seg room in simp_all)
  have ca2: "\<exists>w. NewReno_CongestionAvoidance (tcb\<lparr>m_cWnd := ?c + ?s\<rparr>) n = Inr (tcb\<lparr>m_cWnd := w\<rparr>)
           \<and> ?c + ?s \<le> w \<and> unat w \<le> unat (?c + ?s) + unat ?s" for n
    using newreno_ca_grows [of "tcb\<lparr>m_cWnd := ?c + ?s\<rparr>" n] seg room plus
    by (simp add: word_le_nat_alt)
  consider "?c < m_ssThresh tcb" "n \<ge> 1" "?c + ?s \<ge> m_ssThresh tcb"
    | "?c < m_ssThresh tcb" "n \<ge> 1" "\<not> ?c + ?s \<ge> m_ssThresh tcb"
    | "?c < m_ssThresh tcb" "\<not> n \<ge> 1"
    | "\<not> ?c < m_ssThresh tcb"
    by blast
  then show ?thesis
  proof cases
    case 1
    then have "NewReno_IncreaseWindow tcb n
        = NewReno_CongestionAvoidance (tcb\<lparr>m_cWnd := ?c + ?s\<rparr>) (n - 1)"
      by (simp add: NewReno_IncreaseWindow_def NewReno_SlowStart_def)
    with ca2 [of "n - 1"] plus show ?thesis
      by (force simp: word_le_nat_alt)
  next
    case 2
    then have "NewReno_IncreaseWindow tcb n = Inr (tcb\<lparr>m_cWnd := ?c + ?s\<rparr>)"
      by (simp add: NewReno_IncreaseWindow_def NewReno_SlowStart_def)
    with plus show ?thesis
      by (intro exI [of _ "?c + ?s"]) (simp add: word_le_nat_alt)
  next
    case 3
    then have "NewReno_IncreaseWindow tcb n = Inr tcb"
      by (simp add: NewReno_IncreaseWindow_def NewReno_SlowStart_def NewReno_CongestionAvoidance_def)
    then show ?thesis
      by (intro exI [of _ ?c]) simp
  next
    case 4
    then have "NewReno_IncreaseWindow tcb n = NewReno_CongestionAvoidance tcb n"
      by (simp add: newreno_in_ca)
    with ca [of n] show ?thesis
      by force
  qed
qed

lemma cerl_is_newreno:
  "m_cWnd tcb \<noteq> 0 \<Longrightarrow> m_cWnd tcb + m_segmentSize tcb \<noteq> 0 \<Longrightarrow>
   Cerl_IncreaseWindow tcb n = NewReno_IncreaseWindow tcb n"
  by (simp add: Cerl_IncreaseWindow_def NewReno_IncreaseWindow_def Cerl_SlowStart_def
      NewReno_SlowStart_def Cerl_CongestionAvoidance_def NewReno_CongestionAvoidance_def
      NewReno_adder_def Let_def)

lemma stateless_Inr: "stateless f u tcb n = Inr (u', t) \<longleftrightarrow> f tcb n = Inr t"
  by (cases "f tcb n") (simp_all add: stateless_def)

lemma growth_limit_one: "growth_limit tcb [n] = (unat n + 2) * unat (m_segmentSize tcb)"
  by (simp add: growth_limit_def)

interpretation newreno: window_growth "stateless NewReno_IncreaseWindow"
proof
  fix tcb n and s :: unit
  assume a: "0 < m_segmentSize tcb" "m_segmentSize tcb \<le> m_cWnd tcb"
    "unat (m_cWnd tcb) + growth_limit tcb [n] < 2 ^ 32"
  have le: "2 * unat (m_segmentSize tcb) \<le> growth_limit tcb [n]"
    by (simp add: growth_limit_one)
  with a newreno_grows [of tcb n] show "\<exists>s' w. stateless NewReno_IncreaseWindow s tcb n
      = Inr (s', tcb\<lparr>m_cWnd := w\<rparr>) \<and> m_cWnd tcb \<le> w
      \<and> unat w \<le> unat (m_cWnd tcb) + growth_limit tcb [n]"
    by (simp add: stateless_Inr) (meson add_le_cancel_left le_less_trans order_trans)
qed

interpretation cerl: window_growth "stateless Cerl_IncreaseWindow"
proof
  fix tcb n and s :: unit
  assume a: "0 < m_segmentSize tcb" "m_segmentSize tcb \<le> m_cWnd tcb"
    "unat (m_cWnd tcb) + growth_limit tcb [n] < 2 ^ 32"
  then have "unat (m_cWnd tcb + m_segmentSize tcb) = unat (m_cWnd tcb) + unat (m_segmentSize tcb)"
    by (intro unat_add_32) (simp add: growth_limit_one)
  moreover have "0 < unat (m_cWnd tcb)"
    using a by (simp add: word_le_nat_alt word_less_nat_alt)
  ultimately have "Cerl_IncreaseWindow tcb n = NewReno_IncreaseWindow tcb n"
    by (intro cerl_is_newreno) auto
  with newreno.grows [OF a] show "\<exists>s' w. stateless Cerl_IncreaseWindow s tcb n
      = Inr (s', tcb\<lparr>m_cWnd := w\<rparr>) \<and> m_cWnd tcb \<le> w
      \<and> unat w \<le> unat (m_cWnd tcb) + growth_limit tcb [n]"
    by (simp add: stateless_Inr)
qed

lemma word_div_mod_small: "\<not> w \<le> x \<Longrightarrow> x div w = 0 \<and> x mod w = (x :: u32)"
  by (simp add: word_unat_eq_iff unat_div unat_mod word_le_nat_alt)

lemma linuxreno_second_step:
  "(if k \<ge> w then (k - k div w * w, t\<lparr>m_cWnd := m_cWnd t + k div w * m_segmentSize t\<rparr>) else (k, t))
   = (k mod w, t\<lparr>m_cWnd := m_cWnd t + k div w * m_segmentSize t\<rparr>)" for k w :: u32
  using word_div_mod_small [of w k] minus_div_mult_eq_mod [of k w] by (cases "w \<le> k") simp_all

text \<open>
  Congestion avoidance of \<open>TcpLinuxReno\<close> with at least a segment in the window: the
  counter is kept modulo the window in segments and each whole window of
  acknowledged segments adds a segment.
\<close>

lemma linuxreno_ca_eq:
  assumes "0 < m_segmentSize tcb" "m_segmentSize tcb \<le> m_cWnd tcb"
    and w: "w = m_cWnd tcb div m_segmentSize tcb"
    and k: "(k, c) = (if cnt \<ge> w then (0, m_cWnd tcb + m_segmentSize tcb) else (cnt, m_cWnd tcb))"
  shows "LinuxReno_CongestionAvoidance cnt tcb n
       = Inr ((k + n) mod w, tcb\<lparr>m_cWnd := c + (k + n) div w * m_segmentSize tcb\<rparr>)"
    and "0 < w"
proof -
  have "unat w = unat (m_cWnd tcb) div unat (m_segmentSize tcb)"
    by (simp add: w unat_div)
  then show pos: "0 < w"
    using assms by (simp add: word_le_nat_alt word_less_nat_alt div_greater_zero_iff)
  have div: "u32_div 82 (m_cWnd tcb) (m_segmentSize tcb) = Inr w"
    using assms by (simp add: w)
  let ?t = "tcb\<lparr>m_cWnd := c\<rparr>"
  have first: "(if cnt \<ge> w then (0, tcb\<lparr>m_cWnd := m_cWnd tcb + m_segmentSize tcb\<rparr>) else (cnt, tcb)) = (k, ?t)"
    using k by (cases "cnt \<ge> w") simp_all
  have "LinuxReno_CongestionAvoidance cnt tcb n
      = Inr (if k + n \<ge> w
             then (k + n - (k + n) div w * w, ?t\<lparr>m_cWnd := m_cWnd ?t + (k + n) div w * m_segmentSize ?t\<rparr>)
             else (k + n, ?t))"
    using pos unfolding LinuxReno_CongestionAvoidance_def div bindE_simps Let_def
    by (simp only: word_neq_0_conv [THEN iffD2] if_False first prod.case)
  then show "LinuxReno_CongestionAvoidance cnt tcb n
       = Inr ((k + n) mod w, tcb\<lparr>m_cWnd := c + (k + n) div w * m_segmentSize tcb\<rparr>)"
    unfolding linuxreno_second_step by simp
qed

lemma linuxreno_delta_le:
  assumes "0 < w" "k < w"
  shows "unat ((k + n) div w :: u32) \<le> unat n"
proof -
  have "unat (k + n) \<le> unat k + unat n"
    by (simp add: unat_word_ariths)
  also have "\<dots> < unat w + unat n * unat w"
    using assms by (simp add: word_less_nat_alt add_less_le_mono)
  finally have "unat (k + n) < Suc (unat n) * unat w"
    by simp
  then have "unat (k + n) div unat w < Suc (unat n)"
    by (rule less_mult_imp_div_less)
  then show ?thesis
    by (simp add: unat_div)
qed

lemma linuxreno_ca_grows:
  assumes a: "0 < m_segmentSize tcb" "m_segmentSize tcb \<le> m_cWnd tcb"
    "unat (m_cWnd tcb) + growth_limit tcb [n] < 2 ^ 32"
  shows "\<exists>k w. LinuxReno_CongestionAvoidance cnt tcb n = Inr (k, tcb\<lparr>m_cWnd := w\<rparr>)
           \<and> m_cWnd tcb \<le> w \<and> unat w \<le> unat (m_cWnd tcb) + growth_limit tcb [n]"
proof -
  define w where "w = m_cWnd tcb div m_segmentSize tcb"
  obtain k c where kc: "(k, c) = (if cnt \<ge> w then (0, m_cWnd tcb + m_segmentSize tcb) else (cnt, m_cWnd tcb))"
    by (metis surj_pair)
  note eq = linuxreno_ca_eq(1) [OF a(1,2) w_def kc, of n] linuxreno_ca_eq(2) [OF a(1,2) w_def kc]
  let ?s = "unat (m_segmentSize tcb)" let ?d = "(k + n) div w"
  have "k < w"
    using kc eq(2) by (cases "cnt \<ge> w") auto
  with linuxreno_delta_le [OF eq(2)] have d: "unat ?d * ?s \<le> unat n * ?s"
    by simp
  have lim: "growth_limit tcb [n] = unat n * ?s + ?s + ?s"
    by (simp add: growth_limit_one algebra_simps)
  have "unat (m_cWnd tcb + m_segmentSize tcb) = unat (m_cWnd tcb) + ?s"
    using a(3) lim by (intro unat_add_32) simp
  then have c: "unat (m_cWnd tcb) \<le> unat c" "unat c \<le> unat (m_cWnd tcb) + ?s"
    using kc by (cases "cnt \<ge> w"; simp)+
  have m: "unat (?d * m_segmentSize tcb) \<le> unat ?d * ?s"
    by (rule unat_mult_le_32)
  then have "unat (c + ?d * m_segmentSize tcb) = unat c + unat (?d * m_segmentSize tcb)"
    using a(3) lim c d by (intro unat_add_32) linarith
  then have "m_cWnd tcb \<le> c + ?d * m_segmentSize tcb"
    "unat (c + ?d * m_segmentSize tcb) \<le> unat (m_cWnd tcb) + growth_limit tcb [n]"
    unfolding word_le_nat_alt using c d m lim by linarith+
  with eq(1) show ?thesis
    by blast
qed

lemma linuxreno_ss_grows:
  assumes a: "0 < m_segmentSize tcb" "m_cWnd tcb < m_ssThresh tcb"
    "unat (m_cWnd tcb) + growth_limit tcb [n] < 2 ^ 32"
  shows "\<exists>r w. LinuxReno_SlowStart tcb n = Inr (r, tcb\<lparr>m_cWnd := w\<rparr>)
           \<and> m_cWnd tcb \<le> w \<and> unat w \<le> unat (m_cWnd tcb) + growth_limit tcb [n]"
proof (cases "n \<ge> 1")
  case True
  let ?w = "min (m_cWnd tcb + n * m_segmentSize tcb) (m_ssThresh tcb)"
  have m: "unat (n * m_segmentSize tcb) \<le> growth_limit tcb [n]"
    using unat_mult_le_32 [of n "m_segmentSize tcb"] by (simp add: growth_limit_one)
  then have "unat (m_cWnd tcb + n * m_segmentSize tcb) = unat (m_cWnd tcb) + unat (n * m_segmentSize tcb)"
    using a(3) by (intro unat_add_32) simp
  with m a(2) have "m_cWnd tcb \<le> ?w" "unat ?w \<le> unat (m_cWnd tcb) + growth_limit tcb [n]"
    by (auto simp: min_def word_le_nat_alt word_less_nat_alt)
  moreover have "LinuxReno_SlowStart tcb n
      = Inr (n - (?w - m_cWnd tcb) div m_segmentSize tcb, tcb\<lparr>m_cWnd := ?w\<rparr>)"
    using True a(1) by (simp add: LinuxReno_SlowStart_def Let_def)
  ultimately show ?thesis
    by blast
next
  case False
  then show ?thesis
    by (intro exI [of _ 0] exI [of _ "m_cWnd tcb"]) (simp add: LinuxReno_SlowStart_def)
qed

interpretation linuxreno: window_growth LinuxReno_IncreaseWindow
proof
  fix tcb n s
  assume a: "0 < m_segmentSize tcb" "m_segmentSize tcb \<le> m_cWnd tcb"
    "unat (m_cWnd tcb) + growth_limit tcb [n] < 2 ^ 32"
  show "\<exists>s' w. LinuxReno_IncreaseWindow s tcb n = Inr (s', tcb\<lparr>m_cWnd := w\<rparr>)
          \<and> m_cWnd tcb \<le> w \<and> unat w \<le> unat (m_cWnd tcb) + growth_limit tcb [n]"
  proof (cases "m_cWnd tcb < m_ssThresh tcb")
    case True
    with linuxreno_ss_grows [OF a(1) True a(3)] show ?thesis
      by (force simp: LinuxReno_IncreaseWindow_def)
  next
    case False
    with linuxreno_ca_grows [OF a] show ?thesis
      by (simp add: LinuxReno_IncreaseWindow_def)
  qed
qed

subsection \<open>Properties\<close>

text \<open>
  For NewReno, Linux Reno and CERL alike, a run of \<open>IncreaseWindow\<close> calls
  on a window that holds at least one segment and has room succeeds, leaves every field of
  the shared state but \<open>m_cWnd\<close> as it is, never shrinks the window and opens
  it by at most two segments per call beyond the acknowledged ones.
\<close>

theorem window_growth_bounded:
  assumes "0 < m_segmentSize tcb" "m_segmentSize tcb \<le> m_cWnd tcb"
    and "unat (m_cWnd tcb) + growth_limit tcb ns < 2 ^ 32"
  shows "(\<exists>w. grow_all (stateless NewReno_IncreaseWindow) () tcb ns = Inr ((), tcb\<lparr>m_cWnd := w\<rparr>)
           \<and> m_cWnd tcb \<le> w \<and> unat w \<le> unat (m_cWnd tcb) + growth_limit tcb ns)
    \<and> (\<exists>w. grow_all (stateless Cerl_IncreaseWindow) () tcb ns = Inr ((), tcb\<lparr>m_cWnd := w\<rparr>)
           \<and> m_cWnd tcb \<le> w \<and> unat w \<le> unat (m_cWnd tcb) + growth_limit tcb ns)
    \<and> (\<exists>cnt' w. grow_all LinuxReno_IncreaseWindow cnt tcb ns = Inr (cnt', tcb\<lparr>m_cWnd := w\<rparr>)
           \<and> m_cWnd tcb \<le> w \<and> unat w \<le> unat (m_cWnd tcb) + growth_limit tcb ns)"
  using newreno.grow_all_bounded [OF assms, of "()"] cerl.grow_all_bounded [OF assms, of "()"]
    linuxreno.grow_all_bounded [OF assms, of cnt] by simp

theorem window_growth_bounded_witness:
  "\<exists>w. grow_all (stateless NewReno_IncreaseWindow) () demo_tcb [1, 2] = Inr ((), demo_tcb\<lparr>m_cWnd := w\<rparr>)
     \<and> 5000 \<le> w \<and> unat w \<le> 12000"
proof -
  have "growth_limit demo_tcb [1, 2] = 7000" "m_cWnd demo_tcb = 5000" "m_segmentSize demo_tcb = 1000"
    by (simp_all add: demo_tcb_def new_TcpSocketState_def growth_limit_def)
  with window_growth_bounded [of demo_tcb "[1, 2]"] show ?thesis
    by simp
qed

lemma newreno_ca_step:
  assumes th: "m_ssThresh tcb \<le> m_cWnd tcb" and n: "0 < n" and seg: "unat (m_segmentSize tcb) < 2 ^ 16"
    and c0: "0 < c0" "c0 \<le> unat (m_cWnd tcb)" "c0 \<le> unat (m_segmentSize tcb) * unat (m_segmentSize tcb)"
    and room: "unat (m_cWnd tcb) + unat (m_segmentSize tcb) * unat (m_segmentSize tcb) div c0 < 2 ^ 32"
  shows "\<exists>w. NewReno_IncreaseWindow tcb n = Inr (tcb\<lparr>m_cWnd := w\<rparr>) \<and> unat (m_cWnd tcb) < unat w
           \<and> unat w \<le> unat (m_cWnd tcb) + unat (m_segmentSize tcb) * unat (m_segmentSize tcb) div c0"
proof -
  define s where "s = unat (m_segmentSize tcb)"
  define a where "a = max 1 (m_segmentSize tcb * m_segmentSize tcb div m_cWnd tcb)"
  have "s * s \<le> (2 ^ 16 - 1) * (2 ^ 16 - 1)"
    using seg unfolding s_def by (intro mult_le_mono) simp_all
  then have "unat (m_segmentSize tcb * m_segmentSize tcb) = s * s"
    by (simp add: unat_word_ariths s_def)
  then have q: "unat (m_segmentSize tcb * m_segmentSize tcb div m_cWnd tcb) = s * s div unat (m_cWnd tcb)"
    by (simp add: unat_div)
  have le: "s * s div unat (m_cWnd tcb) \<le> s * s div c0"
    using c0 by (simp add: div_le_mono2)
  have "1 \<le> s * s div c0"
    using c0 by (simp add: s_def Suc_le_eq div_greater_zero_iff)
  with q le have a: "unat a \<le> s * s div c0" "1 \<le> unat a"
    unfolding a_def by (simp_all add: max_def word_le_nat_alt)
  then have sm: "unat (m_cWnd tcb + a) = unat (m_cWnd tcb) + unat a"
    using room by (intro unat_add_32) (simp add: s_def)
  have "m_cWnd tcb \<noteq> 0"
    using c0 by auto
  then have "NewReno_IncreaseWindow tcb n = Inr (tcb\<lparr>m_cWnd := m_cWnd tcb + a\<rparr>)"
    using n by (simp add: newreno_in_ca [OF th] NewReno_CongestionAvoidance_def
        NewReno_adder_def Let_def a_def)
  with a sm show ?thesis
    unfolding s_def by (intro exI [of _ "m_cWnd tcb + a"]) simp
qed

lemma newreno_ca_run:
  assumes "m_ssThresh tcb \<le> m_cWnd tcb" "\<forall>n \<in> set ns. 0 < n" "unat (m_segmentSize tcb) < 2 ^ 16"
    and "0 < c0" "c0 \<le> unat (m_cWnd tcb)" "c0 \<le> unat (m_segmentSize tcb) * unat (m_segmentSize tcb)"
    and "unat (m_cWnd tcb) + length ns * (unat (m_segmentSize tcb) * unat (m_segmentSize tcb) div c0) < 2 ^ 32"
  shows "\<exists>w. grow_all (stateless NewReno_IncreaseWindow) () tcb ns = Inr ((), tcb\<lparr>m_cWnd := w\<rparr>)
           \<and> unat (m_cWnd tcb) + length ns \<le> unat w
           \<and> unat w \<le> unat (m_cWnd tcb) + length ns * (unat (m_segmentSize tcb) * unat (m_segmentSize tcb) div c0)"
  using assms
proof (induction ns arbitrary: tcb)
  case Nil
  show ?case
    by (intro exI [of _ "m_cWnd tcb"]) simp
next
  case (Cons n ns)
  let ?a = "unat (m_segmentSize tcb) * unat (m_segmentSize tcb) div c0"
  from Cons.prems newreno_ca_step [of tcb n c0] obtain w1
    where w1: "NewReno_IncreaseWindow tcb n = Inr (tcb\<lparr>m_cWnd := w1\<rparr>)" "unat (m_cWnd tcb) < unat w1"
      "unat w1 \<le> unat (m_cWnd tcb) + ?a"
    by auto
  have "\<exists>w. grow_all (stateless NewReno_IncreaseWindow) () (tcb\<lparr>m_cWnd := w1\<rparr>) ns = Inr ((), tcb\<lparr>m_cWnd := w\<rparr>)
      \<and> unat w1 + length ns \<le> unat w \<and> unat w \<le> unat w1 + length ns * ?a"
    using Cons.IH [of "tcb\<lparr>m_cWnd := w1\<rparr>"] Cons.prems w1 by (simp add: word_le_nat_alt)
  then obtain w where w: "grow_all (stateless NewReno_IncreaseWindow) () (tcb\<lparr>m_cWnd := w1\<rparr>) ns
      = Inr ((), tcb\<lparr>m_cWnd := w\<rparr>)" "unat w1 + length ns \<le> unat w" "unat w \<le> unat w1 + length ns * ?a"
    by blast
  moreover have "stateless NewReno_IncreaseWindow () tcb n = Inr ((), tcb\<lparr>m_cWnd := w1\<rparr>)"
    by (simp add: stateless_Inr w1)
  ultimately show ?case
    using w1 by (intro exI [of _ w]) simp
qed

text \<open>
  C32: NewReno in congestion avoidance opens the window by at most one segment per
  round-trip time: over at most \<open>m_cWnd / m_segmentSize\<close> acknowledgements (each
  of at least one segment) every call succeeds, and the window grows by at least a
  byte per acknowledgement and by at most one segment altogether, nothing else being
  changed.
\<close>

theorem newreno_one_segment_per_rtt:
  assumes "m_ssThresh tcb \<le> m_cWnd tcb" "\<forall>n \<in> set ns. 0 < n"
    and "unat (m_segmentSize tcb) < 2 ^ 16" "0 < m_cWnd tcb"
    and "unat (m_cWnd tcb) \<le> unat (m_segmentSize tcb) * unat (m_segmentSize tcb)"
    and "length ns * unat (m_segmentSize tcb) \<le> unat (m_cWnd tcb)"
    and "unat (m_cWnd tcb) + unat (m_segmentSize tcb) < 2 ^ 32"
  shows "\<exists>w. grow_all (stateless NewReno_IncreaseWindow) () tcb ns = Inr ((), tcb\<lparr>m_cWnd := w\<rparr>)
           \<and> unat (m_cWnd tcb) + length ns \<le> unat w
           \<and> unat w \<le> unat (m_cWnd tcb) + unat (m_segmentSize tcb)"
proof -
  define s c where "s = unat (m_segmentSize tcb)" and "c = unat (m_cWnd tcb)"
  have c: "0 < c"
    using assms(4) by (simp add: c_def word_less_nat_alt)
  have "length ns * (s * s div c) * c \<le> length ns * (s * s)"
    unfolding mult.assoc by (intro mult_le_mono2 div_times_less_eq_dividend)
  then have "length ns * (s * s div c) \<le> length ns * (s * s) div c"
    using c by (simp only: less_eq_div_iff_mult_less_eq)
  also have "\<dots> \<le> c * s div c"
    using assms(6) by (intro div_le_mono) (simp add: s_def c_def mult.assoc [symmetric])
  finally have "length ns * (s * s div c) \<le> s"
    using c by simp
  note le = this
  have "\<exists>w. grow_all (stateless NewReno_IncreaseWindow) () tcb ns = Inr ((), tcb\<lparr>m_cWnd := w\<rparr>)
      \<and> c + length ns \<le> unat w \<and> unat w \<le> c + length ns * (s * s div c)"
    unfolding s_def c_def
    by (rule newreno_ca_run) (use assms c le in \<open>simp_all add: s_def c_def\<close>)
  with le show ?thesis
    unfolding s_def c_def by (meson add_left_mono order_trans)
qed

theorem newreno_one_segment_per_rtt_witness:
  "\<exists>w. grow_all (stateless NewReno_IncreaseWindow) () demo_tcb [1, 1, 2, 1, 1] = Inr ((), demo_tcb\<lparr>m_cWnd := w\<rparr>)
     \<and> 5005 \<le> unat w \<and> unat w \<le> 6000"
  using newreno_one_segment_per_rtt [of demo_tcb "[1, 1, 2, 1, 1]"]
  by (simp add: demo_tcb_def new_TcpSocketState_def)

text \<open>
  C31: congestion avoidance of Linux Reno is exact: from a counter below the
  window of \<open>W = m_cWnd div m_segmentSize\<close> segments, \<open>n\<close> acknowledged segments add
  \<open>(m_cWndCnt + n) div W\<close> segments to the window and leave the remainder modulo
  \<open>W\<close> in the counter, so that no acknowledgement is counted twice or lost.
\<close>

theorem linuxreno_avoidance_exact:
  assumes "0 < m_segmentSize tcb" "m_segmentSize tcb \<le> m_cWnd tcb" "m_ssThresh tcb \<le> m_cWnd tcb"
    and "W = unat (m_cWnd tcb) div unat (m_segmentSize tcb)"
    and "unat cnt < W" "unat cnt + unat n < 2 ^ 32"
  shows "LinuxReno_IncreaseWindow cnt tcb n
       = Inr (of_nat ((unat cnt + unat n) mod W),
              tcb\<lparr>m_cWnd := m_cWnd tcb + of_nat ((unat cnt + unat n) div W) * m_segmentSize tcb\<rparr>)"
proof -
  let ?w = "m_cWnd tcb div m_segmentSize tcb"
  have w: "unat ?w = W"
    by (simp add: assms(4) unat_div)
  then have "\<not> ?w \<le> cnt"
    using assms(5) by (simp add: word_le_nat_alt)
  then have eq: "LinuxReno_CongestionAvoidance cnt tcb n
      = Inr ((cnt + n) mod ?w, tcb\<lparr>m_cWnd := m_cWnd tcb + (cnt + n) div ?w * m_segmentSize tcb\<rparr>)"
    using assms(1,2) by (intro linuxreno_ca_eq(1)) simp_all
  have "unat (cnt + n) = unat cnt + unat n"
    using assms(6) by (rule unat_add_32)
  with w have "unat ((cnt + n) mod ?w) = (unat cnt + unat n) mod W"
    "unat ((cnt + n) div ?w) = (unat cnt + unat n) div W"
    by (simp_all add: unat_mod unat_div)
  then have "(cnt + n) mod ?w = of_nat ((unat cnt + unat n) mod W)"
    "(cnt + n) div ?w = of_nat ((unat cnt + unat n) div W)"
    by (metis of_nat_unat ucast_id)+
  moreover have "\<not> m_cWnd tcb < m_ssThresh tcb"
    using assms(3) by simp
  ultimately show ?thesis
    using eq by (simp add: LinuxReno_IncreaseWindow_def)
qed

theorem linuxreno_avoidance_exact_witness:
  "LinuxReno_IncreaseWindow 3 demo_tcb 9 = Inr (2, demo_tcb\<lparr>m_cWnd := 7000\<rparr>)"
  using linuxreno_avoidance_exact [of demo_tcb 5 3 9]
  by (simp add: demo_tcb_def new_TcpSocketState_def)

text \<open>
  CERL estimates the bottleneck queue from the history of round-trip times: after
  any non-empty history the base time is its minimum, the current queueing delay is
  the last sample minus that minimum, and the largest queueing delay lies between the
  current one and the span of the history.
\<close>

lemma cerl_estimates_queueing_delay:
  assumes "rtts \<noteq> []" "\<forall>t \<in> set rtts. t \<le> Time_Max"
    and "c = foldl Cerl_PktsAcked new_TcpCerl rtts"
  shows "m_rttMin c = Min (set rtts) \<and> m_l c = last rtts - m_rttMin c
    \<and> 0 \<le> m_l c \<and> m_l c \<le> m_lMax c \<and> m_lMax c \<le> Max (set rtts) - Min (set rtts)"
  unfolding assms(3) using assms(1,2)
proof (induction rtts rule: rev_induct)
  case (snoc t rtts)
  show ?case
  proof (cases "rtts = []")
    case True
    with snoc.prems show ?thesis
      by (simp add: Cerl_PktsAcked_def new_TcpCerl_def Let_def Time_Min_def)
  next
    case False
    define d where "d = foldl Cerl_PktsAcked new_TcpCerl rtts"
    have ih: "m_rttMin d = Min (set rtts)" "0 \<le> m_l d" "m_l d \<le> m_lMax d"
      "m_lMax d \<le> Max (set rtts) - Min (set rtts)"
      using snoc.IH snoc.prems False by (simp_all add: d_def)
    have mm: "Min (set (rtts @ [t])) = min t (Min (set rtts))" "Max (set (rtts @ [t])) = max t (Max (set rtts))"
      using False by simp_all
    from ih show ?thesis
      unfolding foldl_append foldl.simps d_def [symmetric] mm
      by (simp add: Cerl_PktsAcked_def Let_def)
  qed
qed simp

lemma cerl_enter_cases:
  assumes "0 < m_lastAckedSeq tcb"
  shows "cerl_enter c tcb bif =
    (if seq_gt (m_lastAckedSeq tcb - 1) (m_maxSentSeq c) \<and> isCongestionLoss (m_A c) c
     then Inr (c\<lparr>m_maxSentSeq := m_highTxMark tcb, m_decreaseCwnd := False, m_enteredRecovery := False\<rparr>,
               tcb\<lparr>m_congState := CA_RECOVERY, m_ssThresh := max (2 * m_segmentSize tcb) (bif div 2),
                   m_cWnd := max (2 * m_segmentSize tcb) (bif div 2)\<rparr>)
     else let c1 = c\<lparr>m_oldCwnd := sint (m_cWnd tcb), m_enteredRecovery := False\<rparr>;
              t1 = tcb\<lparr>m_congState := CA_RECOVERY\<rparr>
          in Inr (if m_decreaseCwnd c then (c1\<lparr>m_decreaseCwnd := False\<rparr>, t1\<lparr>m_cWnd := m_ssThresh tcb\<rparr>)
                  else (c1, t1)))"
proof -
  have "isCongestionLoss (m_A c) (c\<lparr>m_enteredRecovery := True\<rparr>) = isCongestionLoss (m_A c) c"
    by (simp add: isCongestionLoss_def)
  with assms show ?thesis
    by (cases c, cases tcb)
      (simp add: cerl_enter_def Cerl_CongestionStateSet_def Cerl_GetSsThresh_def Cerl_GetA_def
        Cerl_EnterRecovery_def Let_def)
qed

text \<open>
  C22: a loss that CERL takes for a random one (the queue is short, or this window was
  already reduced) costs nothing: recovery is entered with window and slow start
  threshold unchanged, and when recovery ends the congestion control restores the
  window the loss was met with, whatever recovery did to it.  A loss in a new window
  taken for congestion halves the flight as NewReno does.
\<close>

theorem cerl_keeps_window_on_random_loss:
  assumes "0 < m_lastAckedSeq tcb" "\<not> m_decreaseCwnd c" "unat (m_cWnd tcb) < 2 ^ 31"
    and "\<not> (seq_gt (m_lastAckedSeq tcb - 1) (m_maxSentSeq c) \<and> isCongestionLoss (m_A c) c)"
  shows "\<exists>c1. cerl_enter c tcb bif = Inr (c1, tcb\<lparr>m_congState := CA_RECOVERY\<rparr>)
    \<and> (\<forall>t. m_cWnd (snd (Cerl_ExitRecovery c1 t)) = m_cWnd tcb
          \<and> m_ssThresh (snd (Cerl_ExitRecovery c1 t)) = m_ssThresh t
          \<and> m_oldCwnd (fst (Cerl_ExitRecovery c1 t)) = - 1)"
proof -
  let ?c = "c\<lparr>m_oldCwnd := sint (m_cWnd tcb), m_enteredRecovery := False\<rparr>"
  have "sint (m_cWnd tcb) = int (unat (m_cWnd tcb))"
    using assms(3) by (rule sint_small)
  then have "0 \<le> sint (m_cWnd tcb)" "word_of_int (sint (m_cWnd tcb)) = m_cWnd tcb"
    by simp_all
  then have "m_cWnd (snd (Cerl_ExitRecovery ?c t)) = m_cWnd tcb
      \<and> m_ssThresh (snd (Cerl_ExitRecovery ?c t)) = m_ssThresh t
      \<and> m_oldCwnd (fst (Cerl_ExitRecovery ?c t)) = - 1" for t
    by (simp add: Cerl_ExitRecovery_def)
  moreover have "cerl_enter c tcb bif = Inr (?c, tcb\<lparr>m_congState := CA_RECOVERY\<rparr>)"
    using assms(2) by (simp only: cerl_enter_cases [OF assms(1)] assms(4) if_False Let_def)
  ultimately show ?thesis
    by blast
qed

theorem cerl_keeps_window_on_random_loss_witness:
  "\<exists>c1. cerl_enter (foldl Cerl_PktsAcked new_TcpCerl [40, 100, 45]) demo_tcb 5000
      = Inr (c1, demo_tcb\<lparr>m_congState := CA_RECOVERY\<rparr>)"
proof -
  let ?c = "foldl Cerl_PktsAcked new_TcpCerl [40, 100, 45]"
  have "\<not> m_decreaseCwnd ?c" "\<not> isCongestionLoss (m_A ?c) ?c"
    by (simp_all add: Cerl_PktsAcked_def new_TcpCerl_def Let_def isCongestionLoss_def time_scale_def
        round_away_def Time_Min_def Time_Max_def)
  with cerl_keeps_window_on_random_loss [of demo_tcb ?c 5000] show ?thesis
    by (auto simp: demo_tcb_def new_TcpSocketState_def)
qed

text \<open>
  The sliding window of CERL-X: the first sample that leaves the window is read after
  its removal.
\<close>

lemma cerlx_expired_sample_undefined:
  assumes "m_samples c = (r, t) # xs" "xs \<noteq> []" "r \<in> set (m_sampleRtts c)"
    and "now - t > int (unat (m_windowSize c)) * 1000000000"
  shows "CerlX_PktsAcked now c rtt = Inl (Undefined 318)"
proof -
  have "0 < length xs"
    using assms(2) by simp
  with assms show ?thesis
    by (simp add: CerlX_PktsAcked_def AddPkt_def CerlPlus_PktsAcked_def Cerl_PktsAcked_def Let_def set_insort_key)
qed

end
