(* ===== verification/RecoveryOps.thy ===== *)
theory RecoveryOps
  imports TcpState
begin

text \<open>
  The recovery algorithms: \<open>TcpClassicRecovery\<close> of
  src/internet/model/tcp-recovery-ops.cc and \<open>TcpPrrRecovery\<close>, proportional rate
  reduction, of tcp-prr-recovery.cc.
\<close>

subsection \<open>TcpClassicRecovery\<close>

definition Classic_EnterRecovery :: "TcpSocketState \<Rightarrow> u32 \<Rightarrow> u32 \<Rightarrow> u32 \<Rightarrow> TcpSocketState" where
  "Classic_EnterRecovery tcb dupAckCount unAckDataCount deliveredBytes =
    (let tcb1 = tcb\<lparr>m_cWndInfl := m_cWnd tcb + dupAckCount * m_segmentSize tcb\<rparr>
     in tcb1\<lparr>m_cWnd := m_cWndInfl tcb1\<rparr>)"

definition Classic_DoRecovery :: "TcpSocketState \<Rightarrow> u32 \<Rightarrow> TcpSocketState" where
  "Classic_DoRecovery tcb deliveredBytes =
    (let tcb1 = tcb\<lparr>m_cWndInfl := m_cWndInfl tcb + m_segmentSize tcb\<rparr>
     in tcb1\<lparr>m_cWnd := m_cWndInfl tcb1\<rparr>)"

definition Classic_ExitRecovery :: "TcpSocketState \<Rightarrow> TcpSocketState" where
  "Classic_ExitRecovery tcb = tcb\<lparr>m_cWndInfl := m_ssThresh tcb, m_cWnd := m_ssThresh tcb\<rparr>"

subsection \<open>TcpPrrRecovery\<close>

datatype ReductionBound = CRB | SSRB

record TcpPrrRecovery =
  m_prrDelivered :: u32
  m_prrOut :: u32
  m_recoveryFlightSize :: u32
  m_reductionBoundMode :: ReductionBound

text \<open>
  Line 95: the product of two \<open>uint32_t\<close> wraps before it becomes a \<open>double\<close>; the
  ceiling of the quotient of two 32-bit integers is exact in \<open>double\<close>; the
  conversion of the difference to \<open>int\<close> is undefined out of its range, and so is
  that of the infinity or NaN a zero divisor gives.
\<close>

definition nat_ceil_div :: "nat \<Rightarrow> nat \<Rightarrow> nat" where
  "nat_ceil_div a b = (a + b - 1) div b"

definition prr_proportional :: "TcpPrrRecovery \<Rightarrow> TcpSocketState \<Rightarrow> int result" where
  "prr_proportional p tcb =
    (if m_recoveryFlightSize p = 0 then Inl (Undefined 95)
     else
       let z = int (nat_ceil_div (unat (m_prrDelivered p * m_ssThresh tcb)) (unat (m_recoveryFlightSize p)))
               - int (unat (m_prrOut p))
       in if - (2 ^ 31) \<le> z \<and> z < 2 ^ 31 then Inr z else Inl (Undefined 95))"

definition prr_limit :: "TcpPrrRecovery \<Rightarrow> TcpSocketState \<Rightarrow> u32 \<Rightarrow> int" where
  "prr_limit p tcb deliveredBytes =
    (case m_reductionBoundMode p of
       CRB \<Rightarrow> sint (m_prrDelivered p - m_prrOut p)
     | SSRB \<Rightarrow>
         if m_isRetransDataAcked tcb
         then sint (max (m_prrDelivered p - m_prrOut p) deliveredBytes + m_segmentSize tcb)
         else sint deliveredBytes)"

definition Prr_DoRecovery ::
  "TcpPrrRecovery \<Rightarrow> TcpSocketState \<Rightarrow> u32 \<Rightarrow> (TcpPrrRecovery \<times> TcpSocketState) result" where
  "Prr_DoRecovery p0 tcb deliveredBytes =
    (let p = p0\<lparr>m_prrDelivered := m_prrDelivered p0 + deliveredBytes\<rparr>
     in bindE (if m_bytesInFlight tcb > m_ssThresh tcb then prr_proportional p tcb
               else Inr (min (prr_limit p tcb deliveredBytes)
                             (sint (m_ssThresh tcb - m_bytesInFlight tcb))))
          (\<lambda>sendCount0.
             let sendCount = max sendCount0 (sint (if m_prrOut p > 0 then 0 else m_segmentSize tcb));
                 tcb1 = tcb\<lparr>m_cWnd := m_bytesInFlight tcb + word_of_int sendCount\<rparr>
             in Inr (p, tcb1\<lparr>m_cWndInfl := m_cWnd tcb1\<rparr>)))"

definition Prr_EnterRecovery ::
  "TcpPrrRecovery \<Rightarrow> TcpSocketState \<Rightarrow> u32 \<Rightarrow> u32 \<Rightarrow> u32 \<Rightarrow> (TcpPrrRecovery \<times> TcpSocketState) result" where
  "Prr_EnterRecovery p tcb dupAckCount unAckDataCount deliveredBytes =
    Prr_DoRecovery (p\<lparr>m_prrOut := 0, m_prrDelivered := 0, m_recoveryFlightSize := unAckDataCount\<rparr>)
      tcb deliveredBytes"

definition Prr_ExitRecovery :: "TcpSocketState \<Rightarrow> TcpSocketState" where
  "Prr_ExitRecovery tcb = tcb\<lparr>m_cWndInfl := m_cWnd tcb\<rparr>"

definition Prr_UpdateBytesSent :: "TcpPrrRecovery \<Rightarrow> u32 \<Rightarrow> TcpPrrRecovery" where
  "Prr_UpdateBytesSent p bytesSent = p\<lparr>m_prrOut := m_prrOut p + bytesSent\<rparr>"

definition demo_prr :: TcpPrrRecovery where
  "demo_prr = \<lparr> m_prrDelivered = 2000, m_prrOut = 1000, m_recoveryFlightSize = 10000,
                m_reductionBoundMode = SSRB \<rparr>"

definition demo_prr_tcb :: TcpSocketState where
  "demo_prr_tcb = new_TcpSocketState\<lparr>m_cWnd := 10000, m_ssThresh := 5000, m_segmentSize := 1000,
     m_bytesInFlight := 8000\<rparr>"

subsection \<open>Facts\<close>

lemma nat_ceil_div_bounds:
  assumes "0 < b"
  shows "a \<le> nat_ceil_div a b * b" and "nat_ceil_div a b * b < a + b"
proof -
  have "(a + b - 1) div b * b + (a + b - 1) mod b = a + b - 1"
    by (rule div_mult_mod_eq)
  moreover have "(a + b - 1) mod b < b"
    using assms by simp
  ultimately show "a \<le> nat_ceil_div a b * b" "nat_ceil_div a b * b < a + b"
    unfolding nat_ceil_div_def using assms by linarith+
qed

lemma unat_plus_of_nat: "unat b + k < 2 ^ 32 \<Longrightarrow> unat (b + of_nat k :: u32) = unat b + k"
  by (simp add: unat_word_ariths)

text \<open>
  C16: while the flight is not above the slow start threshold, proportional rate
  reduction never lets the window pass the threshold: once something was sent in this
  recovery, \<open>DoRecovery\<close> always succeeds and leaves a window between the flight and
  \<open>m_ssThresh\<close>, in either reduction bound mode; on the first call it allows the
  one segment of the fast retransmit.
\<close>

theorem prr_window_within_threshold:
  assumes "m_bytesInFlight tcb \<le> m_ssThresh tcb" "unat (m_ssThresh tcb) < 2 ^ 31"
    and "unat (m_segmentSize tcb) < 2 ^ 31"
  shows "\<exists>w. Prr_DoRecovery p tcb d = Inr (p\<lparr>m_prrDelivered := m_prrDelivered p + d\<rparr>, tcb\<lparr>m_cWnd := w, m_cWndInfl := w\<rparr>)
    \<and> m_bytesInFlight tcb \<le> w
    \<and> unat w \<le> max (unat (m_ssThresh tcb))
                  (if m_prrOut p > 0 then 0 else unat (m_bytesInFlight tcb) + unat (m_segmentSize tcb))"
proof -
  define b th where "b = m_bytesInFlight tcb" and "th = m_ssThresh tcb"
  define lim where "lim = prr_limit (p\<lparr>m_prrDelivered := m_prrDelivered p + d\<rparr>) tcb d"
  define f where "f = (if m_prrOut p > 0 then 0 else m_segmentSize tcb)"
  define z where "z = max (min lim (sint (th - b))) (sint f)"
  define B T F where "B = unat b" and "T = unat th" and "F = unat f"
  have le: "B \<le> T" "T < 2 ^ 31" "F < 2 ^ 31"
    using assms by (simp_all add: B_def T_def F_def b_def th_def f_def word_le_nat_alt)
  then have diff: "unat (th - b) = T - B"
    by (simp add: unat_sub word_le_nat_alt B_def T_def)
  have "sint (th - b) = int (T - B)" "sint f = int F"
    using le diff sint_small [of "th - b"] sint_small [of f] by (simp_all only: F_def)
  then have z: "z = max (min lim (int (T - B))) (int F)"
    by (simp only: z_def)
  then obtain k where k: "z = int k"
    by (metis max.coboundedI2 nonneg_int_cases of_nat_0_le_iff)
  then have kle: "k \<le> max (T - B) F"
    using z by linarith
  then have w: "unat (b + of_nat k) = B + k"
    using le unfolding B_def by (intro unat_plus_of_nat) (simp add: max_def split: if_splits)
  have "Prr_DoRecovery p tcb d = Inr (p\<lparr>m_prrDelivered := m_prrDelivered p + d\<rparr>,
      tcb\<lparr>m_cWnd := b + of_nat k, m_cWndInfl := b + of_nat k\<rparr>)"
  proof -
    have "word_of_int z = (of_nat k :: u32)"
      by (simp add: k)
    moreover have "\<not> m_ssThresh tcb < m_bytesInFlight tcb"
      using assms(1) by simp
    ultimately show ?thesis
      by (simp add: Prr_DoRecovery_def Let_def z_def lim_def f_def b_def th_def)
  qed
  moreover have "B + k \<le> max T (B + F)"
    using kle le by linarith
  ultimately show ?thesis
    using w le by (intro exI [of _ "b + of_nat k"])
      (auto simp: B_def T_def F_def b_def th_def f_def word_le_nat_alt split: if_splits)
qed

theorem prr_window_within_threshold_witness:
  "\<exists>w. Prr_DoRecovery demo_prr (demo_prr_tcb\<lparr>m_bytesInFlight := 4000\<rparr>) 1000
        = Inr (demo_prr\<lparr>m_prrDelivered := 3000\<rparr>, demo_prr_tcb\<lparr>m_bytesInFlight := 4000, m_cWnd := w, m_cWndInfl := w\<rparr>)
      \<and> 4000 \<le> w \<and> unat w \<le> 5000"
  using prr_window_within_threshold [of "demo_prr_tcb\<lparr>m_bytesInFlight := 4000\<rparr>" demo_prr 1000]
  by (simp add: demo_prr_def demo_prr_tcb_def new_TcpSocketState_def)

text \<open>
  While the flight exceeds the threshold, proportional rate reduction keeps what
  was sent in this recovery in proportion to what was delivered: the bytes sent and the
  bytes it now allows are the ceiling of \<open>m_prrDelivered * m_ssThresh\<close> over the flight
  at the start of recovery, or what was already sent where that is more.  This holds as long as the
  product fits 32 bits.
\<close>

theorem prr_proportional_rate:
  assumes "m_ssThresh tcb < m_bytesInFlight tcb" "0 < m_recoveryFlightSize p" "0 < m_prrOut p"
    and "unat (m_prrDelivered p) + unat d < 2 ^ 32" "D = unat (m_prrDelivered p) + unat d"
    and "D * unat (m_ssThresh tcb) < 2 ^ 32" "unat (m_prrOut p) < 2 ^ 31"
    and "A = nat_ceil_div (D * unat (m_ssThresh tcb)) (unat (m_recoveryFlightSize p))"
    and "A < 2 ^ 31" "unat (m_bytesInFlight tcb) + A < 2 ^ 32"
  shows "\<exists>w. Prr_DoRecovery p tcb d = Inr (p\<lparr>m_prrDelivered := of_nat D\<rparr>, tcb\<lparr>m_cWnd := w, m_cWndInfl := w\<rparr>)
    \<and> unat (m_prrOut p) + (unat w - unat (m_bytesInFlight tcb)) = max (unat (m_prrOut p)) A
    \<and> m_bytesInFlight tcb \<le> w"
proof -
  define q where "q = p\<lparr>m_prrDelivered := m_prrDelivered p + d\<rparr>"
  define out B where "out = unat (m_prrOut p)" and "B = unat (m_bytesInFlight tcb)"
  define k where "k = A - out"
  have D: "m_prrDelivered p + d = of_nat D"
    using assms(5) by simp
  have "unat (m_prrDelivered p + d) = D"
    using assms(4,5) by (simp add: unat_word_ariths)
  then have "unat (m_prrDelivered q * m_ssThresh tcb) = D * unat (m_ssThresh tcb)"
    using assms(6) by (simp add: q_def unat_word_ariths)
  moreover have rng: "- (2 ^ 31) \<le> int A - int out" "int A - int out < 2 ^ 31"
  proof -
    have "out < 2147483648" "A < 2147483648"
      using assms(7,9) by (simp_all add: out_def)
    then show "- (2 ^ 31) \<le> int A - int out" "int A - int out < 2 ^ 31"
      by simp_all
  qed
  moreover have "m_recoveryFlightSize q = m_recoveryFlightSize p" "unat (m_prrOut q) = out"
    by (simp_all add: q_def out_def)
  moreover have "m_recoveryFlightSize p \<noteq> 0"
    using assms(2) by auto
  ultimately have pr: "prr_proportional q tcb = Inr (int A - int out)"
    by (simp only: prr_proportional_def Let_def assms(8) [symmetric] if_False simp_thms if_True)
  have "max (int A - int out) 0 = int k"
    by (simp add: k_def)
  then have run: "Prr_DoRecovery p tcb d
      = Inr (q, tcb\<lparr>m_cWnd := m_bytesInFlight tcb + of_nat k, m_cWndInfl := m_bytesInFlight tcb + of_nat k\<rparr>)"
    using assms(1,3) pr unfolding Prr_DoRecovery_def q_def [symmetric] Let_def
    by (simp add: q_def)
  have "unat (m_bytesInFlight tcb + of_nat k) = B + k"
    unfolding B_def by (intro unat_plus_of_nat) (use assms(10) in \<open>simp add: k_def\<close>)
  with run D show ?thesis
    by (intro exI [of _ "m_bytesInFlight tcb + of_nat k"])
      (simp add: q_def out_def B_def k_def word_le_nat_alt)
qed

theorem prr_proportional_rate_witness:
  "\<exists>w. Prr_DoRecovery demo_prr demo_prr_tcb 1001
       = Inr (demo_prr\<lparr>m_prrDelivered := 3001\<rparr>, demo_prr_tcb\<lparr>m_cWnd := w, m_cWndInfl := w\<rparr>)
     \<and> unat w = 8501"
proof -
  have f: "m_ssThresh demo_prr_tcb = 5000" "m_bytesInFlight demo_prr_tcb = 8000" "m_recoveryFlightSize demo_prr = 10000"
    "m_prrOut demo_prr = 1000" "m_prrDelivered demo_prr = 2000" "nat_ceil_div 15005000 10000 = 1501"
    by (simp_all add: demo_prr_def demo_prr_tcb_def new_TcpSocketState_def nat_ceil_div_def)
  obtain w where w: "Prr_DoRecovery demo_prr demo_prr_tcb 1001
       = Inr (demo_prr\<lparr>m_prrDelivered := of_nat 3001\<rparr>, demo_prr_tcb\<lparr>m_cWnd := w, m_cWndInfl := w\<rparr>)"
    "unat (m_prrOut demo_prr) + (unat w - unat (m_bytesInFlight demo_prr_tcb)) = max (unat (m_prrOut demo_prr)) 1501"
  proof -
    have "\<exists>w. Prr_DoRecovery demo_prr demo_prr_tcb 1001
       = Inr (demo_prr\<lparr>m_prrDelivered := of_nat 3001\<rparr>, demo_prr_tcb\<lparr>m_cWnd := w, m_cWndInfl := w\<rparr>)
     \<and> unat (m_prrOut demo_prr) + (unat w - unat (m_bytesInFlight demo_prr_tcb)) = max (unat (m_prrOut demo_prr)) 1501
     \<and> m_bytesInFlight demo_prr_tcb \<le> w"
      by (rule prr_proportional_rate) (simp_all only: f, simp_all add: f)
    with that show thesis
      by blast
  qed
  then have "Prr_DoRecovery demo_prr demo_prr_tcb 1001
       = Inr (demo_prr\<lparr>m_prrDelivered := 3001\<rparr>, demo_prr_tcb\<lparr>m_cWnd := w, m_cWndInfl := w\<rparr>)"
    by simp
  moreover from w(2) have "unat w = 8501"
    by (simp add: f)
  ultimately show ?thesis
    by blast
qed

text \<open>
  The product of line 95 is computed in 32 bits and wraps for windows of some tens of
  kilobytes: with 131,072 bytes in flight at the start of recovery, a threshold of
  65,536, 65,536 bytes delivered and 16,384 sent, the formula allows another 16,384
  bytes, and the code none.
\<close>

lemma prr_product_wraps:
  "Prr_DoRecovery \<lparr>m_prrDelivered = 0xF000, m_prrOut = 0x4000, m_recoveryFlightSize = 0x20000,
       m_reductionBoundMode = SSRB\<rparr>
     (new_TcpSocketState\<lparr>m_ssThresh := 0x10000, m_segmentSize := 0x400, m_bytesInFlight := 0x11000\<rparr>) 0x1000
   = Inr (\<lparr>m_prrDelivered = 0x10000, m_prrOut = 0x4000, m_recoveryFlightSize = 0x20000,
             m_reductionBoundMode = SSRB\<rparr>,
          new_TcpSocketState\<lparr>m_ssThresh := 0x10000, m_segmentSize := 0x400, m_bytesInFlight := 0x11000,
             m_cWnd := 0x11000, m_cWndInfl := 0x11000\<rparr>)
   \<and> nat_ceil_div (0x10000 * 0x10000) 0x20000 - 0x4000 = 0x4000"
  by (simp add: Prr_DoRecovery_def prr_proportional_def nat_ceil_div_def Let_def new_TcpSocketState_def)

end
