(* ===== verification/RttEstimator.thy ===== *)
theory RttEstimator
  imports TcpState
begin

text \<open>
  The round-trip time estimator of src/internet/model/rtt-estimator.cc: class
  \<open>RttEstimator\<close> and its subclass \<open>RttMeanDeviation\<close>.  Times are integer
  ticks of \<open>int64_t\<close>; an intermediate value out of its range is undefined.  The gains,
  \<open>double\<close> attributes, are exact rationals.
\<close>

record RttEstimator =
  m_initialEstimatedRtt :: time
  m_estimatedRtt :: time
  m_estimatedVariation :: time
  m_nSamples :: u32
  m_alpha :: rat
  m_beta :: rat

subsection \<open>RttEstimator\<close>

definition new_RttEstimator :: "time \<Rightarrow> rat \<Rightarrow> rat \<Rightarrow> RttEstimator" where
  "new_RttEstimator initial alpha beta =
    \<lparr> m_initialEstimatedRtt = initial, m_estimatedRtt = initial, m_estimatedVariation = 0,
      m_nSamples = 0, m_alpha = alpha, m_beta = beta \<rparr>"

definition RttReset :: "RttEstimator \<Rightarrow> RttEstimator" where
  "RttReset e = e\<lparr>m_estimatedRtt := m_initialEstimatedRtt e, m_estimatedVariation := 0, m_nSamples := 0\<rparr>"

definition GetEstimate :: "RttEstimator \<Rightarrow> time" where
  "GetEstimate e = m_estimatedRtt e"

definition GetVariation :: "RttEstimator \<Rightarrow> time" where
  "GetVariation e = m_estimatedVariation e"

subsection \<open>RttMeanDeviation\<close>

definition TOLERANCE :: rat where
  "TOLERANCE = 1 / 1000000"

definition CheckForReciprocalPowerOfTwo :: "rat \<Rightarrow> nat" where
  "CheckForReciprocalPowerOfTwo val =
    (if val < TOLERANCE then 0
     else if \<bar>1 / val - 8\<bar> < TOLERANCE then 3
     else if \<bar>1 / val - 4\<bar> < TOLERANCE then 2
     else if \<bar>1 / val - 32\<bar> < TOLERANCE then 5
     else if \<bar>1 / val - 16\<bar> < TOLERANCE then 4
     else if \<bar>1 / val - 2\<bar> < TOLERANCE then 1
     else 0)"

definition FloatingPointUpdate :: "RttEstimator \<Rightarrow> time \<Rightarrow> RttEstimator" where
  "FloatingPointUpdate e m =
    (let err = m - m_estimatedRtt e;
         gErr = of_int err * m_alpha e;
         e1 = e\<lparr>m_estimatedRtt := m_estimatedRtt e + round_away gErr\<rparr>;
         difference = \<bar>err\<bar> - m_estimatedVariation e1
     in e1\<lparr>m_estimatedVariation := m_estimatedVariation e1 + time_scale difference (m_beta e)\<rparr>)"

text \<open>A value of type \<open>int64_t\<close>; its arithmetic right shift is the division rounding down.\<close>

definition int64 :: "nat \<Rightarrow> int \<Rightarrow> int result" where
  "int64 line z = (if - (2 ^ 63) \<le> z \<and> z < 2 ^ 63 then Inr z else Inl (Undefined line))"

definition IntegerUpdate :: "RttEstimator \<Rightarrow> time \<Rightarrow> nat \<Rightarrow> nat \<Rightarrow> RttEstimator result" where
  "IntegerUpdate e m rttShift variationShift =
    bindE (int64 225 (m - m_estimatedRtt e)) (\<lambda>delta0.
    bindE (int64 226 (m_estimatedRtt e * 2 ^ rttShift)) (\<lambda>scaled.
    bindE (int64 226 (scaled + delta0)) (\<lambda>srtt.
    bindE (int64 230 (if delta0 < 0 then - delta0 else delta0)) (\<lambda>delta1.
    bindE (int64 232 (delta1 - m_estimatedVariation e)) (\<lambda>delta.
    bindE (int64 233 (m_estimatedVariation e * 2 ^ variationShift)) (\<lambda>rttvar0.
    bindE (int64 234 (rttvar0 + delta)) (\<lambda>rttvar.
      Inr (e\<lparr>m_estimatedRtt := srtt div 2 ^ rttShift,
              m_estimatedVariation := rttvar div 2 ^ variationShift\<rparr>))))))))"

text \<open>The first sample is halved by the truncating division of \<open>int64_t\<close>.\<close>

definition RttMeasurement :: "RttEstimator \<Rightarrow> time \<Rightarrow> RttEstimator result" where
  "RttMeasurement e m =
    bindE (if m_nSamples e \<noteq> 0 then
             let rttShift = CheckForReciprocalPowerOfTwo (m_alpha e);
                 variationShift = CheckForReciprocalPowerOfTwo (m_beta e)
             in if rttShift \<noteq> 0 \<and> variationShift \<noteq> 0 then IntegerUpdate e m rttShift variationShift
                else Inr (FloatingPointUpdate e m)
           else Inr (e\<lparr>m_estimatedRtt := m,
                       m_estimatedVariation := (if m < 0 then - ((- m) div 2) else m div 2)\<rparr>))
      (\<lambda>e1. Inr (e1\<lparr>m_nSamples := m_nSamples e1 + 1\<rparr>))"

primrec measure_all :: "RttEstimator \<Rightarrow> time list \<Rightarrow> RttEstimator result" where
  "measure_all e [] = Inr e"
| "measure_all e (m # ms) = bindE (RttMeasurement e m) (\<lambda>e1. measure_all e1 ms)"

subsection \<open>Facts\<close>

lemma int64_ok: "\<bar>z\<bar> < 9223372036854775808 \<Longrightarrow> int64 l z = Inr z"
  by (simp add: int64_def) linarith

lemma power2_le_32: "k \<le> 5 \<Longrightarrow> (2 :: int) ^ k \<le> 32"
proof -
  assume "k \<le> 5"
  then have "(2 :: int) ^ k \<le> 2 ^ 5"
    by (rule power_increasing) simp
  then show ?thesis
    by simp
qed

text \<open>
  The integer update in range: both results are the exact weighted means, rounded
  down.
\<close>

lemma integer_update_eq:
  assumes "k \<le> 5" "j \<le> 5" "0 \<le> m" "m < 2 ^ 57" "0 \<le> m_estimatedRtt e" "m_estimatedRtt e < 2 ^ 57"
    and "0 \<le> m_estimatedVariation e" "m_estimatedVariation e < 2 ^ 57"
  shows "IntegerUpdate e m k j
       = Inr (e\<lparr>m_estimatedRtt := (m_estimatedRtt e * 2 ^ k + (m - m_estimatedRtt e)) div 2 ^ k,
                m_estimatedVariation := (m_estimatedVariation e * 2 ^ j
                  + (\<bar>m - m_estimatedRtt e\<bar> - m_estimatedVariation e)) div 2 ^ j\<rparr>)"
proof -
  define R V where "R = m_estimatedRtt e" and "V = m_estimatedVariation e"
  have p: "0 \<le> R * 2 ^ k" "R * 2 ^ k \<le> 2 ^ 57 * 32" "0 \<le> V * 2 ^ j" "V * 2 ^ j \<le> 2 ^ 57 * 32"
    using assms power2_le_32 [of k] power2_le_32 [of j] unfolding R_def V_def
    by (intro mult_mono mult_nonneg_nonneg; simp)+
  then have p: "0 \<le> R * 2 ^ k" "R * 2 ^ k \<le> 4611686018427387904"
    "0 \<le> V * 2 ^ j" "V * 2 ^ j \<le> 4611686018427387904"
    by simp_all
  have d: "\<bar>m - R\<bar> < 144115188075855872" "0 \<le> V" "V < 144115188075855872"
    using assms by (simp_all add: R_def V_def abs_if)
  have "int64 l (m - R) = Inr (m - R)" "int64 l (R * 2 ^ k) = Inr (R * 2 ^ k)"
    "int64 l (R * 2 ^ k + (m - R)) = Inr (R * 2 ^ k + (m - R))" "int64 l \<bar>m - R\<bar> = Inr \<bar>m - R\<bar>"
    "int64 l (\<bar>m - R\<bar> - V) = Inr (\<bar>m - R\<bar> - V)" "int64 l (V * 2 ^ j) = Inr (V * 2 ^ j)"
    "int64 l (V * 2 ^ j + (\<bar>m - R\<bar> - V)) = Inr (V * 2 ^ j + (\<bar>m - R\<bar> - V))" for l
    using p d by (intro int64_ok; linarith)+
  moreover have "(if m - R < 0 then - (m - R) else m - R) = \<bar>m - R\<bar>"
    by simp
  ultimately show ?thesis
    unfolding IntegerUpdate_def R_def [symmetric] V_def [symmetric] by (simp only: bindE_simps)
qed

text \<open>One step of the integer mean stays between the old value and the sample.\<close>

lemma shift_mean_bounds:
  assumes "lo \<le> x" "lo \<le> y" "x \<le> hi" "y \<le> hi"
  shows "lo \<le> (x * 2 ^ k + (y - x)) div 2 ^ k" and "(x * 2 ^ k + (y - x)) div 2 ^ k \<le> (hi :: int)"
proof -
  have one: "(1 :: int) \<le> 2 ^ k"
    by simp
  have "(x - lo) * 1 \<le> (x - lo) * 2 ^ k" "(hi - x) * 1 \<le> (hi - x) * 2 ^ k"
    using assms one by (intro mult_left_mono; simp)+
  then have "lo * 2 ^ k \<le> x * 2 ^ k + (y - x)" "x * 2 ^ k + (y - x) \<le> hi * 2 ^ k"
    using assms by (simp_all add: algebra_simps)
  then have "lo * 2 ^ k div 2 ^ k \<le> (x * 2 ^ k + (y - x)) div 2 ^ k"
    "(x * 2 ^ k + (y - x)) div 2 ^ k \<le> hi * 2 ^ k div 2 ^ k"
    by (intro zdiv_mono1; simp)+
  then show "lo \<le> (x * 2 ^ k + (y - x)) div 2 ^ k" "(x * 2 ^ k + (y - x)) div 2 ^ k \<le> hi"
    by simp_all
qed

lemma div_as_floor: "(x * 2 ^ k + (y - x)) div 2 ^ k = \<lfloor>(1 - 1 / 2 ^ k) * of_int x + 1 / 2 ^ k * (of_int y :: rat)\<rfloor>"
proof -
  have "(1 - 1 / 2 ^ k) * of_int x + 1 / 2 ^ k * (of_int y :: rat) = of_int (x * 2 ^ k + (y - x)) / of_int (2 ^ k)"
    by (simp add: field_simps)
  then show ?thesis
    by (simp only: floor_divide_of_int_eq)
qed

text \<open>Rounding to the nearest tick and rounding down are one tick apart at most.\<close>

lemma round_away_near_floor: "\<lfloor>x\<rfloor> \<le> round_away x \<and> round_away x \<le> \<lfloor>x\<rfloor> + 1"
proof (cases "x < 0")
  case True
  have "round_away x = \<lceil>x - 1 / 2\<rceil>"
    using True by (simp add: round_away_def ceiling_def)
  then show ?thesis
    by linarith
next
  case False
  then show ?thesis
    unfolding round_away_def by (simp, linarith)
qed

lemma reciprocal_shift:
  assumes "0 < k" "k \<le> 5"
  shows "CheckForReciprocalPowerOfTwo (1 / 2 ^ k) = k"
proof -
  from assms have "k = 1 \<or> k = 2 \<or> k = 3 \<or> k = 4 \<or> k = 5"
    by arith
  then show ?thesis
    by (elim disjE) (simp_all add: CheckForReciprocalPowerOfTwo_def TOLERANCE_def)
qed

text \<open>\<open>Measurement\<close> with reciprocal gains, after the first sample.\<close>

lemma measurement_eq:
  assumes "m_nSamples e \<noteq> 0" "m_alpha e = 1 / 2 ^ k" "m_beta e = 1 / 2 ^ j" "0 < k" "k \<le> 5" "0 < j" "j \<le> 5"
    and "0 \<le> m" "m < 2 ^ 57" "0 \<le> m_estimatedRtt e" "m_estimatedRtt e < 2 ^ 57"
    and "0 \<le> m_estimatedVariation e" "m_estimatedVariation e < 2 ^ 57"
  shows "RttMeasurement e m
       = Inr (e\<lparr>m_estimatedRtt := (m_estimatedRtt e * 2 ^ k + (m - m_estimatedRtt e)) div 2 ^ k,
                m_estimatedVariation := (m_estimatedVariation e * 2 ^ j
                  + (\<bar>m - m_estimatedRtt e\<bar> - m_estimatedVariation e)) div 2 ^ j,
                m_nSamples := m_nSamples e + 1\<rparr>)"
proof -
  have "CheckForReciprocalPowerOfTwo (m_alpha e) = k" "CheckForReciprocalPowerOfTwo (m_beta e) = j"
    using assms(2-7) reciprocal_shift by metis+
  with integer_update_eq [OF assms(5,7-13)] assms(1,4,6) show ?thesis
    by (simp add: RttMeasurement_def Let_def)
qed

lemma floor_vs_round: "\<bar>\<lfloor>of_int x + y\<rfloor> - (x + round_away y)\<bar> \<le> 1" for y :: rat
  using round_away_near_floor [of y] by simp

subsection \<open>Properties\<close>

text \<open>
  C17: for gains that are reciprocal powers of two, \<open>Measurement\<close> takes the integer path,
  and that path computes the weighted means of Jacobson and Karels exactly, rounded
  down: both the estimate and the variation are within one tick of what the
  floating-point path computes.
\<close>

theorem rtt_integer_update_is_ewma:
  assumes "m_nSamples e \<noteq> 0" "m_alpha e = 1 / 2 ^ k" "m_beta e = 1 / 2 ^ j" "0 < k" "k \<le> 5" "0 < j" "j \<le> 5"
    and "0 \<le> m" "m < 2 ^ 57" "0 \<le> m_estimatedRtt e" "m_estimatedRtt e < 2 ^ 57"
    and "0 \<le> m_estimatedVariation e" "m_estimatedVariation e < 2 ^ 57"
  shows "\<exists>e'. RttMeasurement e m = Inr e'
    \<and> m_estimatedRtt e' = \<lfloor>(1 - m_alpha e) * of_int (m_estimatedRtt e) + m_alpha e * of_int m\<rfloor>
    \<and> m_estimatedVariation e' = \<lfloor>(1 - m_beta e) * of_int (m_estimatedVariation e)
                                + m_beta e * of_int \<bar>m - m_estimatedRtt e\<bar>\<rfloor>
    \<and> \<bar>m_estimatedRtt e' - m_estimatedRtt (FloatingPointUpdate e m)\<bar> \<le> 1
    \<and> \<bar>m_estimatedVariation e' - m_estimatedVariation (FloatingPointUpdate e m)\<bar> \<le> 1"
proof -
  define R V A where "R = m_estimatedRtt e" and "V = m_estimatedVariation e" and "A = \<bar>m - m_estimatedRtt e\<bar>"
  define R' V' where "R' = (R * 2 ^ k + (m - R)) div 2 ^ k" and "V' = (V * 2 ^ j + (A - V)) div 2 ^ j"
  define e' where "e' = e\<lparr>m_estimatedRtt := R', m_estimatedVariation := V', m_nSamples := m_nSamples e + 1\<rparr>"
  have run: "RttMeasurement e m = Inr e'"
    using measurement_eq [OF assms] by (simp only: e'_def R'_def V'_def R_def V_def A_def)
  have f: "m_estimatedRtt e' = \<lfloor>(1 - m_alpha e) * of_int R + m_alpha e * of_int m\<rfloor>"
    "m_estimatedVariation e' = \<lfloor>(1 - m_beta e) * of_int V + m_beta e * of_int A\<rfloor>"
    using assms(2,3) by (simp_all add: e'_def R'_def V'_def div_as_floor del: div_mult_self3 div_mult_self4)
  have "(1 - a) * of_int x + a * of_int y = of_int x + of_int (y - x) * a" for a :: rat and x y
    by (simp add: algebra_simps)
  then have "\<bar>m_estimatedRtt e' - (R + round_away (of_int (m - R) * m_alpha e))\<bar> \<le> 1"
    "\<bar>m_estimatedVariation e' - (V + round_away (of_int (A - V) * m_beta e))\<bar> \<le> 1"
    unfolding f by (simp_all only: floor_vs_round)
  with run f show ?thesis
    by (simp add: FloatingPointUpdate_def Let_def time_scale_def R_def V_def A_def)
qed

theorem rtt_integer_update_is_ewma_witness:
  "\<exists>e'. RttMeasurement (new_RttEstimator 1000 (1 / 8) (1 / 4)\<lparr>m_nSamples := 1\<rparr>) 2001 = Inr e'
     \<and> m_estimatedRtt e' = 1125 \<and> m_estimatedVariation e' = 250"
proof -
  have "\<lfloor>9001 / 8 :: rat\<rfloor> = 1125" "\<lfloor>1001 / 4 :: rat\<rfloor> = 250"
    by (rule floor_unique; simp)+
  then show ?thesis
    using rtt_integer_update_is_ewma
      [of "new_RttEstimator 1000 (1 / 8) (1 / 4)\<lparr>m_nSamples := 1\<rparr>" 3 2 2001]
    by (auto simp: new_RttEstimator_def)
qed

lemma measurement_keeps_range:
  assumes "m_nSamples e \<noteq> 0" "m_nSamples e + 1 \<noteq> 0"
    and "m_alpha e = 1 / 2 ^ k" "m_beta e = 1 / 2 ^ j" "0 < k" "k \<le> 5" "0 < j" "j \<le> 5"
    and "0 \<le> lo" "hi < 2 ^ 57" "lo \<le> m" "m \<le> hi" "lo \<le> m_estimatedRtt e" "m_estimatedRtt e \<le> hi"
    and "0 \<le> m_estimatedVariation e" "m_estimatedVariation e \<le> hi"
  shows "\<exists>R V. RttMeasurement e m = Inr (e\<lparr>m_estimatedRtt := R, m_estimatedVariation := V, m_nSamples := m_nSamples e + 1\<rparr>)
    \<and> lo \<le> R \<and> R \<le> hi \<and> 0 \<le> V \<and> V \<le> hi"
proof -
  have "m < 2 ^ 57" "m_estimatedRtt e < 2 ^ 57" "m_estimatedVariation e < 2 ^ 57" "0 \<le> m" "0 \<le> m_estimatedRtt e"
    using assms by linarith+
  note run = measurement_eq [OF assms(1,3-8) this(4,1,5,2) assms(15) this(3)]
  have "0 \<le> \<bar>m - m_estimatedRtt e\<bar>" "\<bar>m - m_estimatedRtt e\<bar> \<le> hi"
    using assms by linarith+
  with run shift_mean_bounds [OF assms(13,11,14,12), of k]
    shift_mean_bounds [OF assms(15) _ assms(16), of "\<bar>m - m_estimatedRtt e\<bar>" j]
  show ?thesis
    by blast
qed

lemma measure_all_keeps_range:
  assumes "m_nSamples e \<noteq> 0" "unat (m_nSamples e) + length ms < 2 ^ 32"
    and "m_alpha e = 1 / 2 ^ k" "m_beta e = 1 / 2 ^ j" "0 < k" "k \<le> 5" "0 < j" "j \<le> 5"
    and "0 \<le> lo" "hi < 2 ^ 57" "\<forall>m \<in> set ms. lo \<le> m \<and> m \<le> hi"
    and "lo \<le> m_estimatedRtt e" "m_estimatedRtt e \<le> hi"
    and "0 \<le> m_estimatedVariation e" "m_estimatedVariation e \<le> hi"
  shows "\<exists>e'. measure_all e ms = Inr e' \<and> lo \<le> m_estimatedRtt e' \<and> m_estimatedRtt e' \<le> hi
    \<and> 0 \<le> m_estimatedVariation e' \<and> m_estimatedVariation e' \<le> hi"
  using assms(1,2,3,4,11-15)
proof (induction ms arbitrary: e)
  case (Cons m ms)
  have n: "unat (m_nSamples e + 1) = unat (m_nSamples e) + 1"
    using Cons.prems(2) by (simp add: unat_word_ariths)
  then have n1: "m_nSamples e + 1 \<noteq> 0"
    by auto
  have m: "lo \<le> m" "m \<le> hi"
    using Cons.prems by simp_all
  obtain R V where rv: "RttMeasurement e m
      = Inr (e\<lparr>m_estimatedRtt := R, m_estimatedVariation := V, m_nSamples := m_nSamples e + 1\<rparr>)"
      "lo \<le> R" "R \<le> hi" "0 \<le> V" "V \<le> hi"
    using measurement_keeps_range [OF Cons.prems(1) n1 Cons.prems(3,4) assms(5-10) m Cons.prems(6-9)]
    by blast
  have "\<exists>e'. measure_all (e\<lparr>m_estimatedRtt := R, m_estimatedVariation := V, m_nSamples := m_nSamples e + 1\<rparr>) ms = Inr e'
      \<and> lo \<le> m_estimatedRtt e' \<and> m_estimatedRtt e' \<le> hi
      \<and> 0 \<le> m_estimatedVariation e' \<and> m_estimatedVariation e' \<le> hi"
    by (rule Cons.IH) (use n n1 rv Cons.prems in simp_all)
  with rv(1) show ?case
    by simp
qed simp

text \<open>
  C30: started afresh with reciprocal gains (the defaults are 1/8 and 1/4) and fed
  a non-empty history of samples between \<open>lo\<close> and \<open>hi\<close>, the estimator never leaves
  the range of an \<open>int64_t\<close>, its estimate stays between \<open>lo\<close> and \<open>hi\<close> and its
  variation between zero and \<open>hi\<close>: the initial estimate has no influence.
\<close>

theorem rtt_estimate_within_samples:
  assumes "ms \<noteq> []" "\<forall>m \<in> set ms. lo \<le> m \<and> m \<le> hi" "0 \<le> lo" "hi < 2 ^ 57" "length ms < 2 ^ 32"
    and "0 < k" "k \<le> 5" "0 < j" "j \<le> 5"
  shows "\<exists>e. measure_all (new_RttEstimator initial (1 / 2 ^ k) (1 / 2 ^ j)) ms = Inr e
    \<and> lo \<le> GetEstimate e \<and> GetEstimate e \<le> hi \<and> 0 \<le> GetVariation e \<and> GetVariation e \<le> hi"
proof -
  obtain m ms' where ms: "ms = m # ms'"
    using assms(1) by (cases ms) simp_all
  let ?start = "new_RttEstimator initial (1 / 2 ^ k) (1 / 2 ^ j)"
  let ?e = "?start\<lparr>m_estimatedRtt := m, m_estimatedVariation := m div 2, m_nSamples := 1\<rparr>"
  have m: "0 \<le> m" "lo \<le> m" "m \<le> hi"
    using assms(2,3) by (simp_all add: ms)
  have "RttMeasurement ?start m = Inr ?e"
    using m(1) by (simp add: RttMeasurement_def new_RttEstimator_def)
  moreover have "\<exists>e'. measure_all ?e ms' = Inr e' \<and> lo \<le> m_estimatedRtt e' \<and> m_estimatedRtt e' \<le> hi
      \<and> 0 \<le> m_estimatedVariation e' \<and> m_estimatedVariation e' \<le> hi"
  proof (rule measure_all_keeps_range [where k = k and j = j])
    show "m_estimatedVariation ?e \<le> hi" "0 \<le> m_estimatedVariation ?e"
      using m by simp_all
  qed (use assms m in \<open>simp_all add: ms new_RttEstimator_def\<close>)
  ultimately show ?thesis
    by (simp add: ms GetEstimate_def GetVariation_def)
qed

theorem rtt_estimate_within_samples_witness:
  "\<exists>e. measure_all (new_RttEstimator 1000000000 (1 / 8) (1 / 4)) [50, 70, 60] = Inr e
     \<and> 50 \<le> GetEstimate e \<and> GetEstimate e \<le> 70 \<and> 0 \<le> GetVariation e \<and> GetVariation e \<le> 70"
  using rtt_estimate_within_samples [of "[50, 70, 60]" 50 70 3 2 1000000000] by simp

end
