(* ===== verification/Doubles.thy ===== *)
theory Doubles
  imports TcpState
begin

text \<open>
  The \<open>double\<close> values of the delayed-acknowledgement code: exact rationals with the two
  infinities and NaN of IEEE 754, and its comparisons, so that \<open>std::min\<close> and
  \<open>std::max\<close> behave on NaN as they do in C++.  Rounding to 53 bits and the sign of
  zero are not modelled.
\<close>

datatype double = Fin rat | PInf | NInf | NaN

fun d_neg :: "double \<Rightarrow> double" where
  "d_neg (Fin x) = Fin (- x)"
| "d_neg PInf = NInf"
| "d_neg NInf = PInf"
| "d_neg NaN = NaN"

fun d_add :: "double \<Rightarrow> double \<Rightarrow> double" where
  "d_add NaN y = NaN"
| "d_add x NaN = NaN"
| "d_add (Fin x) (Fin y) = Fin (x + y)"
| "d_add PInf NInf = NaN"
| "d_add NInf PInf = NaN"
| "d_add PInf y = PInf"
| "d_add NInf y = NInf"
| "d_add x y = y"

definition d_sub :: "double \<Rightarrow> double \<Rightarrow> double" where
  "d_sub x y = d_add x (d_neg y)"

fun d_sgn :: "double \<Rightarrow> rat" where
  "d_sgn (Fin x) = sgn x"
| "d_sgn PInf = 1"
| "d_sgn NInf = - 1"
| "d_sgn NaN = 0"

definition d_signed_inf :: "rat \<Rightarrow> double" where
  "d_signed_inf s = (if s > 0 then PInf else if s < 0 then NInf else NaN)"

fun d_mul :: "double \<Rightarrow> double \<Rightarrow> double" where
  "d_mul NaN y = NaN"
| "d_mul x NaN = NaN"
| "d_mul (Fin x) (Fin y) = Fin (x * y)"
| "d_mul x y = d_signed_inf (d_sgn x * d_sgn y)"

fun d_div :: "double \<Rightarrow> double \<Rightarrow> double" where
  "d_div NaN y = NaN"
| "d_div x NaN = NaN"
| "d_div (Fin x) (Fin y) = (if y = 0 then d_signed_inf (sgn x) else Fin (x / y))"
| "d_div (Fin x) y = Fin 0"
| "d_div x (Fin y) = d_signed_inf (d_sgn x * (if y < 0 then - 1 else 1))"
| "d_div x y = NaN"

fun d_less :: "double \<Rightarrow> double \<Rightarrow> bool" where
  "d_less NaN y = False"
| "d_less x NaN = False"
| "d_less (Fin x) (Fin y) = (x < y)"
| "d_less x PInf = (x \<noteq> PInf)"
| "d_less NInf y = (y \<noteq> NInf)"
| "d_less x y = False"

definition d_le :: "double \<Rightarrow> double \<Rightarrow> bool" where
  "d_le x y \<longleftrightarrow> d_less x y \<or> (x = y \<and> x \<noteq> NaN)"

definition d_min :: "double \<Rightarrow> double \<Rightarrow> double" where
  "d_min x y = (if d_less y x then y else x)"

definition d_max :: "double \<Rightarrow> double \<Rightarrow> double" where
  "d_max x y = (if d_less x y then y else x)"

definition d_of_u32 :: "u32 \<Rightarrow> double" where
  "d_of_u32 x = Fin (of_int (uint x))"

definition GetSeconds :: "time \<Rightarrow> double" where
  "GetSeconds t = Fin (of_int t / 1000000000)"

text \<open>
  \<open>Seconds (double)\<close>: the value in ticks, rounded to the nearest; the conversion of an
  infinity or NaN, or of a value beyond \<open>int64_t\<close>, is undefined.
\<close>

fun Seconds :: "nat \<Rightarrow> double \<Rightarrow> time result" where
  "Seconds line (Fin x) =
    (let t = round_away (x * 1000000000) in
     if Time_Min \<le> t \<and> t \<le> Time_Max then Inr t else Inl (Undefined line))"
| "Seconds line x = Inl (Undefined line)"

subsection \<open>Facts\<close>

lemma d_less_Fin_iff: "d_less (Fin x) y \<longleftrightarrow> y = PInf \<or> (\<exists>z. y = Fin z \<and> x < z)"
  by (cases y) simp_all

lemma d_min_Fin: "d_min (Fin x) (Fin y) = Fin (min x y)"
  by (simp add: d_min_def min_def)

lemma d_max_Fin: "d_max (Fin x) (Fin y) = Fin (max x y)"
  by (simp add: d_max_def max_def)

lemma Seconds_ok: "Seconds l x = Inr t \<Longrightarrow> \<exists>r. x = Fin r \<and> t = round_away (r * 1000000000)"
  by (cases x) (simp_all add: Let_def split: if_splits)

end
