(* ===== verification/SockState.thy ===== *)
theory SockState
  imports Doubles TcpHdr RateOps RxBuffer CongestionOps RecoveryOps RttEstimator
begin

text \<open>
  The members of the socket \<open>TcpSocketBase\<close> of src/internet/model/tcp-socket-base.h.  Two things stand for code outside the
  socket.  \<open>m_tcp->SendPacket\<close> appends the segment with its addresses to \<open>sk_sent\<close>.
  A notification of the application runs its callback at once, and the callback may
  call back into the socket: it is the parameter \<open>app\<close>, a function of the
  notification and the socket.

  An event is \<open>Some\<close> of its expiry time while it is pending and \<open>None\<close> once it is
  cancelled or has run; \<open>sk_now\<close> is \<open>Simulator::Now\<close>.  Packet tags, traces and
  logging are left out.
\<close>

datatype TcpStates =
  CLOSED | LISTEN | SYN_SENT | SYN_RCVD | ESTABLISHED | CLOSE_WAIT | LAST_ACK
  | FIN_WAIT_1 | FIN_WAIT_2 | CLOSING | TIME_WAIT | LAST_STATE

text \<open>The states are compared as the numbers of the enumeration.\<close>

fun state_number :: "TcpStates \<Rightarrow> nat" where
  "state_number CLOSED = 0"
| "state_number LISTEN = 1"
| "state_number SYN_SENT = 2"
| "state_number SYN_RCVD = 3"
| "state_number ESTABLISHED = 4"
| "state_number CLOSE_WAIT = 5"
| "state_number LAST_ACK = 6"
| "state_number FIN_WAIT_1 = 7"
| "state_number FIN_WAIT_2 = 8"
| "state_number CLOSING = 9"
| "state_number TIME_WAIT = 10"
| "state_number LAST_STATE = 11"

lemma state_number_inject: "state_number a = state_number b \<longleftrightarrow> a = b"
  by (cases a; cases b) simp_all

instantiation TcpStates :: linorder
begin

definition less_eq_TcpStates :: "TcpStates \<Rightarrow> TcpStates \<Rightarrow> bool" where
  "less_eq_TcpStates a b \<longleftrightarrow> state_number a \<le> state_number b"

definition less_TcpStates :: "TcpStates \<Rightarrow> TcpStates \<Rightarrow> bool" where
  "less_TcpStates a b \<longleftrightarrow> state_number a < state_number b"

instance
  by standard (auto simp: less_eq_TcpStates_def less_TcpStates_def state_number_inject)

end

datatype SocketErrno =
  ERROR_NOTERROR | ERROR_ISCONN | ERROR_NOTCONN | ERROR_MSGSIZE | ERROR_AGAIN | ERROR_SHUTDOWN
  | ERROR_OPNOTSUPP | ERROR_AFNOSUPPORT | ERROR_INVAL | ERROR_BADF | ERROR_NOROUTETOHOST
  | ERROR_NODEV | ERROR_ADDRNOTAVAIL | ERROR_ADDRINUSE

datatype upcall =
  NotifyDataRecv | NotifyNormalClose | NotifyErrorClose | NotifyConnectionFailed
  | NotifyConnectionSucceeded | NotifyNewConnectionCreated | NotifySend u32 | NotifyDataSent u32

text \<open>The congestion control and the recovery algorithm, chosen when the socket is created.\<close>

datatype CongestionControl =
  CC_NewReno | CC_LinuxReno u32 | CC_Cerl TcpCerl | CC_CerlPlus TcpCerlPlus | CC_CerlX TcpCerlX

datatype RecoveryControl = RC_Classic | RC_Prr TcpPrrRecovery

datatype retx_action = ReTxTimeoutEvent | SendEmptyPacketEvent u8

text \<open>Calls of the socket itself that it schedules for the current time, in order.\<close>

datatype later =
  LaterDataSent u32 | LaterConnectionSucceeded
  | LaterCompleteFork packet TcpHeader Address u16 Address u16

record EndPoint =
  ep_localAddress :: Address
  ep_localPort :: u16
  ep_peerAddress :: Address
  ep_peerPort :: u16

record segment =
  sg_packet :: packet
  sg_header :: TcpHeader
  sg_source :: Address
  sg_destination :: Address

record RttHistory =
  rh_seq :: seq
  rh_count :: u32
  rh_time :: time
  rh_retx :: bool

record sock =
  sk_now :: time
  sk_sent :: "segment list"
  sk_later :: "later list"
  sk_alpha :: double
  sk_iatThreshold :: double
  sk_baseIat :: double
  sk_iat :: double
  sk_lastPacketTime :: time
  sk_lastUpdate :: time
  sk_beta :: double
  sk_aadEnabled :: bool
  sk_lambda :: double
  sk_dwnd :: double
  sk_adwEnabled :: bool
  sk_retxEvent :: "(time \<times> retx_action) option"
  sk_lastAckEvent :: "time option"
  sk_delAckEvent :: "time option"
  sk_persistEvent :: "time option"
  sk_timewaitEvent :: "time option"
  sk_dupAckCount :: u32
  sk_delAckCount :: u32
  sk_delAckMaxCount :: u32
  sk_noDelay :: bool
  sk_synCount :: u32
  sk_synRetries :: u32
  sk_dataRetrCount :: u32
  sk_dataRetries :: u32
  sk_rto :: time
  sk_minRto :: time
  sk_clockGranularity :: time
  sk_delAckTimeout :: time
  sk_persistTimeout :: time
  sk_cnTimeout :: time
  sk_history :: "RttHistory list"
  sk_endPoint :: "EndPoint option"
  sk_endPoint6 :: "EndPoint option"
  sk_rtt :: RttEstimator
  sk_tx :: tx_buffer
  sk_rx :: rx_buffer
  sk_state :: TcpStates
  sk_errno :: SocketErrno
  sk_closeNotified :: bool
  sk_closeOnEmpty :: bool
  sk_shutdownSend :: bool
  sk_shutdownRecv :: bool
  sk_connected :: bool
  sk_msl :: double
  sk_maxWinSize :: u16
  sk_bytesAckedNotProcessed :: u32
  sk_highTxAck :: seq
  sk_rWnd :: u32
  sk_advWnd :: u32
  sk_highRxMark :: seq
  sk_highRxAckMark :: seq
  sk_sackEnabled :: bool
  sk_winScalingEnabled :: bool
  sk_rcvWindShift :: u8
  sk_sndWindShift :: u8
  sk_timestampEnabled :: bool
  sk_congestionWindowEnabled :: bool
  sk_cwndDiff :: int
  sk_timestampToEcho :: u32
  sk_sendPendingDataEvent :: "time option"
  sk_recover :: seq
  sk_recoverActive :: bool
  sk_retxThresh :: u32
  sk_limitedTx :: bool
  sk_tcb :: TcpSocketState
  sk_congestionControl :: CongestionControl
  sk_recoveryOps :: RecoveryControl
  sk_rateOps :: TcpRateLinux
  sk_isFirstPartialAck :: bool
  sk_pacingTimer :: "time option"
  sk_ecnEchoSeq :: seq
  sk_ecnCESeq :: seq
  sk_ecnCWRSeq :: seq

type_synonym app = "upcall \<Rightarrow> sock \<Rightarrow> sock"

text \<open>
  The initial values of the members, with empty buffers at sequence number zero and NewReno
  and proportional rate reduction; the attributes of the simulation are set on top.
\<close>

definition new_sock :: sock where
  "new_sock =
    \<lparr> sk_now = 0, sk_sent = [], sk_later = [], sk_alpha = Fin (3 / 4), sk_iatThreshold = Fin (5 / 100000),
      sk_baseIat = PInf, sk_iat = PInf, sk_lastPacketTime = Time_Min, sk_lastUpdate = 0, sk_beta = Fin 3,
      sk_aadEnabled = False, sk_lambda = Fin 3, sk_dwnd = Fin 3, sk_adwEnabled = False,
      sk_retxEvent = None, sk_lastAckEvent = None, sk_delAckEvent = None, sk_persistEvent = None,
      sk_timewaitEvent = None, sk_dupAckCount = 0, sk_delAckCount = 0, sk_delAckMaxCount = 0,
      sk_noDelay = True, sk_synCount = 0, sk_synRetries = 0, sk_dataRetrCount = 0, sk_dataRetries = 0,
      sk_rto = 0, sk_minRto = Time_Max, sk_clockGranularity = 1000000, sk_delAckTimeout = 0,
      sk_persistTimeout = 0, sk_cnTimeout = 0, sk_history = [], sk_endPoint = None, sk_endPoint6 = None,
      sk_rtt = new_RttEstimator 1000000000 (1 / 8) (1 / 4), sk_tx = TcpTxBuffer 0, sk_rx = TcpRxBuffer 0,
      sk_state = CLOSED, sk_errno = ERROR_NOTERROR, sk_closeNotified = False, sk_closeOnEmpty = False,
      sk_shutdownSend = False, sk_shutdownRecv = False, sk_connected = False, sk_msl = Fin 0,
      sk_maxWinSize = 0, sk_bytesAckedNotProcessed = 0, sk_highTxAck = 0, sk_rWnd = 0, sk_advWnd = 0,
      sk_highRxMark = 0, sk_highRxAckMark = 0, sk_sackEnabled = True, sk_winScalingEnabled = True,
      sk_rcvWindShift = 0, sk_sndWindShift = 0, sk_timestampEnabled = True,
      sk_congestionWindowEnabled = False, sk_cwndDiff = 0, sk_timestampToEcho = 0,
      sk_sendPendingDataEvent = None, sk_recover = 0, sk_recoverActive = False, sk_retxThresh = 3,
      sk_limitedTx = True, sk_tcb = new_TcpSocketState, sk_congestionControl = CC_NewReno,
      sk_recoveryOps = RC_Prr \<lparr> m_prrDelivered = 0, m_prrOut = 0, m_recoveryFlightSize = 0,
        m_reductionBoundMode = SSRB \<rparr>,
      sk_rateOps = new_TcpRateLinux, sk_isFirstPartialAck = True, sk_pacingTimer = None,
      sk_ecnEchoSeq = 0, sk_ecnCESeq = 0, sk_ecnCWRSeq = 0 \<rparr>"

end
