(* ===== verification/Sock.thy ===== *)
theory Sock
  imports SockState
begin

text \<open>
  Operations of the socket \<open>TcpSocketBase\<close>, src/internet/model/tcp-socket-base.cc, that its handlers
  share: windows, header options, timers and empty segments.
\<close>

text \<open>Flags of the TCP header.\<close>

definition FIN :: u8 where "FIN = 1"
definition SYN :: u8 where "SYN = 2"
definition RST :: u8 where "RST = 4"
definition PSH :: u8 where "PSH = 8"
definition ACK :: u8 where "ACK = 16"
definition URG :: u8 where "URG = 32"
definition ECE :: u8 where "ECE = 64"
definition CWR :: u8 where "CWR = 128"

definition has_flag :: "u8 \<Rightarrow> u8 \<Rightarrow> bool" where
  "has_flag flags f \<longleftrightarrow> flags AND f \<noteq> 0"

definition upd_tcb :: "(TcpSocketState \<Rightarrow> TcpSocketState) \<Rightarrow> sock \<Rightarrow> sock" where
  "upd_tcb f s = s\<lparr>sk_tcb := f (sk_tcb s)\<rparr>"

definition GetSegSize :: "sock \<Rightarrow> u32" where
  "GetSegSize s = m_segmentSize (sk_tcb s)"

subsection \<open>Windows\<close>

definition UnAckDataCount :: "sock \<Rightarrow> u32" where
  "UnAckDataCount s = seq_minus (m_highTxMark (sk_tcb s)) (tx_firstByteSeq (sk_tx s))"

definition BytesInFlight :: "sock \<Rightarrow> (u32 \<times> sock) result" where
  "BytesInFlight s =
    bindE (TxBytesInFlight (sk_tx s)) (\<lambda>bytesInFlight.
      Inr (bytesInFlight, upd_tcb (\<lambda>tcb. tcb\<lparr>m_bytesInFlight := bytesInFlight\<rparr>) s))"

definition Window :: "sock \<Rightarrow> u32" where
  "Window s = min (sk_rWnd s) (m_cWnd (sk_tcb s))"

definition AvailableWindow :: "sock \<Rightarrow> (u32 \<times> sock) result" where
  "AvailableWindow s =
    (let win = Window s in
     bindE (BytesInFlight s) (\<lambda>(inflight, s). Inr (if inflight > win then 0 else win - inflight, s)))"

definition AdvertisedWindowSize :: "bool \<Rightarrow> sock \<Rightarrow> (u16 \<times> sock) result" where
  "AdvertisedWindowSize scale s =
    bindE (if rx_gotFin (sk_rx s) then Inr (sk_advWnd s)
           else let d = seq_minus (MaxRxSequence (sk_rx s)) (rx_nextRxSeq (sk_rx s)) in
                ns_assert 3562 (sint d \<ge> 0) (Inr d)) (\<lambda>w.
      let s = (if w \<noteq> sk_advWnd s then s\<lparr>sk_advWnd := w\<rparr> else s);
          w = (if scale then drop_bit (unat (sk_rcvWindShift s)) w else w);
          w = (if w > ucast (sk_maxWinSize s) then ucast (sk_maxWinSize s) else w)
      in Inr (ucast w, s))"

definition UpdateWindowSize :: "TcpHeader \<Rightarrow> sock \<Rightarrow> sock" where
  "UpdateWindowSize header s =
    (let receivedWindow = push_bit (unat (sk_sndWindShift s)) (ucast (h_windowSize header)) :: u32;
         ack = h_ackNumber header; sq = h_sequenceNumber header
     in if sk_state s < ESTABLISHED then s\<lparr>sk_rWnd := receivedWindow\<rparr>
        else
          let update1 = (ack = sk_highRxAckMark s \<and> receivedWindow > sk_rWnd s);
              update2 = seq_gt ack (sk_highRxAckMark s);
              s1 = (if update2 then s\<lparr>sk_highRxAckMark := ack\<rparr> else s);
              update3 = seq_gt sq (sk_highRxMark s1);
              s2 = (if update3 then s1\<lparr>sk_highRxMark := sq\<rparr> else s1)
          in if update1 \<or> update2 \<or> update3 then s2\<lparr>sk_rWnd := receivedWindow\<rparr> else s2)"

text \<open>The loop of \<open>CalculateWScale\<close>: it halves a positive value and so ends.\<close>

function wscale_loop :: "u32 \<Rightarrow> u16 \<Rightarrow> u8 \<Rightarrow> u8" where
  "wscale_loop maxSpace maxWinSize scale =
    (if maxSpace > ucast maxWinSize then wscale_loop (drop_bit 1 maxSpace) maxWinSize (scale + 1)
     else scale)"
  by pat_completeness auto
termination
proof (relation "measure (\<lambda>(maxSpace, _, _). unat maxSpace)")
  fix maxSpace :: u32 and maxWinSize :: u16 and scale :: u8
  assume "ucast maxWinSize < maxSpace"
  then have "0 < unat maxSpace"
    unfolding word_less_nat_alt by linarith
  then show "((drop_bit 1 maxSpace, maxWinSize, scale + 1), maxSpace, maxWinSize, scale)
      \<in> measure (\<lambda>(maxSpace, _, _). unat maxSpace)"
    by (simp add: drop_bit_eq_div unat_div)
qed simp

declare wscale_loop.simps [simp del]

definition CalculateWScale :: "sock \<Rightarrow> u8" where
  "CalculateWScale s =
    (let scale = wscale_loop (rx_maxBuffer (sk_rx s)) (sk_maxWinSize s) 0
     in if scale > 14 then 14 else scale)"

subsection \<open>Header options\<close>

text \<open>A \<open>DynamicCast\<close> to a class the option does not have gives a null pointer, whose use is undefined.\<close>

definition ProcessOptionWScale :: "TcpOption \<Rightarrow> sock \<Rightarrow> sock result" where
  "ProcessOptionWScale option s =
    (case option of
       TcpOptionWinScale scale \<Rightarrow>
         bindE (GetScale scale) (\<lambda>shift. Inr (s\<lparr>sk_sndWindShift := (if shift > 14 then 14 else shift)\<rparr>))
     | _ \<Rightarrow> Inl (Undefined 4331))"

definition ProcessOptionSackPermitted :: "TcpOption \<Rightarrow> sock \<Rightarrow> sock result" where
  "ProcessOptionSackPermitted option s = ns_assert 4404 (sk_sackEnabled s) (Inr s)"

definition ProcessOptionSack :: "TcpOption \<Rightarrow> sock \<Rightarrow> (u32 \<times> sock) result" where
  "ProcessOptionSack option s =
    (case option of
       TcpOptionSack list \<Rightarrow>
         bindE (Update (SkbDelivered (sk_now s)) list (sk_tx s) (sk_rateOps s)) (\<lambda>(bytes, tx, rate).
           Inr (bytes, s\<lparr>sk_tx := tx, sk_rateOps := rate\<rparr>))
     | _ \<Rightarrow> Inl (Undefined 4394))"

definition ProcessOptionTimestamp :: "TcpOption \<Rightarrow> seq \<Rightarrow> sock \<Rightarrow> sock result" where
  "ProcessOptionTimestamp option sq s =
    (case option of
       TcpOptionTS ts echo \<Rightarrow>
         if m_rcvTimestampValue (sk_tcb s) > ts then Inr s
         else
           let s = upd_tcb (\<lambda>tcb. tcb\<lparr>m_rcvTimestampValue := ts, m_rcvTimestampEchoReply := echo\<rparr>) s
           in Inr (if sq = rx_nextRxSeq (sk_rx s) \<and> seq_le sq (sk_highTxAck s)
                   then s\<lparr>sk_timestampToEcho := ts\<rparr> else s)
     | _ \<Rightarrow> Inl (Undefined 4458))"

definition ProcessOptionCongestionWindow :: "TcpOption \<Rightarrow> sock \<Rightarrow> sock result" where
  "ProcessOptionCongestionWindow option s =
    (case option of
       TcpOptionCwnd cwnd \<Rightarrow>
         Inr (upd_tcb (\<lambda>tcb. tcb\<lparr>m_rcvCwndValue := cwnd\<rparr>)
               (s\<lparr>sk_cwndDiff := sint (cwnd - m_rcvCwndValue (sk_tcb s))\<rparr>))
     | _ \<Rightarrow> Inl (Undefined 4483))"

definition AddOptionTimestamp :: "sock \<Rightarrow> TcpHeader \<Rightarrow> TcpHeader" where
  "AddOptionTimestamp s header =
    snd (AppendOption (TcpOptionTS (NowToTsValue (sk_now s)) (sk_timestampToEcho s)) header)"

definition AddOptionCongestionWindow :: "sock \<Rightarrow> TcpHeader \<Rightarrow> TcpHeader" where
  "AddOptionCongestionWindow s header = snd (AppendOption (TcpOptionCwnd (m_cWnd (sk_tcb s))) header)"

definition AddOptions :: "sock \<Rightarrow> TcpHeader \<Rightarrow> TcpHeader" where
  "AddOptions s header =
    (let header = (if sk_timestampEnabled s then AddOptionTimestamp s header else header)
     in if sk_congestionWindowEnabled s then AddOptionCongestionWindow s header else header)"

definition AddOptionWScale :: "TcpHeader \<Rightarrow> sock \<Rightarrow> (TcpHeader \<times> sock) result" where
  "AddOptionWScale header s =
    ns_assert 4372 (has_flag (h_flags header) SYN)
      (let s = s\<lparr>sk_rcvWindShift := CalculateWScale s\<rparr> in
       bindE (SetScale (sk_rcvWindShift s)) (\<lambda>option. Inr (snd (AppendOption option header), s)))"

definition AddOptionSackPermitted :: "TcpHeader \<Rightarrow> TcpHeader result" where
  "AddOptionSackPermitted header =
    ns_assert 4412 (has_flag (h_flags header) SYN)
      (Inr (snd (AppendOption TcpOptionSackPermitted header)))"

text \<open>The available length is an \<open>uint8_t\<close>; its excess over two is divided towards zero as an \<open>int\<close>.\<close>

definition allowed_sack_blocks :: "TcpHeader \<Rightarrow> nat" where
  "allowed_sack_blocks header = (unat (m_maxOptionsLen - h_optionsLen header) - 2) div 8"

definition AddOptionSack :: "sock \<Rightarrow> TcpHeader \<Rightarrow> TcpHeader" where
  "AddOptionSack s header =
    (let allowed = allowed_sack_blocks header; sackList = rx_sackList (sk_rx s)
     in if allowed = 0 \<or> sackList = [] then header
        else snd (AppendOption (TcpOptionSack (take allowed sackList)) header))"

subsection \<open>Timers and round-trip time history\<close>

definition CancelAllTimers :: "sock \<Rightarrow> sock" where
  "CancelAllTimers s =
    s\<lparr>sk_retxEvent := None, sk_persistEvent := None, sk_delAckEvent := None, sk_lastAckEvent := None,
      sk_timewaitEvent := None, sk_sendPendingDataEvent := None, sk_pacingTimer := None\<rparr>"

definition backoff_rto :: "sock \<Rightarrow> time" where
  "backoff_rto s = GetEstimate (sk_rtt s) + max (sk_clockGranularity s) (GetVariation (sk_rtt s) * 4)"

definition UpdateRttHistory :: "seq \<Rightarrow> u32 \<Rightarrow> bool \<Rightarrow> sock \<Rightarrow> sock" where
  "UpdateRttHistory sq sz isRetransmission s =
    (if \<not> isRetransmission then
       s\<lparr>sk_history := sk_history s @ [\<lparr> rh_seq = sq, rh_count = sz, rh_time = sk_now s, rh_retx = False \<rparr>]\<rparr>
     else
       let hit = (\<lambda>h. seq_ge sq (rh_seq h) \<and> seq_lt sq (rh_seq h + rh_count h));
           h = sk_history s; pre = takeWhile (\<lambda>x. \<not> hit x) h
       in case dropWhile (\<lambda>x. \<not> hit x) h of
            [] \<Rightarrow> s
          | i # rest \<Rightarrow> s\<lparr>sk_history := pre @ i\<lparr>rh_retx := True, rh_count := seq_minus (sq + sz) (rh_seq i)\<rparr> # rest\<rparr>)"

subsection \<open>Empty segments and the end of the socket\<close>

definition DeallocateEndPoint :: "sock \<Rightarrow> sock" where
  "DeallocateEndPoint s =
    (if sk_endPoint s \<noteq> None then (CancelAllTimers s)\<lparr>sk_endPoint := None\<rparr>
     else if sk_endPoint6 s \<noteq> None then (CancelAllTimers s)\<lparr>sk_endPoint6 := None\<rparr>
     else s)"

text \<open>The end point a segment is sent from: the IPv4 one when it exists.\<close>

definition endpoint :: "sock \<Rightarrow> EndPoint option" where
  "endpoint s = (case sk_endPoint s of Some ep \<Rightarrow> Some ep | None \<Rightarrow> sk_endPoint6 s)"

definition SendPacket :: "packet \<Rightarrow> TcpHeader \<Rightarrow> EndPoint \<Rightarrow> sock \<Rightarrow> sock" where
  "SendPacket p header ep s =
    s\<lparr>sk_sent := sk_sent s @ [\<lparr> sg_packet = p, sg_header = header, sg_source = ep_localAddress ep,
                               sg_destination = ep_peerAddress ep \<rparr>]\<rparr>"

text \<open>
  The part of \<open>SendEmptyPacket\<close> for a SYN: the options, and the back-off of the
  connection timeout.  \<open>None\<close> is the early return when no retries are left.
\<close>

definition syn_part :: "app \<Rightarrow> seq \<Rightarrow> TcpHeader \<Rightarrow> sock \<Rightarrow> ((TcpHeader \<times> u16) option \<times> sock) result" where
  "syn_part app sq header s =
    bindE (if sk_winScalingEnabled s then AddOptionWScale header s else Inr (header, s)) (\<lambda>(header, s).
    bindE (if sk_sackEnabled s then AddOptionSackPermitted header else Inr header) (\<lambda>header.
      if sk_synCount s = 0 then
        let s = app NotifyConnectionFailed (s\<lparr>sk_rtt := RttReset (sk_rtt s)\<rparr>)
        in Inr (None, DeallocateEndPoint (s\<lparr>sk_state := CLOSED\<rparr>))
      else
        let shift = unat (sk_synRetries s - sk_synCount s) in
        if shift \<ge> 31 then Inl (Undefined 2870)
        else
          let s = s\<lparr>sk_rto := sk_cnTimeout s * 2 ^ shift, sk_synCount := sk_synCount s - 1\<rparr>;
              s = UpdateRttHistory sq 0 (\<not> (sk_synRetries s - 1 = sk_synCount s)) s
          in bindE (AdvertisedWindowSize False s) (\<lambda>(w, s). Inr (Some (header, w), s))))"

definition SendEmptyPacket :: "app \<Rightarrow> u8 \<Rightarrow> sock \<Rightarrow> sock result" where
  "SendEmptyPacket app flags0 s =
    (case endpoint s of
       None \<Rightarrow> Inr s
     | Some ep \<Rightarrow>
         let flags = (if has_flag flags0 FIN then flags0 OR ACK else flags0);
             sq = (if has_flag flags0 FIN then m_nextTxSequence (sk_tcb s)
                   else if sk_state s \<in> {FIN_WAIT_1, LAST_ACK, CLOSING} then m_nextTxSequence (sk_tcb s) + 1
                   else m_nextTxSequence (sk_tcb s));
             header = new_TcpHeader\<lparr>h_flags := flags, h_sequenceNumber := sq,
               h_ackNumber := rx_nextRxSeq (sk_rx s), h_sourcePort := ep_localPort ep,
               h_destinationPort := ep_peerPort ep\<rparr>;
             header = AddOptions s header;
             s = s\<lparr>sk_rto := max (backoff_rto s) (sk_minRto s)\<rparr>;
             hasSyn = has_flag flags SYN; hasFin = has_flag flags FIN; isAck = (flags = ACK)
         in bindE (AdvertisedWindowSize True s) (\<lambda>(w, s).
            bindE (if hasSyn then syn_part app sq header s else Inr (Some (header, w), s)) (\<lambda>(r, s).
            case r of
              None \<Rightarrow> Inr s
            | Some (header, w) \<Rightarrow>
                let header = header\<lparr>h_windowSize := w\<rparr>;
                    (header, s) =
                      (if has_flag flags ACK then
                         let s = s\<lparr>sk_delAckEvent := None, sk_delAckCount := 0\<rparr>;
                             s = (if seq_lt (sk_highTxAck s) (h_ackNumber header)
                                  then s\<lparr>sk_highTxAck := h_ackNumber header\<rparr> else s)
                         in (if sk_sackEnabled s \<and> GetSackListSize (sk_rx s) > 0
                             then AddOptionSack s header else header, s)
                       else (header, s));
                    s = SendPacket [] header ep s
                in Inr (if sk_retxEvent s = None \<and> (hasSyn \<or> hasFin) \<and> \<not> isAck
                        then s\<lparr>sk_retxEvent := Some (sk_now s + sk_rto s, SendEmptyPacketEvent flags)\<rparr>
                        else s))))"

definition SendRST :: "app \<Rightarrow> sock \<Rightarrow> sock result" where
  "SendRST app s =
    bindE (SendEmptyPacket app RST s) (\<lambda>s. Inr (DeallocateEndPoint (app NotifyErrorClose s)))"

definition CloseAndNotify :: "app \<Rightarrow> sock \<Rightarrow> sock" where
  "CloseAndNotify app s =
    (let s = (if \<not> sk_closeNotified s then (app NotifyNormalClose s)\<lparr>sk_closeNotified := True\<rparr> else s);
         s = s\<lparr>sk_lastAckEvent := None\<rparr>
     in DeallocateEndPoint (s\<lparr>sk_state := CLOSED\<rparr>))"

definition TimeWait :: "app \<Rightarrow> sock \<Rightarrow> sock result" where
  "TimeWait app s =
    (let s = CancelAllTimers (s\<lparr>sk_state := TIME_WAIT\<rparr>);
         s = (if \<not> sk_closeNotified s then (app NotifyNormalClose s)\<lparr>sk_closeNotified := True\<rparr> else s)
     in bindE (Seconds 4132 (d_mul (Fin 2) (sk_msl s))) (\<lambda>t.
          Inr (s\<lparr>sk_timewaitEvent := Some (sk_now s + t)\<rparr>)))"

definition OutOfRange :: "seq \<Rightarrow> seq \<Rightarrow> sock \<Rightarrow> bool" where
  "OutOfRange head tail s \<longleftrightarrow>
    (if sk_state s \<in> {LISTEN, SYN_SENT, SYN_RCVD} then False
     else if sk_state s \<in> {LAST_ACK, CLOSING, CLOSE_WAIT} then rx_nextRxSeq (sk_rx s) \<noteq> head
     else seq_lt tail (rx_nextRxSeq (sk_rx s)) \<or> seq_le (MaxRxSequence (sk_rx s)) head)"

definition IsValidTcpSegment :: "app \<Rightarrow> seq \<Rightarrow> u32 \<Rightarrow> u32 \<Rightarrow> sock \<Rightarrow> (bool \<times> sock) result" where
  "IsValidTcpSegment app sq tcpHeaderSize tcpPayloadSize s =
    (if tcpHeaderSize = 0 \<or> tcpHeaderSize > 60 then Inr (False, s)
     else if tcpPayloadSize > 0 \<and> OutOfRange sq (sq + tcpPayloadSize) s
     then bindE (SendEmptyPacket app ACK s) (\<lambda>s. Inr (False, s))
     else Inr (True, s))"

end
