(* ===== verification/SockRecv.thy ===== *)
theory SockRecv
  imports Sock
begin

text \<open>
  The receiving half of the socket: the delayed-acknowledgement schemes TCP-AAD and
  TCP-ADW, \<open>ReceivedData\<close>, \<open>DelAckTimeout\<close>, and the closing calls it leads to.
\<close>

subsection \<open>Delay window and delay timeout\<close>

definition GetTimeRatio :: "sock \<Rightarrow> double" where
  "GetTimeRatio s =
    (let timeRatio =
           (if d_less (sk_iat s) (d_mul (sk_lambda s) (sk_baseIat s))
            then d_div (d_sub (sk_baseIat s) (sk_iat s)) (sk_baseIat s)
            else d_sub (Fin 1) (sk_lambda s))
     in d_div (d_add timeRatio (d_sub (sk_lambda s) (Fin 1))) (sk_lambda s))"

definition initial_delay_window :: "sock \<Rightarrow> double" where
  "initial_delay_window s = d_mul (sk_lambda s) (d_of_u32 (GetSegSize s))"

definition UpdateDelayWindow :: "double \<Rightarrow> sock \<Rightarrow> sock result" where
  "UpdateDelayWindow theta s =
    bindE (AdvertisedWindowSize False s) (\<lambda>(adv, s).
      let R = d_of_u32 (min (m_rcvCwndValue (sk_tcb s)) (ucast adv)) in
      Inr (if sk_cwndDiff s > 0 then
             s\<lparr>sk_dwnd := d_min (d_add (sk_dwnd s) (d_mul (d_sub (Fin 1) theta) (d_of_u32 (GetSegSize s)))) R\<rparr>
           else if sk_cwndDiff s < 0 then s\<lparr>sk_dwnd := initial_delay_window s\<rparr>
           else s))"

definition GetDelayTimeout :: "sock \<Rightarrow> time result" where
  "GetDelayTimeout s =
    (if \<not> sk_adwEnabled s \<and> \<not> sk_aadEnabled s then Inr (sk_delAckTimeout s)
     else if sk_delAckCount s < sk_delAckMaxCount s \<and> sk_aadEnabled s then Inr (sk_delAckTimeout s)
     else
       let smoothedIat = d_add (d_mul (sk_alpha s) (sk_baseIat s))
                               (d_mul (d_sub (Fin 1) (sk_alpha s)) (sk_iat s));
           parameter = (if sk_adwEnabled s then sk_lambda s else sk_beta s)
       in bindE (Seconds 4875 (d_mul parameter smoothedIat)) (\<lambda>t. Inr (min t (sk_delAckTimeout s))))"

definition DelayWindow :: "sock \<Rightarrow> double" where
  "DelayWindow s =
    (if sk_adwEnabled s then d_div (sk_dwnd s) (d_of_u32 (GetSegSize s))
     else if sk_aadEnabled s then PInf
     else d_of_u32 (sk_delAckMaxCount s))"

subsection \<open>Acknowledgements\<close>

text \<open>None of the modelled algorithms overrides \<open>CwndEvent\<close>.\<close>

definition cc_CwndEvent :: "TcpCAEvent \<Rightarrow> sock \<Rightarrow> sock" where
  "cc_CwndEvent event s = upd_tcb (\<lambda>tcb. Base_CwndEvent tcb event) s"

definition ecn_echo :: "sock \<Rightarrow> bool" where
  "ecn_echo s \<longleftrightarrow> m_ecnState (sk_tcb s) \<in> {ECN_CE_RCVD, ECN_SENDING_ECE}"

definition send_ack :: "app \<Rightarrow> sock \<Rightarrow> sock result" where
  "send_ack app s =
    (if ecn_echo s then
       bindE (SendEmptyPacket app (ACK OR ECE) s)
         (\<lambda>s. Inr (upd_tcb (\<lambda>tcb. tcb\<lparr>m_ecnState := ECN_SENDING_ECE\<rparr>) s))
     else SendEmptyPacket app ACK s)"

definition DelAckTimeout :: "app \<Rightarrow> sock \<Rightarrow> sock result" where
  "DelAckTimeout app s =
    (let s = s\<lparr>sk_dwnd := d_max (initial_delay_window s)
                            (d_sub (sk_dwnd s) (d_sub (Fin 1) (GetTimeRatio s)))\<rparr>
     in send_ack app (cc_CwndEvent CA_EVENT_DELAYED_ACK s))"

text \<open>The simulator runs the event: it has expired when the handler is called.\<close>

definition fire_DelAck :: "app \<Rightarrow> sock \<Rightarrow> sock result" where
  "fire_DelAck app s = DelAckTimeout app (s\<lparr>sk_delAckEvent := None\<rparr>)"

subsection \<open>Closing\<close>

definition DoClose :: "app \<Rightarrow> sock \<Rightarrow> sock result" where
  "DoClose app s =
    (case sk_state s of
       SYN_RCVD \<Rightarrow> bindE (SendEmptyPacket app FIN s) (\<lambda>s. Inr (s\<lparr>sk_state := FIN_WAIT_1\<rparr>))
     | ESTABLISHED \<Rightarrow> bindE (SendEmptyPacket app FIN s) (\<lambda>s. Inr (s\<lparr>sk_state := FIN_WAIT_1\<rparr>))
     | CLOSE_WAIT \<Rightarrow> bindE (SendEmptyPacket app (FIN OR ACK) s) (\<lambda>s. Inr (s\<lparr>sk_state := LAST_ACK\<rparr>))
     | SYN_SENT \<Rightarrow> bindE (SendRST app s) (\<lambda>s. Inr (CloseAndNotify app s))
     | CLOSING \<Rightarrow> bindE (SendRST app s) (\<lambda>s. Inr (CloseAndNotify app s))
     | LISTEN \<Rightarrow> Inr (CloseAndNotify app s)
     | _ \<Rightarrow> Inr s)"

definition SockClose :: "app \<Rightarrow> sock \<Rightarrow> sock result" where
  "SockClose app s =
    (if rx_size (sk_rx s) \<noteq> 0 then SendRST app s
     else if SizeFromSequence (m_nextTxSequence (sk_tcb s)) (sk_tx s) > 0
     then Inr (if \<not> sk_closeOnEmpty s then s\<lparr>sk_closeOnEmpty := True\<rparr> else s)
     else DoClose app s)"

definition ShutdownSend :: "app \<Rightarrow> sock \<Rightarrow> sock result" where
  "ShutdownSend app s =
    (let s = s\<lparr>sk_shutdownSend := True, sk_closeOnEmpty := True\<rparr>
     in if tx_size (sk_tx s) = 0 \<and> sk_state s \<in> {ESTABLISHED, CLOSE_WAIT}
        then bindE (SendEmptyPacket app FIN s) (\<lambda>s.
               Inr (s\<lparr>sk_state := (if sk_state s = ESTABLISHED then FIN_WAIT_1 else LAST_ACK)\<rparr>))
        else Inr s)"

definition ShutdownRecv :: "sock \<Rightarrow> sock" where
  "ShutdownRecv s = s\<lparr>sk_shutdownRecv := True\<rparr>"

definition DoPeerClose :: "app \<Rightarrow> sock \<Rightarrow> sock result" where
  "DoPeerClose app s =
    ns_assert 2729 (sk_state s \<in> {ESTABLISHED, SYN_RCVD, FIN_WAIT_1, FIN_WAIT_2})
     (let s = s\<lparr>sk_state := CLOSE_WAIT\<rparr>;
          s = (if \<not> sk_closeNotified s then (app NotifyNormalClose s)\<lparr>sk_closeNotified := True\<rparr> else s)
      in bindE (if sk_shutdownSend s then SockClose app s else SendEmptyPacket app ACK s) (\<lambda>s.
           Inr (if sk_state s = LAST_ACK
                then s\<lparr>sk_dataRetrCount := sk_dataRetries s,
                       sk_lastAckEvent := Some (sk_now s + backoff_rto s)\<rparr>
                else s)))"

subsection \<open>ReceivedData\<close>

definition update_iat :: "sock \<Rightarrow> sock result" where
  "update_iat s =
    (if sk_lastPacketTime s = Time_Min then Inr (s\<lparr>sk_dwnd := initial_delay_window s\<rparr>)
     else
       let s = s\<lparr>sk_iat := GetSeconds (sk_now s - sk_lastPacketTime s)\<rparr>
       in if d_le (sk_iatThreshold s) (sk_iat s) then
            let s = (if sk_aadEnabled s \<and> d_less (Fin 1) (GetSeconds (sk_now s - sk_lastUpdate s))
                     then s\<lparr>sk_baseIat := PInf, sk_lastUpdate := sk_now s\<rparr> else s);
                s = s\<lparr>sk_baseIat := d_min (sk_iat s) (sk_baseIat s)\<rparr>
            in UpdateDelayWindow (GetTimeRatio s) s
          else Inr s)"

definition issue_timeout :: "sock \<Rightarrow> sock result" where
  "issue_timeout s =
    bindE (GetDelayTimeout s) (\<lambda>t. Inr (s\<lparr>sk_delAckEvent := Some (sk_now s + t)\<rparr>))"

text \<open>Lines 3669 to 3725: acknowledge the data now or later.\<close>

definition ack_or_delay :: "app \<Rightarrow> seq \<Rightarrow> packet \<Rightarrow> sock \<Rightarrow> sock result" where
  "ack_or_delay app expectedSeq p s =
    (if rx_size (sk_rx s) > rx_availBytes (sk_rx s)
        \<or> seq_gt (rx_nextRxSeq (sk_rx s)) (expectedSeq + pkt_size p)
     then
       let s = cc_CwndEvent CA_EVENT_NON_DELAYED_ACK s
       in send_ack app (s\<lparr>sk_dwnd := initial_delay_window s\<rparr>)
     else
       let s = s\<lparr>sk_delAckCount := sk_delAckCount s + 1\<rparr>
       in if d_le (DelayWindow s) (d_of_u32 (sk_delAckCount s)) then
            send_ack app (cc_CwndEvent CA_EVENT_NON_DELAYED_ACK
                            (s\<lparr>sk_delAckEvent := None, sk_delAckCount := 0\<rparr>))
          else if sk_delAckEvent s \<noteq> None then
            let s = cc_CwndEvent CA_EVENT_DELAYED_ACK s
            in if sk_adwEnabled s \<or> sk_aadEnabled s
               then issue_timeout (s\<lparr>sk_delAckEvent := None\<rparr>) else Inr s
          else issue_timeout (cc_CwndEvent CA_EVENT_DELAYED_ACK s))"

definition ReceivedData :: "app \<Rightarrow> packet \<Rightarrow> TcpHeader \<Rightarrow> sock \<Rightarrow> sock result" where
  "ReceivedData app p tcpHeader s =
    bindE (update_iat s) (\<lambda>s.
      let s = s\<lparr>sk_lastPacketTime := sk_now s\<rparr>;
          expectedSeq = rx_nextRxSeq (sk_rx s)
      in bindE (RxAdd p (h_sequenceNumber tcpHeader) (sk_rx s)) (\<lambda>(added, rx).
         let s = s\<lparr>sk_rx := rx\<rparr> in
         if \<not> added then send_ack app s
         else if seq_lt expectedSeq (rx_nextRxSeq (sk_rx s)) then
           let s = (if \<not> sk_shutdownRecv s then app NotifyDataRecv s else s)
           in if Finished (sk_rx s) \<and> \<not> has_flag (h_flags tcpHeader) FIN then DoPeerClose app s
              else ack_or_delay app expectedSeq p s
         else ack_or_delay app expectedSeq p s))"

definition PeerClose :: "app \<Rightarrow> packet \<Rightarrow> TcpHeader \<Rightarrow> sock \<Rightarrow> sock result" where
  "PeerClose app p tcpHeader s =
    (let sq = h_sequenceNumber tcpHeader in
     if seq_lt sq (rx_nextRxSeq (sk_rx s)) \<or> seq_gt sq (MaxRxSequence (sk_rx s)) then Inr s
     else
       let s = s\<lparr>sk_rx := SetFinSequence (sq + pkt_size p) (sk_rx s)\<rparr>
       in bindE (if pkt_size p \<noteq> 0 then ReceivedData app p tcpHeader s else Inr s) (\<lambda>s.
            if \<not> Finished (sk_rx s) then Inr s
            else if sk_state s = FIN_WAIT_1 then Inr (s\<lparr>sk_state := CLOSING\<rparr>)
            else DoPeerClose app s))"

end
