(* ===== verification/SockProps.thy ===== *)
theory SockProps
  imports SockRecv TcpHdrProps
begin

text \<open>
  Facts about the shared operations of the socket and the receiving half: the window a
  socket advertises and what its peer makes of it, the empty segments it sends, and
  the bound on the delay of an acknowledgement.
\<close>

subsection \<open>Specification of acknowledgements\<close>

text \<open>The window in bytes, and the field of the header it is sent in.\<close>

definition adv_window :: "sock \<Rightarrow> u32" where
  "adv_window s =
    (if rx_gotFin (sk_rx s) then sk_advWnd s else MaxRxSequence (sk_rx s) - rx_nextRxSeq (sk_rx s))"

definition adv_field :: "bool \<Rightarrow> sock \<Rightarrow> u16" where
  "adv_field scale s =
    ucast (min (if scale then drop_bit (unat (sk_rcvWindShift s)) (adv_window s) else adv_window s)
               (ucast (sk_maxWinSize s)) :: u32)"

definition window_ok :: "sock \<Rightarrow> bool" where
  "window_ok s \<longleftrightarrow> rx_gotFin (sk_rx s) \<or> unat (adv_window s) < 2 ^ 31"

text \<open>The header of a pure acknowledgement.\<close>

definition ack_sequence :: "sock \<Rightarrow> seq" where
  "ack_sequence s =
    (if sk_state s \<in> {FIN_WAIT_1, LAST_ACK, CLOSING} then m_nextTxSequence (sk_tcb s) + 1
     else m_nextTxSequence (sk_tcb s))"

definition ack_header :: "u8 \<Rightarrow> EndPoint \<Rightarrow> sock \<Rightarrow> TcpHeader" where
  "ack_header flags ep s =
    (let h = (AddOptions s (new_TcpHeader\<lparr>h_flags := flags, h_sequenceNumber := ack_sequence s,
               h_ackNumber := rx_nextRxSeq (sk_rx s), h_sourcePort := ep_localPort ep,
               h_destinationPort := ep_peerPort ep\<rparr>))\<lparr>h_windowSize := adv_field True s\<rparr>
     in if sk_sackEnabled s \<and> GetSackListSize (sk_rx s) > 0 then AddOptionSack s h else h)"

definition ack_segment :: "u8 \<Rightarrow> EndPoint \<Rightarrow> sock \<Rightarrow> segment" where
  "ack_segment flags ep s =
    \<lparr> sg_packet = [], sg_header = ack_header flags ep s, sg_source = ep_localAddress ep,
      sg_destination = ep_peerAddress ep \<rparr>"

text \<open>The socket after a pure acknowledgement was sent.\<close>

definition after_ack :: "u8 \<Rightarrow> EndPoint \<Rightarrow> sock \<Rightarrow> sock" where
  "after_ack flags ep s =
    s\<lparr>sk_rto := max (backoff_rto s) (sk_minRto s), sk_advWnd := adv_window s, sk_delAckEvent := None,
      sk_delAckCount := 0,
      sk_highTxAck := (if seq_lt (sk_highTxAck s) (rx_nextRxSeq (sk_rx s)) then rx_nextRxSeq (sk_rx s)
                       else sk_highTxAck s),
      sk_sent := sk_sent s @ [ack_segment flags ep s]\<rparr>"

definition ack_flags :: "u8 \<Rightarrow> bool" where
  "ack_flags flags \<longleftrightarrow> flags = ACK \<or> flags = ACK OR ECE"

text \<open>The options of a pure acknowledgement: at most 40 bytes, the SACK blocks taking what is left.\<close>

definition ack_sack_room :: "sock \<Rightarrow> nat" where
  "ack_sack_room s =
    (38 - (if sk_timestampEnabled s then 10 else 0) - (if sk_congestionWindowEnabled s then 6 else 0)) div 8"

definition ack_options :: "sock \<Rightarrow> TcpOption list" where
  "ack_options s =
    (if sk_timestampEnabled s then [TcpOptionTS (NowToTsValue (sk_now s)) (sk_timestampToEcho s)] else [])
    @ (if sk_congestionWindowEnabled s then [TcpOptionCwnd (m_cWnd (sk_tcb s))] else [])
    @ (if sk_sackEnabled s \<and> rx_sackList (sk_rx s) \<noteq> []
       then [TcpOptionSack (take (ack_sack_room s) (rx_sackList (sk_rx s)))] else [])"

definition base_options :: "sock \<Rightarrow> TcpOption list" where
  "base_options s =
    (if sk_timestampEnabled s then [TcpOptionTS (NowToTsValue (sk_now s)) (sk_timestampToEcho s)] else [])
    @ (if sk_congestionWindowEnabled s then [TcpOptionCwnd (m_cWnd (sk_tcb s))] else [])"

definition demo_ep :: EndPoint where
  "demo_ep = \<lparr> ep_localAddress = Ipv4Address [10, 0, 0, 1], ep_localPort = 80,
    ep_peerAddress = Ipv4Address [10, 0, 0, 2], ep_peerPort = 4000 \<rparr>"

definition demo_sock :: sock where
  "demo_sock = new_sock\<lparr>sk_now := 1000000000, sk_endPoint := Some demo_ep, sk_state := ESTABLISHED,
     sk_connected := True, sk_maxWinSize := 65535, sk_delAckMaxCount := 2, sk_delAckTimeout := 200000000,
     sk_minRto := 1000000000, sk_rx := TcpRxBuffer 1,
     sk_tcb := new_TcpSocketState\<lparr>m_segmentSize := 536, m_cWnd := 5360, m_ssThresh := 65535,
                                  m_nextTxSequence := 1\<rparr>\<rparr>"

definition demo_sack_sock :: sock where
  "demo_sack_sock = demo_sock\<lparr>sk_rx := (TcpRxBuffer 1)\<lparr>rx_sackList :=
     [(101, 201), (301, 401), (501, 601), (701, 801)]\<rparr>\<rparr>"

subsection \<open>Windows\<close>

lemma AdvertisedWindowSize_eq:
  assumes "window_ok s"
  shows "AdvertisedWindowSize scale s = Inr (adv_field scale s, s\<lparr>sk_advWnd := adv_window s\<rparr>)"
proof -
  have upd: "(if w \<noteq> sk_advWnd s then s\<lparr>sk_advWnd := w\<rparr> else s) = s\<lparr>sk_advWnd := w\<rparr>" for w
    by (cases s) simp
  have mx: "(if w > x then x else w) = min w x" for w x :: u32
    by (metis less_imp_le min.absorb1 min.absorb2 not_less)
  have "(if rx_gotFin (sk_rx s) then Inr (sk_advWnd s)
         else let d = seq_minus (MaxRxSequence (sk_rx s)) (rx_nextRxSeq (sk_rx s))
              in ns_assert 3562 (sint d \<ge> 0) (Inr d)) = Inr (adv_window s)"
    using assms sint_small [of "adv_window s"]
    by (auto simp: window_ok_def adv_window_def seq_minus_wraps Let_def)
  then show ?thesis
    unfolding AdvertisedWindowSize_def by (simp add: Let_def upd mx adv_field_def)
qed

subsection \<open>Headers\<close>

lemma append_option_keeps:
  "h_flags (snd (AppendOption op h)) = h_flags h"
  "h_sequenceNumber (snd (AppendOption op h)) = h_sequenceNumber h"
  "h_ackNumber (snd (AppendOption op h)) = h_ackNumber h"
  "h_windowSize (snd (AppendOption op h)) = h_windowSize h"
  "h_sourcePort (snd (AppendOption op h)) = h_sourcePort h"
  "h_destinationPort (snd (AppendOption op h)) = h_destinationPort h"
  "h_calcChecksum (snd (AppendOption op h)) = h_calcChecksum h"
  by (simp_all add: AppendOption_def Let_def)

lemmas option_adders = AddOptions_def AddOptionTimestamp_def AddOptionCongestionWindow_def AddOptionSack_def

lemma add_options_keeps:
  "h_flags (AddOptions s h) = h_flags h" "h_sequenceNumber (AddOptions s h) = h_sequenceNumber h"
  "h_ackNumber (AddOptions s h) = h_ackNumber h" "h_sourcePort (AddOptions s h) = h_sourcePort h"
  "h_destinationPort (AddOptions s h) = h_destinationPort h" "h_calcChecksum (AddOptions s h) = h_calcChecksum h"
  "h_flags (AddOptionSack s h) = h_flags h" "h_sequenceNumber (AddOptionSack s h) = h_sequenceNumber h"
  "h_ackNumber (AddOptionSack s h) = h_ackNumber h" "h_sourcePort (AddOptionSack s h) = h_sourcePort h"
  "h_destinationPort (AddOptionSack s h) = h_destinationPort h" "h_windowSize (AddOptionSack s h) = h_windowSize h"
  "h_calcChecksum (AddOptionSack s h) = h_calcChecksum h"
  by (simp_all add: option_adders Let_def append_option_keeps)

lemma add_options_record:
  "AddOptions (s\<lparr>sk_rto := a\<rparr>) h = AddOptions s h" "AddOptionSack (s\<lparr>sk_rto := a\<rparr>) h = AddOptionSack s h"
  "AddOptionSack (s\<lparr>sk_advWnd := w\<rparr>) h = AddOptionSack s h"
  "AddOptionSack (s\<lparr>sk_delAckEvent := e\<rparr>) h = AddOptionSack s h"
  "AddOptionSack (s\<lparr>sk_delAckCount := n\<rparr>) h = AddOptionSack s h"
  "AddOptionSack (s\<lparr>sk_highTxAck := n\<rparr>) h = AddOptionSack s h"
  by (simp_all add: option_adders Let_def)

lemma ack_flags_bits:
  assumes "ack_flags flags"
  shows "\<not> has_flag flags FIN" "\<not> has_flag flags SYN" "has_flag flags ACK"
  using assms by (auto simp: ack_flags_def has_flag_def FIN_def SYN_def ACK_def ECE_def)

text \<open>A pure acknowledgement is always sent, and changes nothing else.\<close>

lemma SendEmptyPacket_ack:
  assumes "endpoint s = Some ep" "window_ok s" "ack_flags flags"
  shows "SendEmptyPacket app flags s = Inr (after_ack flags ep s)"
proof -
  let ?r = "s\<lparr>sk_rto := max (backoff_rto s) (sk_minRto s)\<rparr>"
  have w: "adv_window ?r = adv_window s" "adv_field True ?r = adv_field True s"
    by (simp_all add: adv_field_def adv_window_def)
  have ok: "window_ok ?r"
    using assms(2) unfolding window_ok_def w(1) by simp
  note bits = ack_flags_bits [OF assms(3)]
  note adv = AdvertisedWindowSize_eq [OF ok, of True, unfolded w]
  have sq: "(if sk_state s \<in> {FIN_WAIT_1, LAST_ACK, CLOSING} then m_nextTxSequence (sk_tcb s) + 1
      else m_nextTxSequence (sk_tcb s)) = ack_sequence s"
    by (simp add: ack_sequence_def)
  show ?thesis
    unfolding SendEmptyPacket_def assms(1) option.case Let_def sq
    by (simp add: bits adv sq add_options_keeps after_ack_def ack_segment_def ack_header_def Let_def
        SendPacket_def add_options_record)
qed

subsection \<open>The options of an acknowledgement\<close>

lemma append_fits:
  assumes "hdr_ok h" "opt_ok op" "IsKindKnown (GetKind op)" "GetKind op \<noteq> 0"
    and "options_bytes (h_options h) + unat (OptSerializedSize op) \<le> 40"
  shows "hdr_ok (snd (AppendOption op h))" "h_options (snd (AppendOption op h)) = h_options h @ [op]"
proof -
  from append_option_cases [OF assms(1,2)]
  show "hdr_ok (snd (AppendOption op h))" "h_options (snd (AppendOption op h)) = h_options h @ [op]"
    using assms(3-5) by (auto split: prod.splits)
qed

lemma hdr_ok_record [simp]:
  "hdr_ok (h\<lparr>h_windowSize := w\<rparr>) = hdr_ok h" "hdr_ok (h\<lparr>h_flags := f\<rparr>) = hdr_ok h"
  "hdr_ok (h\<lparr>h_sequenceNumber := q\<rparr>) = hdr_ok h" "hdr_ok (h\<lparr>h_ackNumber := q\<rparr>) = hdr_ok h"
  "hdr_ok (h\<lparr>h_sourcePort := p\<rparr>) = hdr_ok h" "hdr_ok (h\<lparr>h_destinationPort := p\<rparr>) = hdr_ok h"
  by (simp_all add: hdr_ok_def)

lemma hdr_ok_new [simp]: "hdr_ok new_TcpHeader" "h_options new_TcpHeader = []"
  by (simp_all add: hdr_ok_def new_TcpHeader_def)

lemma add_options_ok:
  assumes "hdr_ok h" "h_options h = []"
  shows "hdr_ok (AddOptions s h) \<and> h_options (AddOptions s h) = base_options s"
proof -
  let ?ts = "TcpOptionTS (NowToTsValue (sk_now s)) (sk_timestampToEcho s)" and ?cw = "TcpOptionCwnd (m_cWnd (sk_tcb s))"
  have ts: "hdr_ok (snd (AppendOption ?ts h))" "h_options (snd (AppendOption ?ts h)) = [?ts]"
    using append_fits [OF assms(1), of ?ts] assms(2) by (simp_all add: IsKindKnown_def)
  have cw: "hdr_ok (snd (AppendOption ?cw h))" "h_options (snd (AppendOption ?cw h)) = [?cw]"
    using append_fits [OF assms(1), of ?cw] assms(2) by (simp_all add: IsKindKnown_def)
  have both: "hdr_ok (snd (AppendOption ?cw (snd (AppendOption ?ts h))))"
    "h_options (snd (AppendOption ?cw (snd (AppendOption ?ts h)))) = [?ts, ?cw]"
    using append_fits [OF ts(1), of ?cw] ts(2) by (simp_all add: IsKindKnown_def)
  show ?thesis
    using assms ts cw both
    by (simp add: AddOptions_def AddOptionTimestamp_def AddOptionCongestionWindow_def base_options_def Let_def)
qed

lemma add_sack_ok:
  assumes "hdr_ok h" "h_options h = base_options s"
  shows "hdr_ok (AddOptionSack s h) \<and> h_options (AddOptionSack s h) = base_options s @
    (if rx_sackList (sk_rx s) \<noteq> [] then [TcpOptionSack (take (ack_sack_room s) (rx_sackList (sk_rx s)))] else [])"
proof -
  let ?op = "TcpOptionSack (take (ack_sack_room s) (rx_sackList (sk_rx s)))"
  have n: "unat (h_optionsLen h) = options_bytes (base_options s)" "options_bytes (base_options s) \<le> 16"
    using assms by (simp_all add: hdr_ok_def base_options_def)
  have "unat (m_maxOptionsLen - h_optionsLen h) = 40 - options_bytes (base_options s)"
    using n by (simp add: m_maxOptionsLen_def unat_sub word_le_nat_alt)
  then have room: "allowed_sack_blocks h = ack_sack_room s"
    by (simp add: allowed_sack_blocks_def ack_sack_room_def base_options_def)
  have r: "2 \<le> ack_sack_room s" "ack_sack_room s \<le> 4"
    "options_bytes (base_options s) + (2 + ack_sack_room s * 8) \<le> 40"
    by (simp_all add: ack_sack_room_def base_options_def)
  define l where "l = take (ack_sack_room s) (rx_sackList (sk_rx s))"
  have len: "length l \<le> ack_sack_room s"
    by (simp add: l_def)
  then have sz: "unat (OptSerializedSize (TcpOptionSack l)) = 2 + length l * 8"
    using sack_length(1) [of "length l"] r by (simp add: GetNumSackBlocks_def add.commute)
  then have fit: "options_bytes (h_options h) + unat (OptSerializedSize (TcpOptionSack l)) \<le> 40"
    unfolding sz assms(2) using len r by linarith
  have ok: "opt_ok (TcpOptionSack l)" "IsKindKnown (GetKind (TcpOptionSack l))" "GetKind (TcpOptionSack l) \<noteq> 0"
    using len r by (simp_all add: IsKindKnown_def)
  have "hdr_ok (snd (AppendOption (TcpOptionSack l) h))"
    "h_options (snd (AppendOption (TcpOptionSack l) h)) = h_options h @ [TcpOptionSack l]"
    using append_fits [OF assms(1) ok fit] by simp_all
  with r assms show ?thesis
    by (simp add: AddOptionSack_def Let_def room l_def)
qed

lemma ack_header_ok:
  assumes "length (rx_sackList (sk_rx s)) < 2 ^ 32"
  shows "hdr_ok (ack_header flags ep s) \<and> h_options (ack_header flags ep s) = ack_options s"
proof -
  let ?h = "(AddOptions s (new_TcpHeader\<lparr>h_flags := flags, h_sequenceNumber := ack_sequence s,
               h_ackNumber := rx_nextRxSeq (sk_rx s), h_sourcePort := ep_localPort ep,
               h_destinationPort := ep_peerPort ep\<rparr>))\<lparr>h_windowSize := adv_field True s\<rparr>"
  have h: "hdr_ok ?h" "h_options ?h = base_options s"
    using add_options_ok by simp_all
  have "unat (GetSackListSize (sk_rx s)) = length (rx_sackList (sk_rx s))"
    using assms by (simp add: GetSackListSize_def)
  then have "GetSackListSize (sk_rx s) > 0 \<longleftrightarrow> rx_sackList (sk_rx s) \<noteq> []"
    by (simp add: word_less_nat_alt)
  then show ?thesis
    using h add_sack_ok [OF h] by (simp add: ack_header_def Let_def ack_options_def base_options_def)
qed

subsection \<open>Properties\<close>

text \<open>
  C8: a pure acknowledgement reaches the peer as it was meant.  \<open>SendEmptyPacket\<close>
  with \<open>ACK\<close>, with or without \<open>ECE\<close>, always sends exactly one segment; its header,
  written and parsed, gives the acknowledgement number, the scaled window and the options
  that were meant: the timestamp, the congestion window, and as many SACK blocks as fit
  in 40 bytes behind them, at least two.  It also stops the delayed-ACK timer.
\<close>

theorem acks_reach_peer:
  assumes "endpoint s = Some ep" "window_ok s" "ack_flags flags" "length (rx_sackList (sk_rx s)) < 2 ^ 32"
  shows "\<exists>s' sg b. SendEmptyPacket app flags s = Inr s' \<and> sk_sent s' = sk_sent s @ [sg]
    \<and> sk_delAckEvent s' = None \<and> sk_delAckCount s' = 0 \<and> sg_packet sg = []
    \<and> Serialize (sg_header sg) [] = Inr b
    \<and> Deserialize b new_TcpHeader = Inr (received (sg_header sg) new_TcpHeader, of_nat (length b))
    \<and> h_flags (sg_header sg) = flags \<and> h_ackNumber (sg_header sg) = rx_nextRxSeq (sk_rx s)
    \<and> h_windowSize (sg_header sg) = adv_field True s
    \<and> h_options (sg_header sg) = ack_options s \<and> 2 \<le> ack_sack_room s"
proof -
  let ?h = "ack_header flags ep s"
  have h: "hdr_ok ?h" "h_options ?h = ack_options s"
    using ack_header_ok [OF assms(4)] by blast+
  have f: "h_flags ?h = flags" "h_ackNumber ?h = rx_nextRxSeq (sk_rx s)" "h_windowSize ?h = adv_field True s"
    "\<not> h_calcChecksum ?h" "\<not> h_calcChecksum new_TcpHeader"
    by (simp_all add: ack_header_def Let_def add_options_keeps new_TcpHeader_def)
  from parse_written_header [OF h(1) f(4,5), of "[]"] obtain b
    where "Serialize ?h [] = Inr b" "Deserialize b new_TcpHeader = Inr (received ?h new_TcpHeader, of_nat (length b))"
    by auto
  moreover have "2 \<le> ack_sack_room s"
    by (simp add: ack_sack_room_def)
  ultimately show ?thesis
    using h f SendEmptyPacket_ack [OF assms(1-3)]
    by (intro exI [of _ "after_ack flags ep s"] exI [of _ "ack_segment flags ep s"] exI [of _ b])
      (simp add: after_ack_def ack_segment_def)
qed

lemma demo_sack_sock_facts:
  "endpoint demo_sack_sock = Some demo_ep" "window_ok demo_sack_sock" "ack_flags ACK"
  "length (rx_sackList (sk_rx demo_sack_sock)) < 2 ^ 32"
  "ack_options demo_sack_sock = [TcpOptionTS 1000 0, TcpOptionSack [(101, 201), (301, 401), (501, 601)]]"
  "adv_field True demo_sack_sock = 32768" "rx_nextRxSeq (sk_rx demo_sack_sock) = 1"
  by (simp_all add: demo_sack_sock_def demo_sock_def new_sock_def endpoint_def window_ok_def adv_window_def
      TcpRxBuffer_def MaxRxSequence_def ack_flags_def ack_options_def ack_sack_room_def NowToTsValue_def
      adv_field_def)

theorem acks_reach_peer_witness:
  "\<exists>s' sg b. SendEmptyPacket (\<lambda>u s. s) ACK demo_sack_sock = Inr s' \<and> sk_sent s' = sk_sent demo_sack_sock @ [sg]
    \<and> Serialize (sg_header sg) [] = Inr b
    \<and> Deserialize b new_TcpHeader = Inr (received (sg_header sg) new_TcpHeader, of_nat (length b))
    \<and> h_ackNumber (sg_header sg) = 1 \<and> h_windowSize (sg_header sg) = 32768
    \<and> h_options (sg_header sg) = [TcpOptionTS 1000 0, TcpOptionSack [(101, 201), (301, 401), (501, 601)]]"
proof -
  from acks_reach_peer [OF demo_sack_sock_facts(1-4), of "\<lambda>u s. s"] obtain s' sg b
    where r: "SendEmptyPacket (\<lambda>u s. s) ACK demo_sack_sock = Inr s'" "sk_sent s' = sk_sent demo_sack_sock @ [sg]"
      "Serialize (sg_header sg) [] = Inr b"
      "Deserialize b new_TcpHeader = Inr (received (sg_header sg) new_TcpHeader, of_nat (length b))"
      "h_ackNumber (sg_header sg) = rx_nextRxSeq (sk_rx demo_sack_sock)"
      "h_windowSize (sg_header sg) = adv_field True demo_sack_sock"
      "h_options (sg_header sg) = ack_options demo_sack_sock"
    by (elim exE conjE) (rule that)
  from r(1-4) r(5-7) [unfolded demo_sack_sock_facts(5-7)] show ?thesis
    by (intro exI conjI)
qed

text \<open>The loop of \<open>CalculateWScale\<close> finds the least shift that brings the buffer below the limit.\<close>

lemma wscale_loop_least:
  "\<exists>k. wscale_loop m w c = c + of_nat k \<and> unat m div 2 ^ k \<le> unat w \<and> (\<forall>j < k. unat w < unat m div 2 ^ j)"
proof (induction m w c rule: wscale_loop.induct)
  case (1 m w c)
  have w: "unat (ucast w :: u32) = unat w"
    using unsigned_less [of w, where 'a = nat] by (simp add: unat_ucast_mod)
  have half: "unat (drop_bit 1 m) = unat m div 2"
    by (simp add: drop_bit_eq_div unat_div)
  show ?case
  proof (cases "m > ucast w")
    case True
    from 1 [OF this] obtain k where k: "wscale_loop (drop_bit 1 m) w (c + 1) = c + 1 + of_nat k"
      "unat m div 2 div 2 ^ k \<le> unat w" "\<forall>j < k. unat w < unat m div 2 div 2 ^ j"
      unfolding half by blast
    have "unat w < unat m div 2 ^ j" if "j < Suc k" for j
      using that True k(3) by (cases j) (auto simp: word_less_nat_alt w div_mult2_eq)
    moreover have "wscale_loop m w c = c + of_nat (Suc k)"
      using True k(1) by (subst wscale_loop.simps) (simp add: algebra_simps)
    ultimately show ?thesis
      using k(2) by (intro exI [of _ "Suc k"]) (simp add: div_mult2_eq)
  next
    case False
    then have "unat m \<le> unat w"
      using w by (simp add: word_le_nat_alt not_less)
    moreover have "wscale_loop m w c = c"
      using False by (subst wscale_loop.simps) simp
    ultimately show ?thesis
      by (intro exI [of _ 0]) simp
  qed
qed

lemma CalculateWScale_fits:
  assumes "sk_maxWinSize s = 65535" "unat (rx_maxBuffer (sk_rx s)) < 2 ^ 30"
  shows "unat (CalculateWScale s) \<le> 14"
    and "unat (rx_maxBuffer (sk_rx s)) div 2 ^ unat (CalculateWScale s) \<le> 65535"
proof -
  let ?m = "unat (rx_maxBuffer (sk_rx s))"
  from wscale_loop_least [of "rx_maxBuffer (sk_rx s)" 65535 0] assms(1) obtain k
    where k: "wscale_loop (rx_maxBuffer (sk_rx s)) (sk_maxWinSize s) 0 = of_nat k"
      "?m div 2 ^ k \<le> 65535" "\<forall>j < k. 65535 < ?m div 2 ^ j"
    by auto
  have "?m div 2 ^ 14 < 65536"
    using assms(2) by (simp add: less_mult_imp_div_less)
  then have "\<not> 14 < k"
    using k(3) [rule_format, of 14] by linarith
  then have le: "k \<le> 14"
    by simp
  then have "unat (of_nat k :: u8) = k"
    by (simp add: unsigned_of_nat take_bit_nat_eq_self)
  moreover have "CalculateWScale s = of_nat k"
    using le calculation k(1) by (simp add: CalculateWScale_def Let_def word_less_nat_alt)
  ultimately show "unat (CalculateWScale s) \<le> 14" "?m div 2 ^ unat (CalculateWScale s) \<le> 65535"
    using le k(2) by simp_all
qed

end
