(* ===== verification/SockSend.thy ===== *)
theory SockSend
  imports SockRecv
begin

text \<open>
  The sending half of the socket \<open>TcpSocketBase\<close>, src/internet/model/tcp-socket-base.cc:
  the calls of the congestion control and the recovery algorithm, pacing, data segments,
  \<open>SendPendingData\<close>, the timeouts, and \<open>Send\<close> and \<open>Recv\<close> of the application.
\<close>

subsection \<open>Calls of the congestion control and the recovery algorithm\<close>

text \<open>
  The virtual functions of \<open>TcpCongestionOps\<close> and \<open>TcpRecoveryOps\<close>, dispatched on the
  algorithm of the socket.
\<close>

definition cc_PktsAcked :: "u32 \<Rightarrow> time \<Rightarrow> sock \<Rightarrow> sock result" where
  "cc_PktsAcked segmentsAcked rtt s =
    (case sk_congestionControl s of
       CC_Cerl c \<Rightarrow> Inr (s\<lparr>sk_congestionControl := CC_Cerl (Cerl_PktsAcked c rtt)\<rparr>)
     | CC_CerlPlus c \<Rightarrow> Inr (s\<lparr>sk_congestionControl := CC_CerlPlus (CerlPlus_PktsAcked c rtt)\<rparr>)
     | CC_CerlX c \<Rightarrow>
         bindE (CerlX_PktsAcked (sk_now s) c rtt) (\<lambda>c. Inr (s\<lparr>sk_congestionControl := CC_CerlX c\<rparr>))
     | _ \<Rightarrow> Inr (upd_tcb (\<lambda>tcb. Base_PktsAcked tcb segmentsAcked rtt) s))"

definition cc_IncreaseWindow :: "u32 \<Rightarrow> sock \<Rightarrow> sock result" where
  "cc_IncreaseWindow segmentsAcked s =
    (case sk_congestionControl s of
       CC_NewReno \<Rightarrow> bindE (NewReno_IncreaseWindow (sk_tcb s) segmentsAcked) (\<lambda>tcb. Inr (s\<lparr>sk_tcb := tcb\<rparr>))
     | CC_LinuxReno cnt \<Rightarrow>
         bindE (LinuxReno_IncreaseWindow cnt (sk_tcb s) segmentsAcked) (\<lambda>(cnt, tcb).
           Inr (s\<lparr>sk_tcb := tcb, sk_congestionControl := CC_LinuxReno cnt\<rparr>))
     | _ \<Rightarrow> bindE (Cerl_IncreaseWindow (sk_tcb s) segmentsAcked) (\<lambda>tcb. Inr (s\<lparr>sk_tcb := tcb\<rparr>)))"

definition cc_GetSsThresh :: "u32 \<Rightarrow> sock \<Rightarrow> (u32 \<times> sock) result" where
  "cc_GetSsThresh bytesInFlight s =
    (case sk_congestionControl s of
       CC_NewReno \<Rightarrow> Inr (NewReno_GetSsThresh (sk_tcb s) bytesInFlight, s)
     | CC_LinuxReno cnt \<Rightarrow> Inr (LinuxReno_GetSsThresh (sk_tcb s) bytesInFlight, s)
     | CC_Cerl c \<Rightarrow>
         bindE (Cerl_GetSsThresh (Inr (Cerl_GetA c)) c (sk_tcb s) bytesInFlight) (\<lambda>(t, c).
           Inr (t, s\<lparr>sk_congestionControl := CC_Cerl c\<rparr>))
     | CC_CerlPlus c \<Rightarrow>
         bindE (Cerl_GetSsThresh (CerlPlus_GetA c) c (sk_tcb s) bytesInFlight) (\<lambda>(t, c).
           Inr (t, s\<lparr>sk_congestionControl := CC_CerlPlus c\<rparr>))
     | CC_CerlX c \<Rightarrow>
         bindE (Cerl_GetSsThresh (CerlPlus_GetA c) c (sk_tcb s) bytesInFlight) (\<lambda>(t, c).
           Inr (t, s\<lparr>sk_congestionControl := CC_CerlX c\<rparr>)))"

definition cc_CongestionStateSet :: "TcpCongState \<Rightarrow> sock \<Rightarrow> sock" where
  "cc_CongestionStateSet newState s =
    (case sk_congestionControl s of
       CC_Cerl c \<Rightarrow> s\<lparr>sk_congestionControl := CC_Cerl (Cerl_CongestionStateSet c newState)\<rparr>
     | CC_CerlPlus c \<Rightarrow> s\<lparr>sk_congestionControl := CC_CerlPlus (Cerl_CongestionStateSet c newState)\<rparr>
     | CC_CerlX c \<Rightarrow> s\<lparr>sk_congestionControl := CC_CerlX (Cerl_CongestionStateSet c newState)\<rparr>
     | _ \<Rightarrow> upd_tcb (\<lambda>tcb. Base_CongestionStateSet tcb newState) s)"

definition cc_EnterRecovery :: "sock \<Rightarrow> sock" where
  "cc_EnterRecovery s =
    (case sk_congestionControl s of
       CC_Cerl c \<Rightarrow> let (c, tcb) = Cerl_EnterRecovery c (sk_tcb s)
         in s\<lparr>sk_tcb := tcb, sk_congestionControl := CC_Cerl c\<rparr>
     | CC_CerlPlus c \<Rightarrow> let (c, tcb) = Cerl_EnterRecovery c (sk_tcb s)
         in s\<lparr>sk_tcb := tcb, sk_congestionControl := CC_CerlPlus c\<rparr>
     | CC_CerlX c \<Rightarrow> let (c, tcb) = Cerl_EnterRecovery c (sk_tcb s)
         in s\<lparr>sk_tcb := tcb, sk_congestionControl := CC_CerlX c\<rparr>
     | _ \<Rightarrow> upd_tcb Base_EnterRecovery s)"

definition cc_ExitRecovery :: "sock \<Rightarrow> sock" where
  "cc_ExitRecovery s =
    (case sk_congestionControl s of
       CC_Cerl c \<Rightarrow> let (c, tcb) = Cerl_ExitRecovery c (sk_tcb s)
         in s\<lparr>sk_tcb := tcb, sk_congestionControl := CC_Cerl c\<rparr>
     | CC_CerlPlus c \<Rightarrow> let (c, tcb) = Cerl_ExitRecovery c (sk_tcb s)
         in s\<lparr>sk_tcb := tcb, sk_congestionControl := CC_CerlPlus c\<rparr>
     | CC_CerlX c \<Rightarrow> let (c, tcb) = Cerl_ExitRecovery c (sk_tcb s)
         in s\<lparr>sk_tcb := tcb, sk_congestionControl := CC_CerlX c\<rparr>
     | _ \<Rightarrow> upd_tcb Base_ExitRecovery s)"

definition rec_EnterRecovery :: "u32 \<Rightarrow> u32 \<Rightarrow> u32 \<Rightarrow> sock \<Rightarrow> sock result" where
  "rec_EnterRecovery dupAckCount unAckDataCount deliveredBytes s =
    (case sk_recoveryOps s of
       RC_Classic \<Rightarrow> Inr (upd_tcb (\<lambda>tcb. Classic_EnterRecovery tcb dupAckCount unAckDataCount deliveredBytes) s)
     | RC_Prr p \<Rightarrow>
         bindE (Prr_EnterRecovery p (sk_tcb s) dupAckCount unAckDataCount deliveredBytes) (\<lambda>(p, tcb).
           Inr (s\<lparr>sk_tcb := tcb, sk_recoveryOps := RC_Prr p\<rparr>)))"

definition rec_DoRecovery :: "u32 \<Rightarrow> sock \<Rightarrow> sock result" where
  "rec_DoRecovery deliveredBytes s =
    (case sk_recoveryOps s of
       RC_Classic \<Rightarrow> Inr (upd_tcb (\<lambda>tcb. Classic_DoRecovery tcb deliveredBytes) s)
     | RC_Prr p \<Rightarrow>
         bindE (Prr_DoRecovery p (sk_tcb s) deliveredBytes) (\<lambda>(p, tcb).
           Inr (s\<lparr>sk_tcb := tcb, sk_recoveryOps := RC_Prr p\<rparr>)))"

definition rec_ExitRecovery :: "sock \<Rightarrow> sock" where
  "rec_ExitRecovery s =
    (case sk_recoveryOps s of
       RC_Classic \<Rightarrow> upd_tcb Classic_ExitRecovery s
     | RC_Prr p \<Rightarrow> upd_tcb Prr_ExitRecovery s)"

definition rec_UpdateBytesSent :: "u32 \<Rightarrow> sock \<Rightarrow> sock" where
  "rec_UpdateBytesSent bytesSent s =
    (case sk_recoveryOps s of
       RC_Classic \<Rightarrow> s
     | RC_Prr p \<Rightarrow> s\<lparr>sk_recoveryOps := RC_Prr (Prr_UpdateBytesSent p bytesSent)\<rparr>)"

subsection \<open>Pacing\<close>

definition IsPacingEnabled :: "sock \<Rightarrow> bool" where
  "IsPacingEnabled s =
    (let tcb = sk_tcb s in
     m_pacing tcb \<and>
     (m_paceInitialWindow tcb \<or> m_highTxMark tcb > m_initialCWnd tcb * m_segmentSize tcb))"

text \<open>
  The transmission time of \<open>DataRate\<close>; the quotient is exact instead of a 128-bit fixed-point
  number, and a zero rate has none.
\<close>

definition CalculateBitsTxTime :: "u64 \<Rightarrow> u32 \<Rightarrow> time result" where
  "CalculateBitsTxTime bps bits =
    (if bps = 0 then Inl (Undefined 301)
     else Seconds 301 (Fin (of_int (uint bits) / of_int (uint bps))))"

definition CalculateBytesTxTime :: "u64 \<Rightarrow> u32 \<Rightarrow> time result" where
  "CalculateBytesTxTime bps bytes = CalculateBitsTxTime bps (bytes * 8)"

text \<open>Lines 3209 to 3216: the timer is started when it is not running.\<close>

definition start_pacing :: "u32 \<Rightarrow> sock \<Rightarrow> sock result" where
  "start_pacing sz s =
    (if sk_pacingTimer s = None then
       bindE (CalculateBytesTxTime (m_pacingRate (sk_tcb s)) sz) (\<lambda>t.
         Inr (s\<lparr>sk_pacingTimer := Some (sk_now s + t)\<rparr>))
     else Inr s)"

text \<open>A \<open>double\<close> converted to \<open>uint64_t\<close>: truncated, undefined out of range.\<close>

fun d_to_u64 :: "nat \<Rightarrow> double \<Rightarrow> u64 result" where
  "d_to_u64 line (Fin x) =
    (if - 1 < x \<and> x < 2 ^ 64 then Inr (of_int (if x < 0 then 0 else \<lfloor>x\<rfloor>)) else Inl (Undefined line))"
| "d_to_u64 line x = Inl (Undefined line)"

definition UpdatePacingRate :: "sock \<Rightarrow> sock result" where
  "UpdatePacingRate s =
    (let tcb = sk_tcb s in
     if Base_HasCongControl \<or> \<not> m_pacing tcb then Inr s
     else
       let ratio = (if m_cWnd tcb < m_ssThresh tcb div 2 then m_pacingSsRatio tcb else m_pacingCaRatio tcb);
           factor = Fin (of_int (uint ratio) / 100);
           rate = d_div (d_mul (d_of_u32 (max (m_cWnd tcb) (m_bytesInFlight tcb) * 8)) factor)
                        (GetSeconds (m_lastRtt tcb))
       in bindE (d_to_u64 4770 rate) (\<lambda>pacingRate.
            Inr (upd_tcb (\<lambda>tcb. tcb\<lparr>m_pacingRate :=
              (if pacingRate < m_maxPacingRate tcb then pacingRate else m_maxPacingRate tcb)\<rparr>) s)))"

subsection \<open>Data segments\<close>

text \<open>
  The item that \<open>CopyFromSequence\<close> returns is the one in the sent list: the rate sampler
  writes to it there.  A null item is dereferenced at line 3192.
\<close>

definition take_item :: "u32 \<Rightarrow> seq \<Rightarrow> sock \<Rightarrow> (tx_item \<times> sock) result" where
  "take_item maxSize sq s =
    bindE (BytesInFlight s) (\<lambda>(inflight, s).
    bindE (CopyFromSequence (sk_now s) maxSize sq (sk_tx s)) (\<lambda>(out, tx).
      case out of
        None \<Rightarrow> Inl (Undefined 3192)
      | Some item \<Rightarrow>
          let (item, rate) = SkbSent (sk_now s) (inflight = 0) item (sk_rateOps s);
              tx = tx\<lparr>tx_sentList := update_item (it_id item) (\<lambda>_. item) (tx_sentList tx)\<rparr>
          in Inr (item, s\<lparr>sk_tx := tx, sk_rateOps := rate\<rparr>)))"

definition data_header :: "u8 \<Rightarrow> seq \<Rightarrow> sock \<Rightarrow> EndPoint \<Rightarrow> TcpHeader" where
  "data_header flags sq s ep =
    new_TcpHeader\<lparr>h_flags := flags, h_sequenceNumber := sq, h_ackNumber := rx_nextRxSeq (sk_rx s),
      h_sourcePort := ep_localPort ep, h_destinationPort := ep_peerPort ep\<rparr>"

text \<open>The state behind a segment that carries the FIN, lines 3246 to 3255.\<close>

definition enter_fin :: "sock \<Rightarrow> sock" where
  "enter_fin s =
    (if sk_state s = ESTABLISHED then s\<lparr>sk_state := FIN_WAIT_1\<rparr>
     else if sk_state s = CLOSE_WAIT then s\<lparr>sk_state := LAST_ACK\<rparr> else s)"

text \<open>The segment is handed down and accounted for, lines 3274 to 3326.\<close>

definition hand_down :: "seq \<Rightarrow> bool \<Rightarrow> packet \<Rightarrow> TcpHeader \<Rightarrow> EndPoint \<Rightarrow> sock \<Rightarrow> sock" where
  "hand_down sq isRetransmission p header ep s =
    (let sz = pkt_size p;
         s = (if sk_retxEvent s = None
              then s\<lparr>sk_retxEvent := Some (sk_now s + sk_rto s, ReTxTimeoutEvent)\<rparr> else s);
         s = UpdateRttHistory sq sz isRetransmission (SendPacket p header ep s);
         s = (if m_congState (sk_tcb s) \<in> {CA_RECOVERY, CA_CWR} then rec_UpdateBytesSent sz s else s);
         high = m_highTxMark (sk_tcb s);
         s = (if \<not> isRetransmission
              then s\<lparr>sk_later := sk_later s @ [LaterDataSent (seq_minus (sq + sz) high)]\<rparr> else s)
     in upd_tcb (\<lambda>tcb. tcb\<lparr>m_highTxMark := (if seq_lt (sq + sz) high then high else sq + sz)\<rparr>) s)"

definition SendDataPacket :: "seq \<Rightarrow> u32 \<Rightarrow> bool \<Rightarrow> sock \<Rightarrow> (u32 \<times> sock) result" where
  "SendDataPacket sq maxSize withAck s =
    bindE (take_item maxSize sq s) (\<lambda>(outItem, s).
      let isRetransmission = it_retrans outItem;
          p = it_packet outItem;
          sz = pkt_size p;
          remainingData = SizeFromSequence (sq + sz) (sk_tx s)
      in ns_assert 3202 (isRetransmission \<or> seq_ge (sk_highRxAckMark s + sk_rWnd s) (sq + maxSize))
      (bindE (if IsPacingEnabled s then start_pacing sz s else Inr s) (\<lambda>s.
      let s = (if withAck then s\<lparr>sk_delAckEvent := None, sk_delAckCount := 0\<rparr> else s);
          cwr = (m_ecnState (sk_tcb s) = ECN_ECE_RCVD \<and> seq_gt (sk_ecnEchoSeq s) (sk_ecnCWRSeq s)
                 \<and> \<not> isRetransmission);
          s = (if cwr then upd_tcb (\<lambda>tcb. tcb\<lparr>m_ecnState := ECN_CWR_SENT\<rparr>) (s\<lparr>sk_ecnCWRSeq := sq\<rparr>) else s);
          fin = (sk_closeOnEmpty s \<and> remainingData = 0);
          s = (if fin then enter_fin s else s);
          flags = (if withAck then ACK else 0) OR (if cwr then CWR else 0) OR (if fin then FIN else 0)
      in case endpoint s of
           None \<Rightarrow> Inl (Undefined 3268)
         | Some ep \<Rightarrow>
             bindE (AdvertisedWindowSize True s) (\<lambda>(w, s).
             let header = AddOptions s ((data_header flags sq s ep)\<lparr>h_windowSize := w\<rparr>)
             in Inr (sz, hand_down sq isRetransmission p header ep s)))))"

subsection \<open>SendPendingData\<close>

text \<open>
  One pass of the loop: \<open>None\<close> when the code leaves it without sending, otherwise the
  socket behind it and whether the pacing timer ends the loop.  The order of the tests is
  the code's; the application is told of free space between \<open>NextSeg\<close> and the tests for
  the silly window syndrome and Nagle's algorithm.
\<close>

definition send_segment ::
  "app \<Rightarrow> bool \<Rightarrow> u32 \<Rightarrow> sock \<Rightarrow> (bool option \<times> sock) result" where
  "send_segment app withAck availableWindow s =
    (let enableRule3 = (sk_sackEnabled s \<and> m_congState (sk_tcb s) = CA_RECOVERY) in
     if IsPacingEnabled s \<and> sk_pacingTimer s \<noteq> None then Inr (None, s)
     else if m_congState (sk_tcb s) = CA_OPEN \<and> sk_state s = FIN_WAIT_1 then Inr (None, s)
     else case NextSeg (sk_rWnd s) enableRule3 (sk_tx s) of
       None \<Rightarrow> Inr (None, s)
     | Some (next, nextHigh) \<Rightarrow>
         let availableData = SizeFromSequence next (sk_tx s);
             s = (if availableData < availableWindow then app (NotifySend (TxAvailable (sk_tx s))) s else s)
         in if availableWindow < m_segmentSize (sk_tcb s) \<and> availableData > availableWindow
            then Inr (None, s)
            else if \<not> sk_noDelay s \<and> UnAckDataCount s > 0 \<and> availableData < m_segmentSize (sk_tcb s)
            then Inr (None, s)
            else
              let sz = min (min availableWindow (m_segmentSize (sk_tcb s))) (seq_minus nextHigh next);
                  s = upd_tcb (\<lambda>tcb. tcb\<lparr>m_nextTxSequence := next\<rparr>) s;
                  s = (if m_bytesInFlight (sk_tcb s) = 0 then cc_CwndEvent CA_EVENT_TX_START s else s)
              in bindE (SendDataPacket (m_nextTxSequence (sk_tcb s)) sz withAck s) (\<lambda>(sent, s).
                 let s = upd_tcb (\<lambda>tcb. tcb\<lparr>m_nextTxSequence := m_nextTxSequence tcb + sent\<rparr>) s
                 in if IsPacingEnabled s \<and> sk_pacingTimer s = None
                    then bindE (start_pacing sent s) (\<lambda>s. Inr (Some True, s))
                    else Inr (Some False, s)))"

text \<open>
  The loop; the fuel bounds its passes.  A retransmission that merges two items may take
  bytes out of flight, so the window alone does not bound them: a pass takes the first byte
  that is to be resent, or bytes not sent yet, and both are used up before \<open>2 ^ 32\<close> passes.
\<close>

function send_loop :: "nat \<Rightarrow> app \<Rightarrow> bool \<Rightarrow> u32 \<Rightarrow> u32 \<Rightarrow> sock \<Rightarrow> (u32 \<times> sock) result" where
  "send_loop fuel app withAck availableWindow nPacketsSent s =
    (if availableWindow = 0 then Inr (nPacketsSent, s)
     else if fuel = 0 then Inl (Diverges 3378)
     else bindE (send_segment app withAck availableWindow s) (\<lambda>(r, s).
       case r of
         None \<Rightarrow> Inr (nPacketsSent, s)
       | Some True \<Rightarrow> Inr (nPacketsSent + 1, s)
       | Some False \<Rightarrow>
           bindE (AvailableWindow s) (\<lambda>(w, s). send_loop (fuel - 1) app withAck w (nPacketsSent + 1) s)))"
  by pat_completeness auto
termination
  by (relation "measure (\<lambda>(fuel, _). fuel)") auto

declare send_loop.simps [simp del]

definition send_fuel :: nat where
  "send_fuel = 2 ^ 32"

definition SendPendingData :: "app \<Rightarrow> bool \<Rightarrow> sock \<Rightarrow> (u32 \<times> sock) result" where
  "SendPendingData app withAck s =
    (if tx_size (sk_tx s) = 0 then Inr (0, s)
     else if endpoint s = None then Inr (0, s)
     else bindE (AvailableWindow s) (\<lambda>(w, s).
       bindE (send_loop send_fuel app withAck w 0 s) (\<lambda>(n, s).
         ns_assert 3503 (\<not> (n > 0 \<and> \<not> sk_sackEnabled s \<and> \<not> sk_limitedTx s
                            \<and> m_congState (sk_tcb s) = CA_DISORDER)) (Inr (n, s)))))"

text \<open>What callers do that drop the number of packets.\<close>

definition send_pending :: "app \<Rightarrow> bool \<Rightarrow> sock \<Rightarrow> sock result" where
  "send_pending app withAck s = bindE (SendPendingData app withAck s) (\<lambda>(_, s). Inr s)"

definition DoRetransmit :: "sock \<Rightarrow> sock result" where
  "DoRetransmit s =
    (let (sq, maxSizeToSend) =
           (case NextSeg (sk_rWnd s) False (sk_tx s) of
              None \<Rightarrow> (tx_firstByteSeq (sk_tx s), m_segmentSize (sk_tcb s))
            | Some (sq, seqHigh) \<Rightarrow> (sq, seq_minus seqHigh sq))
     in ns_assert 4093 (sk_sackEnabled s \<or> sq = tx_firstByteSeq (sk_tx s))
       (let s = upd_tcb (\<lambda>tcb. tcb\<lparr>m_nextTxSequence := sq\<rparr>) s in
        bindE (SendDataPacket sq maxSizeToSend True s) (\<lambda>(sz, s). ns_assert 4100 (sz > 0) (Inr s))))"

subsection \<open>Round-trip time and acknowledged data\<close>

definition max_rto :: time where
  "max_rto = 60000000000"

text \<open>The sample taken from the head of the history; 0 stands for none.\<close>

definition rtt_sample :: "TcpHeader \<Rightarrow> sock \<Rightarrow> time result" where
  "rtt_sample tcpHeader s =
    (case sk_history s of
       [] \<Rightarrow> Inr 0
     | h # _ \<Rightarrow>
         if \<not> rh_retx h \<and> seq_ge (h_ackNumber tcpHeader) (rh_seq h + rh_count h) then
           if sk_timestampEnabled s \<and> HasOption 8 tcpHeader then
             (case GetOption 8 tcpHeader of
                Some (TcpOptionTS ts echo) \<Rightarrow>
                  let m = ElapsedTimeFromTsValue (sk_now s) echo in Inr (if m = 0 then 1000 else m)
              | _ \<Rightarrow> Inl (Undefined 3746))
           else Inr (sk_now s - rh_time h)
         else Inr 0)"

definition EstimateRtt :: "TcpHeader \<Rightarrow> sock \<Rightarrow> sock result" where
  "EstimateRtt tcpHeader s =
    bindE (rtt_sample tcpHeader s) (\<lambda>m.
      let s = s\<lparr>sk_history := dropWhile (\<lambda>h. \<not> seq_gt (rh_seq h + rh_count h) (h_ackNumber tcpHeader))
                               (sk_history s)\<rparr>
      in if m = 0 then Inr s
         else bindE (RttMeasurement (sk_rtt s) m) (\<lambda>rtt.
           let s = s\<lparr>sk_rtt := rtt\<rparr>;
               s = s\<lparr>sk_rto := max (backoff_rto s) (sk_minRto s)\<rparr>;
               est = GetEstimate (sk_rtt s)
           in Inr (upd_tcb (\<lambda>tcb. tcb\<lparr>m_lastRtt := est, m_minRtt := min est (m_minRtt tcb)\<rparr>) s)))"

text \<open>\<open>NotifySend\<close> when the send buffer has room.\<close>

definition notify_room :: "app \<Rightarrow> sock \<Rightarrow> sock" where
  "notify_room app s =
    (if TxAvailable (sk_tx s) > 0 then app (NotifySend (TxAvailable (sk_tx s))) s else s)"

definition NewAck :: "app \<Rightarrow> seq \<Rightarrow> bool \<Rightarrow> sock \<Rightarrow> sock" where
  "NewAck app ack resetRTO s =
    (let s = s\<lparr>sk_dataRetrCount := sk_dataRetries s\<rparr>;
         s = (if sk_state s \<noteq> SYN_RCVD \<and> resetRTO then
                let s = s\<lparr>sk_rto := max (backoff_rto s) (sk_minRto s)\<rparr>
                in s\<lparr>sk_retxEvent := Some (sk_now s + sk_rto s, ReTxTimeoutEvent)\<rparr>
              else s);
         s = notify_room app s;
         s = (if seq_gt ack (m_nextTxSequence (sk_tcb s))
              then upd_tcb (\<lambda>tcb. tcb\<lparr>m_nextTxSequence := ack\<rparr>) s else s)
     in if tx_size (sk_tx s) = 0 \<and> sk_state s \<noteq> FIN_WAIT_1 \<and> sk_state s \<noteq> CLOSING
        then s\<lparr>sk_retxEvent := None\<rparr> else s)"

subsection \<open>Timeouts\<close>

text \<open>
  Lines 3887 to 3946: the reaction to a retransmission timeout with data outstanding, up to
  the sending.
\<close>

definition rto_prepare :: "sock \<Rightarrow> sock result" where
  "rto_prepare s =
    bindE (BytesInFlight s) (\<lambda>(inFlightBeforeRto, s).
      let resetSack = (\<not> sk_sackEnabled s);
          s = s\<lparr>sk_dupAckCount := 0\<rparr>;
          s = (if \<not> sk_sackEnabled s then s\<lparr>sk_tx := ResetRenoSack (sk_tx s)\<rparr> else s)
      in bindE (SetSentListLost resetSack (sk_tx s)) (\<lambda>tx.
      let s = s\<lparr>sk_tx := tx, sk_recover := m_highTxMark (sk_tcb s), sk_recoverActive := True,
                sk_rto := min (sk_rto s + sk_rto s) max_rto, sk_history := []\<rparr>
      in bindE (if m_congState (sk_tcb s) \<noteq> CA_LOSS then Inr True
                else bindE (IsHeadRetransmitted (sk_tx s)) (\<lambda>b. Inr (\<not> b))) (\<lambda>first.
      bindE (if first
             then bindE (cc_GetSsThresh inFlightBeforeRto s) (\<lambda>(t, s).
                    Inr (upd_tcb (\<lambda>tcb. tcb\<lparr>m_ssThresh := t\<rparr>) s))
             else Inr s) (\<lambda>s.
      let s = cc_CongestionStateSet CA_LOSS (cc_CwndEvent CA_EVENT_LOSS s);
          s = upd_tcb (\<lambda>tcb. tcb\<lparr>m_congState := CA_LOSS, m_cWnd := m_segmentSize tcb,
                                  m_cWndInfl := m_segmentSize tcb\<rparr>) s
      in Inr (s\<lparr>sk_pacingTimer := None\<rparr>)))))"

definition rto_loss :: "app \<Rightarrow> sock \<Rightarrow> sock result" where
  "rto_loss app s =
    bindE (rto_prepare s) (\<lambda>s.
    bindE (BytesInFlight s) (\<lambda>(inflight, s).
    ns_assert 3954 (inflight = 0)
      (bindE (send_pending app (sk_connected s) s) (\<lambda>s.
       bindE (BytesInFlight s) (\<lambda>(inflight, s).
       ns_assert 3959 (inflight \<le> m_segmentSize (sk_tcb s)) (Inr s))))))"

definition ReTxTimeout :: "app \<Rightarrow> sock \<Rightarrow> sock result" where
  "ReTxTimeout app s =
    (if sk_state s = CLOSED \<or> sk_state s = TIME_WAIT then Inr s
     else if sk_state s = SYN_SENT then
       ns_assert 3847 (sk_synCount s > 0)
         (SendEmptyPacket app (if m_useEcn (sk_tcb s) = EcnOn then SYN OR ECE OR CWR else SYN) s)
     else if tx_size (sk_tx s) = 0 then
       (if sk_state s = FIN_WAIT_1 \<or> sk_state s = CLOSING then SendEmptyPacket app FIN s else Inr s)
     else if sk_state s \<le> ESTABLISHED
          \<and> seq_ge (tx_firstByteSeq (sk_tx s)) (m_highTxMark (sk_tcb s)) \<and> tx_size (sk_tx s) = 0
     then Inr s
     else if sk_dataRetrCount s = 0 then Inr (DeallocateEndPoint (app NotifyErrorClose s))
     else rto_loss app (s\<lparr>sk_dataRetrCount := sk_dataRetrCount s - 1\<rparr>))"

text \<open>The expiry of \<open>m_retxEvent\<close>, whichever function it was scheduled with.\<close>

definition fire_Retx :: "app \<Rightarrow> retx_action \<Rightarrow> sock \<Rightarrow> sock result" where
  "fire_Retx app action s =
    (let s = s\<lparr>sk_retxEvent := None\<rparr> in
     case action of
       ReTxTimeoutEvent \<Rightarrow> ReTxTimeout app s
     | SendEmptyPacketEvent flags \<Rightarrow> SendEmptyPacket app flags s)"

definition LastAckTimeout :: "app \<Rightarrow> sock \<Rightarrow> sock result" where
  "LastAckTimeout app s0 =
    (let s = s0\<lparr>sk_lastAckEvent := None\<rparr> in
     if sk_state s = LAST_ACK then
       if sk_dataRetrCount s = 0 then Inr (DeallocateEndPoint (app NotifyErrorClose s))
       else bindE (SendEmptyPacket app (FIN OR ACK) (s\<lparr>sk_dataRetrCount := sk_dataRetrCount s - 1\<rparr>)) (\<lambda>s.
         Inr (s\<lparr>sk_lastAckEvent := Some (sk_now s + backoff_rto s)\<rparr>))
     else Inr s)"

definition PersistTimeout :: "sock \<Rightarrow> sock result" where
  "PersistTimeout s0 =
    (let s = s0\<lparr>sk_persistTimeout := min max_rto (2 * sk_persistTimeout s0)\<rparr> in
     bindE (CopyFromSequence (sk_now s) 1 (m_nextTxSequence (sk_tcb s)) (sk_tx s)) (\<lambda>(out, tx).
     case out of
       None \<Rightarrow> Inl (Undefined 4015)
     | Some item \<Rightarrow>
         let s = s\<lparr>sk_tx := ResetLastSegmentSent tx\<rparr> in
         bindE (AdvertisedWindowSize True s) (\<lambda>(w, s).
         case endpoint s of
           None \<Rightarrow> Inl (Undefined 4028)
         | Some ep \<Rightarrow>
             let header = AddOptions s ((data_header 0 (m_nextTxSequence (sk_tcb s)) s ep)\<lparr>h_windowSize := w\<rparr>);
                 s = SendPacket (it_packet item) header ep s
             in Inr (s\<lparr>sk_persistEvent := Some (sk_now s + sk_persistTimeout s)\<rparr>))))"

definition fire_Persist :: "sock \<Rightarrow> sock result" where
  "fire_Persist s = PersistTimeout (s\<lparr>sk_persistEvent := None\<rparr>)"

definition fire_Pacing :: "app \<Rightarrow> sock \<Rightarrow> sock result" where
  "fire_Pacing app s = send_pending app (sk_connected s) (s\<lparr>sk_pacingTimer := None\<rparr>)"

definition fire_SendPending :: "app \<Rightarrow> bool \<Rightarrow> sock \<Rightarrow> sock result" where
  "fire_SendPending app withAck s = send_pending app withAck (s\<lparr>sk_sendPendingDataEvent := None\<rparr>)"

subsection \<open>Send and Recv of the application\<close>

text \<open>The result is the number of bytes taken, or \<open>- 1\<close>.\<close>

definition SockSendCall :: "packet \<Rightarrow> sock \<Rightarrow> (int \<times> sock) result" where
  "SockSendCall p s =
    (if sk_state s \<in> {ESTABLISHED, SYN_SENT, CLOSE_WAIT} then
       let (added, tx) = TxAdd p (sk_tx s); s = s\<lparr>sk_tx := tx\<rparr> in
       if \<not> added then Inr (- 1, s\<lparr>sk_errno := ERROR_MSGSIZE\<rparr>)
       else if sk_shutdownSend s then Inr (- 1, s\<lparr>sk_errno := ERROR_SHUTDOWN\<rparr>)
       else
         let tcb = sk_tcb s;
             s = s\<lparr>sk_rateOps := CalculateAppLimited (m_cWnd tcb) (m_bytesInFlight tcb) (m_segmentSize tcb)
                    (TailSequence tx) (m_nextTxSequence tcb) (tx_lostOut tx) (tx_retrans tx) (sk_rateOps s)\<rparr>
         in bindE (if sk_state s \<in> {ESTABLISHED, CLOSE_WAIT} then AvailableWindow s else Inr (0, s)) (\<lambda>(w, s).
              Inr (sint (pkt_size p),
                   if w > 0 \<and> sk_sendPendingDataEvent s = None
                   then s\<lparr>sk_sendPendingDataEvent := Some (sk_now s + 1)\<rparr> else s))
     else Inr (- 1, s\<lparr>sk_errno := ERROR_NOTCONN\<rparr>))"

definition Recv :: "u32 \<Rightarrow> sock \<Rightarrow> (packet option \<times> sock) result" where
  "Recv maxSize s =
    (if rx_size (sk_rx s) = 0 \<and> sk_state s = CLOSE_WAIT then Inr (Some [], s)
     else bindE (Extract maxSize (sk_rx s)) (\<lambda>(p, rx). Inr (p, s\<lparr>sk_rx := rx\<rparr>)))"

end
