(* ===== verification/SockAck.thy ===== *)
theory SockAck
  imports SockSend
begin

text \<open>
  The reaction of the socket \<open>TcpSocketBase\<close> to an acknowledgement: the SACK option, fast
  retransmit and recovery, the congestion state machine and ECN.
\<close>

subsection \<open>Options and entry into recovery\<close>

fun read_options :: "TcpOption list \<Rightarrow> u32 \<Rightarrow> sock \<Rightarrow> (u32 \<times> sock) result" where
  "read_options [] bytesSacked s = Inr (bytesSacked, s)"
| "read_options (option # options) bytesSacked s =
    (if GetKind option = 5
     then bindE (ProcessOptionSack option s) (\<lambda>(bytesSacked, s). read_options options bytesSacked s)
     else read_options options bytesSacked s)"

definition ReadOptions :: "TcpHeader \<Rightarrow> sock \<Rightarrow> (u32 \<times> sock) result" where
  "ReadOptions tcpHeader s = read_options (h_options tcpHeader) 0 s"

definition EnterCwr :: "u32 \<Rightarrow> sock \<Rightarrow> sock result" where
  "EnterCwr currentDelivered s =
    bindE (BytesInFlight s) (\<lambda>(inflight, s).
    bindE (cc_GetSsThresh inflight s) (\<lambda>(t, s).
      let s = upd_tcb (\<lambda>tcb. tcb\<lparr>m_ssThresh := t, m_cWndInfl := t\<rparr>) s
      in ns_assert 1689 (m_congState (sk_tcb s) \<noteq> CA_CWR)
        (let s = upd_tcb (\<lambda>tcb. tcb\<lparr>m_congState := CA_CWR\<rparr>) s;
             s = s\<lparr>sk_recover := m_highTxMark (sk_tcb s)\<rparr>
         in if Base_HasCongControl then Inr s
            else let s = cc_EnterRecovery s
                 in rec_EnterRecovery (sk_dupAckCount s) (UnAckDataCount s) currentDelivered s)))"

text \<open>Lines 1715 to 1731: what \<open>EnterRecovery\<close> marks in the send buffer.\<close>

definition mark_lost_head :: "sock \<Rightarrow> sock result" where
  "mark_lost_head s =
    (if \<not> sk_sackEnabled s then
       bindE (AddRenoSack (sk_tx s)) (\<lambda>tx. Inr (s\<lparr>sk_tx := MarkHeadAsLost tx\<rparr>))
     else Inr (if IsLost (tx_firstByteSeq (sk_tx s)) (sk_tx s) then s
               else s\<lparr>sk_tx := MarkHeadAsLost (sk_tx s)\<rparr>))"

definition EnterRecovery :: "u32 \<Rightarrow> sock \<Rightarrow> sock result" where
  "EnterRecovery currentDelivered s =
    ns_assert 1711 (m_congState (sk_tcb s) \<noteq> CA_RECOVERY)
      (bindE (mark_lost_head s) (\<lambda>s.
        let s = s\<lparr>sk_recover := m_highTxMark (sk_tcb s), sk_recoverActive := True\<rparr>;
            s = cc_CongestionStateSet CA_RECOVERY s;
            s = upd_tcb (\<lambda>tcb. tcb\<lparr>m_congState := CA_RECOVERY\<rparr>) s
        in bindE (BytesInFlight s) (\<lambda>(inflight, s).
           let bytesInFlight = (if sk_sackEnabled s then inflight else inflight + m_segmentSize (sk_tcb s))
           in bindE (cc_GetSsThresh bytesInFlight s) (\<lambda>(t, s).
              let s = upd_tcb (\<lambda>tcb. tcb\<lparr>m_ssThresh := t\<rparr>) s
              in bindE (if Base_HasCongControl then Inr s
                        else let s = cc_EnterRecovery s
                             in rec_EnterRecovery (sk_dupAckCount s) (UnAckDataCount s) currentDelivered s)
                   DoRetransmit))))"

text \<open>Lines 1833 to 1868: what \<open>DupAck\<close> does in the state \<open>CA_DISORDER\<close>.\<close>

definition dupack_disorder :: "u32 \<Rightarrow> sock \<Rightarrow> sock result" where
  "dupack_disorder currentDelivered s =
    ns_assert 1825 (sk_dupAckCount s \<le> sk_retxThresh s \<or> sk_recoverActive s)
      (let enter = bindE (EnterRecovery currentDelivered s) (\<lambda>s.
                     ns_assert 1842 (m_congState (sk_tcb s) = CA_RECOVERY) (Inr s))
       in if sk_dupAckCount s = sk_retxThresh s
            \<and> (seq_ge (sk_highRxAckMark s) (sk_recover s) \<or> \<not> sk_recoverActive s)
          then enter
          else if IsLost (sk_highRxAckMark s + m_segmentSize (sk_tcb s)) (sk_tx s) then enter
          else if \<not> sk_sackEnabled s \<and> sk_limitedTx s
          then bindE (AddRenoSack (sk_tx s)) (\<lambda>tx. Inr (s\<lparr>sk_tx := tx\<rparr>))
          else Inr s)"

definition DupAck :: "u32 \<Rightarrow> sock \<Rightarrow> sock result" where
  "DupAck currentDelivered s =
    (if m_congState (sk_tcb s) = CA_LOSS then Inr s
     else
       let s = (if m_congState (sk_tcb s) \<noteq> CA_RECOVERY
                then s\<lparr>sk_dupAckCount := sk_dupAckCount s + 1\<rparr> else s)
       in bindE (if m_congState (sk_tcb s) = CA_OPEN then
                   ns_assert 1792 (sk_dupAckCount s = 1)
                     (Inr (upd_tcb (\<lambda>tcb. tcb\<lparr>m_congState := CA_DISORDER\<rparr>)
                            (cc_CongestionStateSet CA_DISORDER s)))
                 else Inr s) (\<lambda>s.
          if m_congState (sk_tcb s) = CA_RECOVERY then
            bindE (if \<not> sk_sackEnabled s
                   then bindE (AddRenoSack (sk_tx s)) (\<lambda>tx. Inr (s\<lparr>sk_tx := tx\<rparr>)) else Inr s) (\<lambda>s.
            if Base_HasCongControl then Inr s else rec_DoRecovery currentDelivered s)
          else if m_congState (sk_tcb s) = CA_DISORDER then dupack_disorder currentDelivered s
          else Inr s))"

subsection \<open>ProcessAck\<close>

definition SafeSubtraction :: "u32 \<Rightarrow> u32 \<Rightarrow> u32" where
  "SafeSubtraction a b = (if a > b then a - b else 0)"

text \<open>
  Lines 2066 to 2077: the whole segments acknowledged, the bytes they make and the bytes
  kept for the next acknowledgement.
\<close>

definition count_segments :: "u32 \<Rightarrow> sock \<Rightarrow> (u32 \<times> u32 \<times> sock) result" where
  "count_segments bytesAcked s =
    (let seg = m_segmentSize (sk_tcb s) in
     bindE (u32_div 2067 bytesAcked seg) (\<lambda>segsAcked.
       let rest = bytesAcked mod seg;
           s = s\<lparr>sk_bytesAckedNotProcessed := sk_bytesAckedNotProcessed s + rest\<rparr>;
           bytesAcked = bytesAcked - rest
       in Inr (if sk_bytesAckedNotProcessed s \<ge> seg
               then (segsAcked + 1, bytesAcked + seg,
                     s\<lparr>sk_bytesAckedNotProcessed := sk_bytesAckedNotProcessed s - seg\<rparr>)
               else (segsAcked, bytesAcked, s))))"

text \<open>Lines 2107 to 2150: a partial acknowledgement in recovery.\<close>

definition partial_ack :: "app \<Rightarrow> seq \<Rightarrow> u32 \<Rightarrow> u32 \<Rightarrow> u32 \<Rightarrow> sock \<Rightarrow> sock result" where
  "partial_ack app ackNumber currentDelivered segsAcked bytesAcked s =
    (let s = (if \<not> sk_sackEnabled s then s\<lparr>sk_tx := MarkHeadAsLost (sk_tx s)\<rparr> else s)
     in bindE (if \<not> Base_HasCongControl \<and> segsAcked \<ge> 1
               then rec_DoRecovery currentDelivered s else Inr s) (\<lambda>s.
        bindE (if \<not> IsRetransmittedDataAcked (ackNumber + m_segmentSize (sk_tcb s)) (sk_tx s)
               then bindE (DoRetransmit s) (\<lambda>s.
                      Inr (upd_tcb (\<lambda>tcb. tcb\<lparr>m_cWndInfl := SafeSubtraction (m_cWndInfl tcb) bytesAcked\<rparr>) s))
               else Inr s) (\<lambda>s.
        bindE (cc_PktsAcked 1 (m_lastRtt (sk_tcb s)) s) (\<lambda>s.
          let s = NewAck app ackNumber (sk_isFirstPartialAck s) s
          in Inr (if sk_isFirstPartialAck s then s\<lparr>sk_isFirstPartialAck := False\<rparr> else s)))))"

text \<open>
  Lines 2180 to 2256: the end of the congestion states on a full acknowledgement; the
  segments to open the window with, and whether fast recovery was left.
\<close>

definition leave_state ::
  "seq \<Rightarrow> seq \<Rightarrow> u32 \<Rightarrow> u32 \<Rightarrow> bool \<Rightarrow> sock \<Rightarrow> (u32 \<times> bool \<times> sock) result" where
  "leave_state ackNumber oldHeadSequence segsAcked oldDupAckCount isDupack s =
    (let rtt = m_lastRtt (sk_tcb s);
         open_state = (\<lambda>s. upd_tcb (\<lambda>tcb. tcb\<lparr>m_congState := CA_OPEN\<rparr>) (cc_CongestionStateSet CA_OPEN s))
     in case m_congState (sk_tcb s) of
       CA_OPEN \<Rightarrow> bindE (cc_PktsAcked segsAcked rtt s) (\<lambda>s. Inr (segsAcked, False, s))
     | CA_DISORDER \<Rightarrow>
         bindE (if segsAcked \<ge> oldDupAckCount then cc_PktsAcked (segsAcked - oldDupAckCount) rtt s
                else Inr s) (\<lambda>s.
           Inr (segsAcked, False, if \<not> isDupack then open_state s else s))
     | CA_RECOVERY \<Rightarrow>
         let s = s\<lparr>sk_isFirstPartialAck := True\<rparr> in
         bindE (u32_div 2228 (seq_minus ackNumber oldHeadSequence) (m_segmentSize (sk_tcb s))) (\<lambda>segsAcked.
         bindE (cc_PktsAcked segsAcked rtt s) (\<lambda>s.
           Inr (segsAcked, True, (open_state (cc_CwndEvent CA_EVENT_COMPLETE_CWR s))\<lparr>sk_dupAckCount := 0\<rparr>)))
     | CA_LOSS \<Rightarrow>
         let s = s\<lparr>sk_isFirstPartialAck := True\<rparr> in
         bindE (u32_div 2246 (seq_minus ackNumber (sk_recover s)) (m_segmentSize (sk_tcb s))) (\<lambda>segsAcked.
         bindE (cc_PktsAcked segsAcked rtt s) (\<lambda>s. Inr (segsAcked, False, open_state s)))
     | _ \<Rightarrow> Inr (segsAcked, False, s))"

text \<open>Lines 2180 to 2284.\<close>

definition full_ack ::
  "app \<Rightarrow> seq \<Rightarrow> seq \<Rightarrow> u32 \<Rightarrow> u32 \<Rightarrow> bool \<Rightarrow> sock \<Rightarrow> sock result" where
  "full_ack app ackNumber oldHeadSequence segsAcked oldDupAckCount isDupack s =
    bindE (leave_state ackNumber oldHeadSequence segsAcked oldDupAckCount isDupack s)
      (\<lambda>(segsAcked, exitedFastRecovery, s).
      let s = (if seq_ge ackNumber (sk_recover s) then s\<lparr>sk_recoverActive := False\<rparr> else s);
          s = (if exitedFastRecovery
               then rec_ExitRecovery (cc_ExitRecovery (NewAck app ackNumber True s)) else s)
      in if m_congState (sk_tcb s) = CA_OPEN then
           bindE (cc_IncreaseWindow segsAcked s) (\<lambda>s.
             Inr (NewAck app ackNumber True (upd_tcb (\<lambda>tcb. tcb\<lparr>m_cWndInfl := m_cWnd tcb\<rparr>) s)))
         else Inr s)"

text \<open>Lines 2060 to 2285: new data is acknowledged.\<close>

definition advance_ack ::
  "app \<Rightarrow> seq \<Rightarrow> seq \<Rightarrow> u32 \<Rightarrow> u32 \<Rightarrow> bool \<Rightarrow> sock \<Rightarrow> sock result" where
  "advance_ack app ackNumber oldHeadSequence currentDelivered oldDupAckCount isDupack s =
    bindE (count_segments (seq_minus ackNumber oldHeadSequence) s) (\<lambda>(segsAcked, bytesAcked, s).
      let s = (if \<not> isDupack then s\<lparr>sk_dupAckCount := 0\<rparr> else s);
          below = seq_lt ackNumber (sk_recover s);
          st = m_congState (sk_tcb s)
      in if below \<and> st = CA_RECOVERY then partial_ack app ackNumber currentDelivered segsAcked bytesAcked s
         else if below \<and> st = CA_LOSS then
           bindE (cc_PktsAcked segsAcked (m_lastRtt (sk_tcb s)) s) (\<lambda>s.
           bindE (cc_IncreaseWindow segsAcked s) (\<lambda>s.
             ns_assert 2163 (sk_sackEnabled s \<or> tx_sackedOut (sk_tx s) = 0)
               (Inr (NewAck app ackNumber True s))))
         else if st = CA_CWR then
           bindE (cc_PktsAcked segsAcked (m_lastRtt (sk_tcb s)) s) (\<lambda>s.
           bindE (if \<not> Base_HasCongControl \<and> segsAcked \<ge> 1
                  then rec_DoRecovery currentDelivered s else Inr s) (\<lambda>s.
             Inr (NewAck app ackNumber True s)))
         else full_ack app ackNumber oldHeadSequence segsAcked oldDupAckCount isDupack s)"

definition ProcessAck :: "app \<Rightarrow> seq \<Rightarrow> bool \<Rightarrow> u32 \<Rightarrow> seq \<Rightarrow> sock \<Rightarrow> sock result" where
  "ProcessAck app ackNumber scoreboardUpdated currentDelivered oldHeadSequence s =
    (let oldDupAckCount = sk_dupAckCount s;
         s = upd_tcb (\<lambda>tcb. tcb\<lparr>m_lastAckedSeq := ackNumber\<rparr>) s;
         isDupack = (if sk_sackEnabled s then scoreboardUpdated
                     else ackNumber = oldHeadSequence \<and> seq_lt ackNumber (m_highTxMark (sk_tcb s)))
     in bindE (if isDupack then DupAck currentDelivered s else Inr s) (\<lambda>s.
        if ackNumber = oldHeadSequence \<and> ackNumber = m_highTxMark (sk_tcb s) then Inr s
        else bindE
          (if ackNumber = oldHeadSequence \<and> seq_gt ackNumber (m_highTxMark (sk_tcb s)) then
             Inr (upd_tcb (\<lambda>tcb. tcb\<lparr>m_nextTxSequence := ackNumber\<rparr>) s)
           else if ackNumber = oldHeadSequence then cc_PktsAcked 1 (m_lastRtt (sk_tcb s)) s
           else if seq_gt ackNumber oldHeadSequence then
             advance_ack app ackNumber oldHeadSequence currentDelivered oldDupAckCount isDupack s
           else Inr s)
          UpdatePacingRate))"

subsection \<open>ReceivedAck\<close>

text \<open>Lines 1905 to 1917.\<close>

definition note_retrans_acked :: "seq \<Rightarrow> seq \<Rightarrow> sock \<Rightarrow> sock result" where
  "note_retrans_acked ackNumber oldHeadSequence s =
    (if seq_gt ackNumber oldHeadSequence \<and> seq_lt ackNumber (sk_recover s)
        \<and> m_congState (sk_tcb s) = CA_RECOVERY then
       let seg = m_segmentSize (sk_tcb s) in
       bindE (u32_div 1908 (seq_minus ackNumber oldHeadSequence) seg) (\<lambda>segAcked.
         Inr (if list_ex (\<lambda>i. IsRetransmittedDataAcked (ackNumber - of_nat i * seg) (sk_tx s)) [0 ..< unat segAcked]
              then upd_tcb (\<lambda>tcb. tcb\<lparr>m_isRetransDataAcked := True\<rparr>) s else s))
     else Inr s)"

text \<open>Lines 1926 to 1939: the window reduction for ECN is over.\<close>

definition leave_cwr :: "seq \<Rightarrow> sock \<Rightarrow> sock" where
  "leave_cwr ackNumber s =
    (if m_congState (sk_tcb s) = CA_CWR \<and> seq_gt ackNumber (sk_recover s) then
       let s = upd_tcb (\<lambda>tcb. tcb\<lparr>m_congState := CA_OPEN\<rparr>) s
       in if Base_HasCongControl then s
          else cc_CwndEvent CA_EVENT_COMPLETE_CWR
                 (rec_ExitRecovery (upd_tcb (\<lambda>tcb. tcb\<lparr>m_cWnd := m_ssThresh tcb\<rparr>) s))
     else s)"

text \<open>Lines 1941 to 1961: the ECN echo of the peer.\<close>

definition ecn_ack :: "seq \<Rightarrow> seq \<Rightarrow> u8 \<Rightarrow> u32 \<Rightarrow> sock \<Rightarrow> sock result" where
  "ecn_ack ackNumber oldHeadSequence flags currentDelivered s =
    (if seq_gt ackNumber oldHeadSequence \<and> m_ecnState (sk_tcb s) \<noteq> ECN_DISABLED \<and> has_flag flags ECE then
       (if seq_lt (sk_ecnEchoSeq s) ackNumber then
          let s = upd_tcb (\<lambda>tcb. tcb\<lparr>m_ecnState := ECN_ECE_RCVD\<rparr>) (s\<lparr>sk_ecnEchoSeq := ackNumber\<rparr>)
          in if m_congState (sk_tcb s) \<noteq> CA_CWR then EnterCwr currentDelivered s else Inr s
        else Inr s)
     else if m_ecnState (sk_tcb s) = ECN_ECE_RCVD \<and> \<not> has_flag flags ECE then
       Inr (upd_tcb (\<lambda>tcb. tcb\<lparr>m_ecnState := ECN_IDLE\<rparr>) s)
     else Inr s)"

text \<open>Lines 1974 to 1983; none of the modelled algorithms has \<open>CongControl\<close>.\<close>

definition cong_control :: "u32 \<Rightarrow> u32 \<Rightarrow> u32 \<Rightarrow> sock \<Rightarrow> sock result" where
  "cong_control previousLost priorInFlight currentDelivered s =
    (if Base_HasCongControl then
       let currentLost = tx_lostOut (sk_tx s);
           lost = (if currentLost > previousLost then currentLost - previousLost else previousLost - currentLost)
       in bindE (GenerateSample currentDelivered lost False priorInFlight (m_minRtt (sk_tcb s)) (sk_rateOps s))
            (\<lambda>rate. Inr (upd_tcb Base_CongControl (s\<lparr>sk_rateOps := rate\<rparr>)))
     else Inr s)"

definition ReceivedAck :: "app \<Rightarrow> packet \<Rightarrow> TcpHeader \<Rightarrow> sock \<Rightarrow> sock result" where
  "ReceivedAck app packet tcpHeader s =
    ns_assert 1879 (has_flag (h_flags tcpHeader) ACK)
     (ns_assert 1880 (m_segmentSize (sk_tcb s) > 0)
      (let previousLost = tx_lostOut (sk_tx s);
           priorInFlight = m_bytesInFlight (sk_tcb s);
           previousDelivered = rc_delivered (m_rate (sk_rateOps s))
       in bindE (ReadOptions tcpHeader s) (\<lambda>(bytesSacked, s).
          let ackNumber = h_ackNumber tcpHeader;
              oldHeadSequence = tx_firstByteSeq (sk_tx s);
              data = (\<lambda>s. if pkt_size packet > 0 then ReceivedData app packet tcpHeader s else Inr s)
          in if seq_lt ackNumber oldHeadSequence then data s
             else
               bindE (note_retrans_acked ackNumber oldHeadSequence s) (\<lambda>s.
               bindE (DiscardUpTo (sk_now s) (SkbDelivered (sk_now s)) ackNumber (sk_tx s) (sk_rateOps s))
                 (\<lambda>(tx, rate).
               let s = s\<lparr>sk_tx := tx, sk_rateOps := rate\<rparr>;
                   currentDelivered = ucast (rc_delivered (m_rate rate) - previousDelivered) :: u32;
                   s = upd_tcb (\<lambda>tcb. tcb\<lparr>m_lastAckedSackedBytes := currentDelivered\<rparr>) s
               in bindE (ecn_ack ackNumber oldHeadSequence (h_flags tcpHeader) currentDelivered
                           (leave_cwr ackNumber s)) (\<lambda>s.
                  bindE (BytesInFlight s) (\<lambda>(_, s).
                  bindE (ProcessAck app ackNumber (bytesSacked > 0) currentDelivered oldHeadSequence s) (\<lambda>s.
                  let s = upd_tcb (\<lambda>tcb. tcb\<lparr>m_isRetransDataAcked := False\<rparr>) s
                  in bindE (cong_control previousLost priorInFlight currentDelivered s) (\<lambda>s.
                     bindE (data s) (\<lambda>s.
                     send_pending app (sk_connected s) s))))))))))"

end
