(* ===== verification/SockConn.thy ===== *)
theory SockConn
  imports SockAck
begin

text \<open>
  The connection state machine of the socket \<open>TcpSocketBase\<close>: opening a connection, the
  segments handed up by the network layer, and the handler of each state.
\<close>

subsection \<open>Opening\<close>

definition SockListen :: "sock \<Rightarrow> int \<times> sock" where
  "SockListen s =
    (if sk_state s \<noteq> CLOSED then (- 1, s\<lparr>sk_errno := ERROR_INVAL\<rparr>) else (0, s\<lparr>sk_state := LISTEN\<rparr>))"

definition set_ecn :: "EcnState \<Rightarrow> sock \<Rightarrow> sock" where
  "set_ecn e s = upd_tcb (\<lambda>tcb. tcb\<lparr>m_ecnState := e\<rparr>) s"

definition DoConnect :: "app \<Rightarrow> sock \<Rightarrow> sock result" where
  "DoConnect app s =
    (if sk_state s \<in> {CLOSED, LISTEN, SYN_SENT, LAST_ACK, CLOSE_WAIT} then
       bindE (SendEmptyPacket app (if m_useEcn (sk_tcb s) = EcnOn then SYN OR ECE OR CWR else SYN) s) (\<lambda>s.
         Inr (set_ecn ECN_DISABLED (s\<lparr>sk_state := SYN_SENT\<rparr>)))
     else if sk_state s \<noteq> TIME_WAIT then
       bindE (SendRST app s) (\<lambda>s. Inr (CloseAndNotify app s))
     else Inr s)"

text \<open>
  \<open>Connect\<close> behind the binding of the endpoint and the route lookup, which are the network
  layer's.
\<close>

definition connect_bound :: "app \<Rightarrow> sock \<Rightarrow> sock result" where
  "connect_bound app s =
    DoConnect app (s\<lparr>sk_rtt := RttReset (sk_rtt s), sk_synCount := sk_synRetries s,
                     sk_dataRetrCount := sk_dataRetries s\<rparr>)"

definition ConnectionSucceeded :: "app \<Rightarrow> sock \<Rightarrow> sock" where
  "ConnectionSucceeded app s = notify_room app (app NotifyConnectionSucceeded s)"

subsection \<open>Fork\<close>

text \<open>
  The algorithm of a forked socket: \<open>Fork\<close> of the CERL variants copies none of their
  members, and \<open>TcpCerlPlus\<close> and \<open>TcpCerlX\<close> inherit the \<open>Fork\<close> of \<open>TcpCerl\<close>.
\<close>

definition fork_cc :: "CongestionControl \<Rightarrow> CongestionControl" where
  "fork_cc cc =
    (case cc of
       CC_NewReno \<Rightarrow> CC_NewReno
     | CC_LinuxReno cnt \<Rightarrow> CC_LinuxReno 0
     | _ \<Rightarrow> CC_Cerl new_TcpCerl)"

text \<open>The copy constructors of the socket and of its congestion state; members they do not name have their initial values.\<close>

definition Fork :: "sock \<Rightarrow> sock" where
  "Fork s =
    s\<lparr>sk_sent := [], sk_later := [], sk_baseIat := sk_baseIat new_sock, sk_iat := sk_iat new_sock,
      sk_lastPacketTime := Time_Min, sk_lastUpdate := sk_lastUpdate new_sock, sk_dwnd := sk_dwnd new_sock,
      sk_retxEvent := None, sk_lastAckEvent := None, sk_delAckEvent := None, sk_persistEvent := None,
      sk_timewaitEvent := None, sk_delAckCount := 0, sk_history := [], sk_endPoint := None,
      sk_endPoint6 := None, sk_highTxAck := 0, sk_advWnd := 0, sk_cwndDiff := 0,
      sk_sendPendingDataEvent := None, sk_pacingTimer := None,
      sk_tcb := (sk_tcb s)\<lparr>m_cWndInfl := 0, m_isRetransDataAcked := False, m_rcvCwndValue := 0,
                           m_pacingRate := m_maxPacingRate (sk_tcb s)\<rparr>,
      sk_congestionControl := fork_cc (sk_congestionControl s), sk_rateOps := new_TcpRateLinux\<rparr>"

text \<open>
  \<open>CompleteFork\<close> runs on the forked socket.  The endpoint it allocates is of the IP version
  of the address the SYN was sent to.
\<close>

definition CompleteFork :: "app \<Rightarrow> TcpHeader \<Rightarrow> Address \<Rightarrow> u16 \<Rightarrow> Address \<Rightarrow> u16 \<Rightarrow> sock \<Rightarrow> sock result" where
  "CompleteFork app h fromAddress fromPort toAddress toPort s =
    (let ep = \<lparr> ep_localAddress = toAddress, ep_localPort = toPort,
                ep_peerAddress = fromAddress, ep_peerPort = fromPort \<rparr>;
         s = (case toAddress of
                Ipv4Address _ \<Rightarrow> s\<lparr>sk_endPoint := Some ep, sk_endPoint6 := None\<rparr>
              | Ipv6Address _ \<Rightarrow> s\<lparr>sk_endPoint6 := Some ep, sk_endPoint := None\<rparr>
              | NoAddress \<Rightarrow> s);
         s = s\<lparr>sk_state := SYN_RCVD, sk_synCount := sk_synRetries s, sk_dataRetrCount := sk_dataRetries s,
               sk_rx := SetNextRxSequence (h_sequenceNumber h + 1) (sk_rx s)\<rparr>
     in if m_useEcn (sk_tcb s) \<noteq> EcnOff \<and> h_flags h AND (CWR OR ECE) = CWR OR ECE
        then bindE (SendEmptyPacket app (SYN OR ACK OR ECE) s) (\<lambda>s. Inr (set_ecn ECN_IDLE s))
        else bindE (SendEmptyPacket app (SYN OR ACK) s) (\<lambda>s. Inr (set_ecn ECN_DISABLED s)))"

subsection \<open>Handlers of the states\<close>

text \<open>The flags that tell the handlers apart.\<close>

definition event_flags :: "TcpHeader \<Rightarrow> u8" where
  "event_flags tcpHeader = h_flags tcpHeader AND NOT (PSH OR URG OR CWR OR ECE)"

definition event_flags_ecn :: "TcpHeader \<Rightarrow> u8" where
  "event_flags_ecn tcpHeader = h_flags tcpHeader AND NOT (PSH OR URG)"

text \<open>A bad segment: a reset is sent unless it is one itself, and the socket is closed.\<close>

definition reset_and_close :: "app \<Rightarrow> bool \<Rightarrow> sock \<Rightarrow> sock result" where
  "reset_and_close app reset s =
    bindE (if reset then SendRST app s else Inr s) (\<lambda>s. Inr (CloseAndNotify app s))"

definition ProcessEstablished :: "app \<Rightarrow> packet \<Rightarrow> TcpHeader \<Rightarrow> sock \<Rightarrow> sock result" where
  "ProcessEstablished app packet tcpHeader s =
    (let tcpflags = event_flags tcpHeader; ack = h_ackNumber tcpHeader in
     if tcpflags = ACK then
       (if seq_lt ack (tx_firstByteSeq (sk_tx s)) then Inr s
        else if seq_gt ack (m_highTxMark (sk_tcb s)) then send_ack app s
        else ReceivedAck app packet tcpHeader s)
     else if tcpflags = SYN then Inr s
     else if tcpflags = SYN OR ACK then Inr s
     else if tcpflags = FIN \<or> tcpflags = FIN OR ACK then PeerClose app packet tcpHeader s
     else if tcpflags = 0 then
       bindE (ReceivedData app packet tcpHeader s) (\<lambda>s.
         if Finished (sk_rx s) then PeerClose app packet tcpHeader s else Inr s)
     else reset_and_close app (tcpflags \<noteq> RST) s)"

text \<open>The forked socket, if any: the caller schedules \<open>CompleteFork\<close> on it.\<close>

definition ProcessListen ::
  "(Address \<Rightarrow> u16 \<Rightarrow> bool) \<Rightarrow> packet \<Rightarrow> TcpHeader \<Rightarrow> Address \<Rightarrow> u16 \<Rightarrow> Address \<Rightarrow> u16 \<Rightarrow> sock \<Rightarrow> sock option" where
  "ProcessListen accept packet tcpHeader fromAddress fromPort toAddress toPort s =
    (if event_flags tcpHeader \<noteq> SYN then None
     else if \<not> accept fromAddress fromPort then None
     else Some ((Fork s)\<lparr>sk_later :=
       [LaterCompleteFork packet tcpHeader fromAddress fromPort toAddress toPort]\<rparr>))"

text \<open>The reply to a SYN in the states \<open>SYN_SENT\<close> and \<open>SYN_RCVD\<close>.\<close>

definition reply_syn :: "app \<Rightarrow> u8 \<Rightarrow> sock \<Rightarrow> sock result" where
  "reply_syn app flags s =
    (if m_useEcn (sk_tcb s) \<noteq> EcnOff \<and> flags AND (CWR OR ECE) = CWR OR ECE
     then bindE (SendEmptyPacket app (SYN OR ACK OR ECE) s) (\<lambda>s. Inr (set_ecn ECN_IDLE s))
     else SendEmptyPacket app (SYN OR ACK) (set_ecn ECN_DISABLED s))"

definition establish :: "sock \<Rightarrow> sock" where
  "establish s =
    (upd_tcb (\<lambda>tcb. tcb\<lparr>m_congState := CA_OPEN\<rparr>) (cc_CongestionStateSet CA_OPEN s))
      \<lparr>sk_state := ESTABLISHED, sk_connected := True, sk_retxEvent := None\<rparr>"

text \<open>The SYN is acknowledged: the send sequence starts behind it.\<close>

definition advance_syn :: "sock \<Rightarrow> sock result" where
  "advance_syn s =
    (let s = upd_tcb (\<lambda>tcb. tcb\<lparr>m_nextTxSequence := m_nextTxSequence tcb + 1,
                               m_highTxMark := m_nextTxSequence tcb + 1\<rparr>) s
     in bindE (SetHeadSequence (m_nextTxSequence (sk_tcb s)) (sk_tx s)) (\<lambda>tx. Inr (s\<lparr>sk_tx := tx\<rparr>)))"

definition ProcessSynSent :: "app \<Rightarrow> packet \<Rightarrow> TcpHeader \<Rightarrow> sock \<Rightarrow> sock result" where
  "ProcessSynSent app packet tcpHeader s =
    (let tcpflags = event_flags_ecn tcpHeader in
     if tcpflags = 0 then
       (let s = establish s in
        bindE (ReceivedData app packet tcpHeader (s\<lparr>sk_delAckCount := sk_delAckMaxCount s\<rparr>)) (\<lambda>s.
          Inr (s\<lparr>sk_later := sk_later s @ [LaterConnectionSucceeded]\<rparr>)))
     else if has_flag tcpflags ACK \<and> \<not> has_flag tcpflags SYN then Inr s
     else if has_flag tcpflags SYN \<and> \<not> has_flag tcpflags ACK then
       reply_syn app tcpflags
         (s\<lparr>sk_state := SYN_RCVD, sk_synCount := sk_synRetries s,
            sk_rx := SetNextRxSequence (h_sequenceNumber tcpHeader + 1) (sk_rx s)\<rparr>)
     else if has_flag tcpflags (SYN OR ACK) \<and> m_nextTxSequence (sk_tcb s) + 1 = h_ackNumber tcpHeader then
       (let s = establish s;
            s = s\<lparr>sk_rx := SetNextRxSequence (h_sequenceNumber tcpHeader + 1) (sk_rx s)\<rparr>
        in bindE (advance_syn s) (\<lambda>s.
           bindE (UpdatePacingRate s) (\<lambda>s.
           bindE (SendEmptyPacket app ACK s) (\<lambda>s.
             let s = set_ecn (if m_useEcn (sk_tcb s) \<noteq> EcnOff \<and> tcpflags AND (CWR OR ECE) = ECE
                              then ECN_IDLE else ECN_DISABLED) s
             in bindE (send_pending app (sk_connected s) s) (\<lambda>s.
                Inr (s\<lparr>sk_later := sk_later s @ [LaterConnectionSucceeded],
                       sk_delAckCount := sk_delAckMaxCount s\<rparr>))))))
     else reset_and_close app (\<not> has_flag tcpflags RST) s)"

definition set_peer :: "Address \<Rightarrow> u16 \<Rightarrow> sock \<Rightarrow> sock" where
  "set_peer a port s =
    (case sk_endPoint s of
       Some ep \<Rightarrow> s\<lparr>sk_endPoint := Some (ep\<lparr>ep_peerAddress := a, ep_peerPort := port\<rparr>)\<rparr>
     | None \<Rightarrow>
         (case sk_endPoint6 s of
            Some ep \<Rightarrow> s\<lparr>sk_endPoint6 := Some (ep\<lparr>ep_peerAddress := a, ep_peerPort := port\<rparr>)\<rparr>
          | None \<Rightarrow> s))"

definition ProcessSynRcvd ::
  "app \<Rightarrow> packet \<Rightarrow> TcpHeader \<Rightarrow> Address \<Rightarrow> u16 \<Rightarrow> sock \<Rightarrow> sock result" where
  "ProcessSynRcvd app packet tcpHeader fromAddress fromPort s =
    (let tcpflags = event_flags tcpHeader in
     if tcpflags = 0 \<or> (tcpflags = ACK \<and> m_nextTxSequence (sk_tcb s) + 1 = h_ackNumber tcpHeader) then
       bindE (advance_syn (establish s)) (\<lambda>s.
         let s = (set_peer fromAddress fromPort s)\<lparr>sk_delAckCount := sk_delAckMaxCount s\<rparr>
         in bindE (ReceivedAck app packet tcpHeader (app NotifyNewConnectionCreated s)) (\<lambda>s.
            bindE (UpdatePacingRate s) (\<lambda>s. Inr (notify_room app s))))
     else if tcpflags = SYN then
       reply_syn app (h_flags tcpHeader)
         (s\<lparr>sk_rx := SetNextRxSequence (h_sequenceNumber tcpHeader + 1) (sk_rx s)\<rparr>)
     else if tcpflags = FIN OR ACK then
       (if h_sequenceNumber tcpHeader = rx_nextRxSeq (sk_rx s) then
          bindE (advance_syn (s\<lparr>sk_connected := True, sk_retxEvent := None\<rparr>)) (\<lambda>s.
            PeerClose app packet tcpHeader (app NotifyNewConnectionCreated (set_peer fromAddress fromPort s)))
        else Inr s)
     else reset_and_close app (tcpflags \<noteq> RST)
            (if tcpflags \<noteq> RST then set_peer fromAddress fromPort s else s))"

text \<open>
  Lines 2593 to 2613: an in-sequence FIN in the states \<open>FIN_WAIT_1\<close> and
  \<open>FIN_WAIT_2\<close>.
\<close>

definition wait_finished :: "app \<Rightarrow> TcpHeader \<Rightarrow> sock \<Rightarrow> sock result" where
  "wait_finished app tcpHeader s =
    (if sk_state s \<in> {FIN_WAIT_1, FIN_WAIT_2} \<and> Finished (sk_rx s) then
       bindE (if sk_state s = FIN_WAIT_1 then
                let s = s\<lparr>sk_state := CLOSING\<rparr> in
                if tx_size (sk_tx s) = 0 \<and> h_ackNumber tcpHeader = m_highTxMark (sk_tcb s) + 1
                then TimeWait app s else Inr s
              else TimeWait app s) (\<lambda>s.
       bindE (SendEmptyPacket app ACK s) (\<lambda>s.
         Inr (if \<not> sk_shutdownRecv s then app NotifyDataRecv s else s)))
     else Inr s)"

definition ProcessWait :: "app \<Rightarrow> packet \<Rightarrow> TcpHeader \<Rightarrow> sock \<Rightarrow> sock result" where
  "ProcessWait app packet tcpHeader s =
    (let tcpflags = event_flags tcpHeader in
     if pkt_size packet > 0 \<and> \<not> has_flag tcpflags ACK then
       bindE (ReceivedData app packet tcpHeader s) (wait_finished app tcpHeader)
     else if tcpflags = ACK then
       bindE (ReceivedAck app packet tcpHeader s) (\<lambda>s.
         wait_finished app tcpHeader
           (if sk_state s = FIN_WAIT_1 \<and> tx_size (sk_tx s) = 0
               \<and> h_ackNumber tcpHeader = m_highTxMark (sk_tcb s) + 1
            then s\<lparr>sk_state := FIN_WAIT_2\<rparr> else s))
     else if tcpflags = FIN \<or> tcpflags = FIN OR ACK then
       bindE (if has_flag tcpflags ACK then ReceivedAck app packet tcpHeader s else Inr s) (\<lambda>s.
         wait_finished app tcpHeader (s\<lparr>sk_rx := SetFinSequence (h_sequenceNumber tcpHeader) (sk_rx s)\<rparr>))
     else if tcpflags = SYN \<or> tcpflags = SYN OR ACK then Inr s
     else reset_and_close app (tcpflags \<noteq> RST) s)"

definition ProcessClosing :: "app \<Rightarrow> packet \<Rightarrow> TcpHeader \<Rightarrow> sock \<Rightarrow> sock result" where
  "ProcessClosing app packet tcpHeader s =
    (let tcpflags = event_flags_ecn tcpHeader in
     if tcpflags = ACK then
       (if h_sequenceNumber tcpHeader = rx_nextRxSeq (sk_rx s) then TimeWait app s else Inr s)
     else if tcpflags = FIN \<or> tcpflags = FIN OR ACK then
       bindE (SendEmptyPacket app ACK s) (\<lambda>s. Inr (CloseAndNotify app s))
     else reset_and_close app (tcpflags \<noteq> RST) s)"

definition ProcessLastAck :: "app \<Rightarrow> packet \<Rightarrow> TcpHeader \<Rightarrow> sock \<Rightarrow> sock result" where
  "ProcessLastAck app packet tcpHeader s =
    (let tcpflags = event_flags_ecn tcpHeader in
     if tcpflags = 0 then ReceivedData app packet tcpHeader s
     else if tcpflags = ACK then
       Inr (if h_sequenceNumber tcpHeader = rx_nextRxSeq (sk_rx s) then CloseAndNotify app s else s)
     else if tcpflags = FIN then SendEmptyPacket app (FIN OR ACK) s
     else if tcpflags = FIN OR ACK \<or> tcpflags = RST then Inr (CloseAndNotify app s)
     else reset_and_close app True s)"

subsection \<open>Segments handed up by the network layer\<close>

definition forward_cwr :: "TcpHeader \<Rightarrow> sock \<Rightarrow> sock" where
  "forward_cwr tcpHeader s =
    (if sk_state s = ESTABLISHED \<and> \<not> has_flag (h_flags tcpHeader) RST \<and> has_flag (h_flags tcpHeader) CWR
        \<and> m_ecnState (sk_tcb s) \<noteq> ECN_CE_RCVD
     then set_ecn ECN_IDLE s else s)"

text \<open>Lines 1394 to 1430: an option of a SYN is used when both sides have it, or switched off.\<close>

definition syn_option :: "u8 \<Rightarrow> TcpHeader \<Rightarrow> bool \<Rightarrow> (TcpOption \<Rightarrow> sock \<Rightarrow> sock result)
    \<Rightarrow> (sock \<Rightarrow> sock) \<Rightarrow> sock \<Rightarrow> sock result" where
  "syn_option kind tcpHeader enabled process off s =
    (case GetOption kind tcpHeader of
       Some option \<Rightarrow> if enabled then process option s else Inr (off s)
     | None \<Rightarrow> Inr (off s))"

definition forward_syn :: "TcpHeader \<Rightarrow> sock \<Rightarrow> sock result" where
  "forward_syn tcpHeader s0 =
    (let s = s0\<lparr>sk_rWnd := ucast (h_windowSize tcpHeader)\<rparr>; sq = h_sequenceNumber tcpHeader in
     bindE (syn_option 3 tcpHeader (sk_winScalingEnabled s) ProcessOptionWScale
              (\<lambda>s. s\<lparr>sk_winScalingEnabled := False\<rparr>) s) (\<lambda>s.
     bindE (syn_option 4 tcpHeader (sk_sackEnabled s) ProcessOptionSackPermitted
              (\<lambda>s. s\<lparr>sk_sackEnabled := False, sk_tx := SetSackEnabled False (sk_tx s)\<rparr>) s) (\<lambda>s.
     bindE (syn_option 8 tcpHeader (sk_timestampEnabled s) (\<lambda>option. ProcessOptionTimestamp option sq)
              (\<lambda>s. s\<lparr>sk_timestampEnabled := False\<rparr>) s) (\<lambda>s.
     bindE (syn_option 16 tcpHeader (sk_congestionWindowEnabled s) ProcessOptionCongestionWindow
              (\<lambda>s. s\<lparr>sk_congestionWindowEnabled := False\<rparr>) s) (\<lambda>s.
       let s = upd_tcb (\<lambda>tcb. let w = m_initialCWnd tcb * m_segmentSize tcb in
                 tcb\<lparr>m_cWnd := w, m_cWndInfl := w, m_ssThresh := m_initialSsThresh tcb\<rparr>) s
       in if has_flag (h_flags tcpHeader) ACK
          then bindE (EstimateRtt tcpHeader s) (\<lambda>s. Inr (s\<lparr>sk_highRxAckMark := h_ackNumber tcpHeader\<rparr>))
          else Inr s)))))"

text \<open>Lines 1443 to 1472; \<open>None\<close> is the early return for a segment without timestamp.\<close>

definition forward_ack :: "TcpHeader \<Rightarrow> sock \<Rightarrow> sock option result" where
  "forward_ack tcpHeader s =
    (if sk_timestampEnabled s \<and> \<not> HasOption 8 tcpHeader then Inr None
     else
       bindE (if sk_timestampEnabled s
              then case GetOption 8 tcpHeader of
                     Some option \<Rightarrow> ProcessOptionTimestamp option (h_sequenceNumber tcpHeader) s
                   | None \<Rightarrow> Inr s
              else Inr s) (\<lambda>s.
       bindE (syn_option 16 tcpHeader (sk_congestionWindowEnabled s) ProcessOptionCongestionWindow
                (\<lambda>s. s\<lparr>sk_congestionWindowEnabled := False\<rparr>) s) (\<lambda>s.
       bindE (EstimateRtt tcpHeader s) (\<lambda>s. Inr (Some (UpdateWindowSize tcpHeader s))))))"

definition forward_persist :: "sock \<Rightarrow> sock" where
  "forward_persist s =
    (if sk_rWnd s = 0 \<and> sk_persistEvent s = None
     then s\<lparr>sk_retxEvent := None, sk_persistEvent := Some (sk_now s + sk_persistTimeout s)\<rparr> else s)"

text \<open>Lines 1503 to 1518: a segment for a closed socket is answered with a reset.\<close>

definition forward_closed ::
  "TcpHeader \<Rightarrow> Address \<Rightarrow> u16 \<Rightarrow> Address \<Rightarrow> u16 \<Rightarrow> sock \<Rightarrow> sock result" where
  "forward_closed tcpHeader fromAddress fromPort toAddress toPort s =
    (if event_flags_ecn tcpHeader \<noteq> RST then
       let ep = \<lparr> ep_localAddress = toAddress, ep_localPort = h_destinationPort tcpHeader,
                  ep_peerAddress = fromAddress, ep_peerPort = h_sourcePort tcpHeader \<rparr>
       in bindE (AdvertisedWindowSize True s) (\<lambda>(w, s).
            let h = AddOptions s ((data_header RST (m_nextTxSequence (sk_tcb s)) s ep)\<lparr>h_windowSize := w\<rparr>)
            in Inr (SendPacket [] h ep s))
     else Inr s)"

text \<open>The switch over the state, and the end of persist probing behind it.\<close>

definition forward_state ::
  "app \<Rightarrow> packet \<Rightarrow> TcpHeader \<Rightarrow> Address \<Rightarrow> u16 \<Rightarrow> Address \<Rightarrow> u16 \<Rightarrow> sock \<Rightarrow> sock result" where
  "forward_state app packet tcpHeader fromAddress fromPort toAddress toPort s =
    (case sk_state s of
       ESTABLISHED \<Rightarrow> ProcessEstablished app packet tcpHeader s
     | CLOSED \<Rightarrow> forward_closed tcpHeader fromAddress fromPort toAddress toPort s
     | SYN_SENT \<Rightarrow> ProcessSynSent app packet tcpHeader s
     | SYN_RCVD \<Rightarrow> ProcessSynRcvd app packet tcpHeader fromAddress fromPort s
     | FIN_WAIT_1 \<Rightarrow> ProcessWait app packet tcpHeader s
     | FIN_WAIT_2 \<Rightarrow> ProcessWait app packet tcpHeader s
     | CLOSE_WAIT \<Rightarrow> ProcessWait app packet tcpHeader s
     | CLOSING \<Rightarrow> ProcessClosing app packet tcpHeader s
     | LAST_ACK \<Rightarrow> ProcessLastAck app packet tcpHeader s
     | _ \<Rightarrow> Inr s)"

definition forward_unpersist :: "app \<Rightarrow> sock \<Rightarrow> sock result" where
  "forward_unpersist app s =
    (if sk_rWnd s \<noteq> 0 \<and> sk_persistEvent s \<noteq> None
     then ns_assert 1543 (sk_connected s)
            (let s = s\<lparr>sk_persistEvent := None\<rparr> in send_pending app (sk_connected s) s)
     else Inr s)"

text \<open>
  \<open>DoForwardUp\<close> on the payload and the header removed from the packet; besides the socket
  the result holds the socket forked by \<open>ProcessListen\<close>.
\<close>

definition DoForwardUp ::
  "app \<Rightarrow> (Address \<Rightarrow> u16 \<Rightarrow> bool) \<Rightarrow> packet \<Rightarrow> TcpHeader \<Rightarrow> Address \<Rightarrow> u16 \<Rightarrow> Address \<Rightarrow> u16 \<Rightarrow> sock
    \<Rightarrow> (sock option \<times> sock) result" where
  "DoForwardUp app accept packet tcpHeader fromAddress fromPort toAddress toPort s =
    (let s = forward_cwr tcpHeader s; flags = h_flags tcpHeader in
     bindE (if has_flag flags SYN then bindE (forward_syn tcpHeader s) (\<lambda>s. Inr (Some s))
            else if has_flag flags ACK then forward_ack tcpHeader s
            else Inr (Some s)) (\<lambda>r.
     case r of
       None \<Rightarrow> Inr (None, s)
     | Some s \<Rightarrow>
         let s = forward_persist s;
             forked = (if sk_state s = LISTEN
                       then ProcessListen accept packet tcpHeader fromAddress fromPort toAddress toPort s
                       else None)
         in bindE (forward_state app packet tcpHeader fromAddress fromPort toAddress toPort s) (\<lambda>s.
            bindE (forward_unpersist app s) (\<lambda>s. Inr (forked, s)))))"

text \<open>The ECN field of the IP header.\<close>

datatype EcnType = ECN_NotECT | ECN_ECT1 | ECN_ECT0 | ECN_CE

definition forward_ce :: "EcnType \<Rightarrow> bool \<Rightarrow> seq \<Rightarrow> sock \<Rightarrow> sock" where
  "forward_ce ecn noCe sq s =
    (if ecn = ECN_CE \<and> seq_lt (sk_ecnCESeq s) sq then
       cc_CwndEvent CA_EVENT_ECN_IS_CE (set_ecn ECN_CE_RCVD (s\<lparr>sk_ecnCESeq := sq\<rparr>))
     else if ecn \<noteq> ECN_NotECT \<and> noCe then cc_CwndEvent CA_EVENT_ECN_NO_CE s
     else s)"

text \<open>
  \<open>ForwardUp\<close> on the bytes of the packet: \<open>PeekHeader\<close> and \<open>RemoveHeader\<close> parse the same
  header.
\<close>

definition forward_up ::
  "bool \<Rightarrow> app \<Rightarrow> (Address \<Rightarrow> u16 \<Rightarrow> bool) \<Rightarrow> bytes \<Rightarrow> EcnType \<Rightarrow> Address \<Rightarrow> u16 \<Rightarrow> Address \<Rightarrow> u16 \<Rightarrow> sock
    \<Rightarrow> (sock option \<times> sock) result" where
  "forward_up noCe app accept packet ecn fromAddress fromPort toAddress toPort s =
    bindE (Deserialize packet new_TcpHeader) (\<lambda>(tcpHeader, bytesRemoved).
    bindE (IsValidTcpSegment app (h_sequenceNumber tcpHeader) bytesRemoved (pkt_size packet - bytesRemoved) s)
      (\<lambda>(valid, s).
      if \<not> valid then Inr (None, s)
      else DoForwardUp app accept (drop (unat bytesRemoved) packet) tcpHeader fromAddress fromPort toAddress toPort
             (forward_ce ecn noCe (h_sequenceNumber tcpHeader) s)))"

definition ForwardUp ::
  "app \<Rightarrow> (Address \<Rightarrow> u16 \<Rightarrow> bool) \<Rightarrow> bytes \<Rightarrow> EcnType \<Rightarrow> Address \<Rightarrow> u16 \<Rightarrow> Address \<Rightarrow> sock
    \<Rightarrow> (sock option \<times> sock) result" where
  "ForwardUp app accept packet ecn fromAddress port toAddress s =
    (case sk_endPoint s of
       None \<Rightarrow> Inl (Undefined 1231)
     | Some ep \<Rightarrow> forward_up (m_ecnState (sk_tcb s) \<noteq> ECN_DISABLED) app accept packet ecn
                    fromAddress port toAddress (ep_localPort ep) s)"

definition ForwardUp6 ::
  "app \<Rightarrow> (Address \<Rightarrow> u16 \<Rightarrow> bool) \<Rightarrow> bytes \<Rightarrow> EcnType \<Rightarrow> Address \<Rightarrow> u16 \<Rightarrow> Address \<Rightarrow> sock
    \<Rightarrow> (sock option \<times> sock) result" where
  "ForwardUp6 app accept packet ecn fromAddress port toAddress s =
    (case sk_endPoint6 s of
       None \<Rightarrow> Inl (Undefined 1271)
     | Some ep \<Rightarrow> forward_up True app accept packet ecn fromAddress port toAddress (ep_localPort ep) s)"

end
