(* ===== verification/Outcome.thy ===== *)
theory Outcome
  imports Prelude
begin

text \<open>
  Postconditions of operations with errors: \<open>sat r P\<close> when \<open>r\<close> is an error or its value
  satisfies \<open>P\<close>.  The rules push \<open>sat\<close> through the constructs the model is written
  with, so that a handler is reduced to the postconditions of what it calls.
\<close>

definition sat :: "'a result \<Rightarrow> ('a \<Rightarrow> bool) \<Rightarrow> bool" where
  "sat r P \<longleftrightarrow> (\<forall>x. r = Inr x \<longrightarrow> P x)"

lemma sat_simps [simp]:
  "sat (Inr x) P \<longleftrightarrow> P x" "sat (Inl e) P"
  "sat (ns_assert l b r) P \<longleftrightarrow> (b \<longrightarrow> sat r P)"
  by (auto simp: sat_def ns_assert_Inr)

lemma sat_bindE [simp]: "sat (bindE r f) P \<longleftrightarrow> sat r (\<lambda>x. sat (f x) P)"
  by (auto simp: sat_def bindE_Inr)

lemma sat_True [simp]: "sat r (\<lambda>_. True)"
  by (simp add: sat_def)

lemma sat_mono: "sat r P \<Longrightarrow> (\<And>x. P x \<Longrightarrow> Q x) \<Longrightarrow> sat r Q"
  by (simp add: sat_def)

lemma satD: "sat r P \<Longrightarrow> r = Inr x \<Longrightarrow> P x"
  by (simp add: sat_def)

lemma satI: "(\<And>x. r = Inr x \<Longrightarrow> P x) \<Longrightarrow> sat r P"
  by (simp add: sat_def)

lemma sat_case_option [simp]:
  "sat (case a of None \<Rightarrow> r | Some x \<Rightarrow> f x) P
    \<longleftrightarrow> (a = None \<longrightarrow> sat r P) \<and> (\<forall>x. a = Some x \<longrightarrow> sat (f x) P)"
  by (cases a) auto

lemma sat_if [simp]: "sat (if b then r else r') P \<longleftrightarrow> (b \<longrightarrow> sat r P) \<and> (\<not> b \<longrightarrow> sat r' P)"
  by simp

subsection \<open>One rule for each construct\<close>

lemma sat_InrI: "P x \<Longrightarrow> sat (Inr x) P"
  by simp

lemma sat_InlI: "sat (Inl e) P"
  by simp

lemma sat_bindI: "sat r (\<lambda>x. sat (f x) P) \<Longrightarrow> sat (bindE r f) P"
  by simp

lemma sat_assertI: "(b \<Longrightarrow> sat r P) \<Longrightarrow> sat (ns_assert l b r) P"
  by simp

lemma sat_ifI: "(b \<Longrightarrow> sat r P) \<Longrightarrow> (\<not> b \<Longrightarrow> sat r' P) \<Longrightarrow> sat (if b then r else r') P"
  by simp

lemma sat_letI: "(\<And>x. x = a \<Longrightarrow> sat (f x) P) \<Longrightarrow> sat (let x = a in f x) P"
  by simp

lemma sat_optionI:
  "(a = None \<Longrightarrow> sat r P) \<Longrightarrow> (\<And>x. a = Some x \<Longrightarrow> sat (f x) P)
    \<Longrightarrow> sat (case a of None \<Rightarrow> r | Some x \<Rightarrow> f x) P"
  by simp

lemma sat_prodI: "(\<And>a b. x = (a, b) \<Longrightarrow> sat (f a b) P) \<Longrightarrow> sat (case x of (a, b) \<Rightarrow> f a b) P"
  by (cases x) simp

lemma sat_boolI: "(b \<Longrightarrow> sat r P) \<Longrightarrow> (\<not> b \<Longrightarrow> sat r' P) \<Longrightarrow> sat (case b of True \<Rightarrow> r | False \<Rightarrow> r') P"
  by (cases b) simp_all

lemma sat_any: "(\<And>x. P x) \<Longrightarrow> sat r P"
  by (simp add: sat_def)

lemmas sat_wp = sat_InrI sat_InlI sat_bindI sat_assertI sat_ifI sat_letI sat_optionI sat_prodI sat_boolI

end
