(* ===== verification/SockFrame.thy ===== *)
theory SockFrame
  imports SockConn Outcome
begin

text \<open>
  What the operations of the socket can do to the part of it the peer and the
  application see: the connection state, the segments sent and the time.  The locale
  \<open>core_preorder\<close> states the contract a preorder on that part has to meet; every handler
  is proved once against it.  It is interpreted with the transitions of the connection
  state machine and with the growth of the output.
\<close>

type_synonym core = "TcpStates \<times> segment list \<times> time"

definition core :: "sock \<Rightarrow> core" where
  "core s = (sk_state s, sk_sent s, sk_now s)"

text \<open>The transitions the code makes once a connection is being opened.\<close>

inductive st_step :: "TcpStates \<Rightarrow> TcpStates \<Rightarrow> bool" where
  closed: "st_step a CLOSED"
| syn_sent_rcvd: "st_step SYN_SENT SYN_RCVD"
| syn_sent_est: "st_step SYN_SENT ESTABLISHED"
| syn_rcvd_est: "st_step SYN_RCVD ESTABLISHED"
| syn_rcvd_fin: "st_step SYN_RCVD FIN_WAIT_1"
| syn_rcvd_cw: "st_step SYN_RCVD CLOSE_WAIT"
| est_fin: "st_step ESTABLISHED FIN_WAIT_1"
| est_cw: "st_step ESTABLISHED CLOSE_WAIT"
| fin1_fin2: "st_step FIN_WAIT_1 FIN_WAIT_2"
| fin1_closing: "st_step FIN_WAIT_1 CLOSING"
| fin1_cw: "st_step FIN_WAIT_1 CLOSE_WAIT"
| fin2_cw: "st_step FIN_WAIT_2 CLOSE_WAIT"
| fin2_tw: "st_step FIN_WAIT_2 TIME_WAIT"
| closing_tw: "st_step CLOSING TIME_WAIT"
| cw_last: "st_step CLOSE_WAIT LAST_ACK"

inductive_simps st_step_simps [simp]:
  "st_step CLOSED b" "st_step LISTEN b" "st_step SYN_SENT b" "st_step SYN_RCVD b" "st_step ESTABLISHED b"
  "st_step CLOSE_WAIT b" "st_step LAST_ACK b" "st_step FIN_WAIT_1 b" "st_step FIN_WAIT_2 b"
  "st_step CLOSING b" "st_step TIME_WAIT b" "st_step a CLOSED"

text \<open>The states a connection can still reach.\<close>

definition later_states :: "TcpStates \<Rightarrow> TcpStates set" where
  "later_states a =
    (let closing = {CLOSE_WAIT, LAST_ACK, CLOSED} in
     case a of
       CLOSED \<Rightarrow> {CLOSED}
     | LISTEN \<Rightarrow> {LISTEN, CLOSED}
     | SYN_SENT \<Rightarrow> {SYN_SENT, SYN_RCVD, ESTABLISHED, FIN_WAIT_1, FIN_WAIT_2, CLOSING, TIME_WAIT} \<union> closing
     | SYN_RCVD \<Rightarrow> {SYN_RCVD, ESTABLISHED, FIN_WAIT_1, FIN_WAIT_2, CLOSING, TIME_WAIT} \<union> closing
     | ESTABLISHED \<Rightarrow> {ESTABLISHED, FIN_WAIT_1, FIN_WAIT_2, CLOSING, TIME_WAIT} \<union> closing
     | FIN_WAIT_1 \<Rightarrow> {FIN_WAIT_1, FIN_WAIT_2, CLOSING, TIME_WAIT} \<union> closing
     | FIN_WAIT_2 \<Rightarrow> {FIN_WAIT_2, TIME_WAIT} \<union> closing
     | CLOSING \<Rightarrow> {CLOSING, TIME_WAIT, CLOSED}
     | TIME_WAIT \<Rightarrow> {TIME_WAIT, CLOSED}
     | CLOSE_WAIT \<Rightarrow> closing
     | LAST_ACK \<Rightarrow> {LAST_ACK, CLOSED}
     | LAST_STATE \<Rightarrow> {LAST_STATE, CLOSED})"

subsection \<open>The core of updated sockets\<close>

lemma core_simps [simp]:
  "core (sk_alpha_update fun1 s) = core s" "core (sk_baseIat_update fun2 s) = core s"
  "core (sk_iat_update fun3 s) = core s" "core (sk_lastPacketTime_update fun4 s) = core s"
  "core (sk_lastUpdate_update fun5 s) = core s" "core (sk_dwnd_update fun6 s) = core s"
  "core (sk_retxEvent_update fun7 s) = core s" "core (sk_lastAckEvent_update fun8 s) = core s"
  "core (sk_delAckEvent_update fun9 s) = core s" "core (sk_persistEvent_update fun10 s) = core s"
  "core (sk_timewaitEvent_update fun11 s) = core s" "core (sk_dupAckCount_update fun12 s) = core s"
  "core (sk_delAckCount_update fun13 s) = core s" "core (sk_synCount_update fun14 s) = core s"
  "core (sk_dataRetrCount_update fun15 s) = core s" "core (sk_rto_update fun16 s) = core s"
  "core (sk_persistTimeout_update fun17 s) = core s" "core (sk_history_update fun18 s) = core s"
  "core (sk_endPoint_update fun19 s) = core s" "core (sk_endPoint6_update fun20 s) = core s"
  "core (sk_rtt_update fun21 s) = core s" "core (sk_tx_update fun22 s) = core s" "core (sk_rx_update fun23 s) = core s"
  "core (sk_errno_update fun24 s) = core s" "core (sk_closeNotified_update fun25 s) = core s"
  "core (sk_closeOnEmpty_update fun26 s) = core s" "core (sk_shutdownSend_update fun27 s) = core s"
  "core (sk_shutdownRecv_update fun28 s) = core s" "core (sk_connected_update fun29 s) = core s"
  "core (sk_bytesAckedNotProcessed_update fun30 s) = core s" "core (sk_highTxAck_update fun31 s) = core s"
  "core (sk_rWnd_update fun32 s) = core s" "core (sk_advWnd_update fun33 s) = core s"
  "core (sk_highRxMark_update fun34 s) = core s" "core (sk_highRxAckMark_update fun35 s) = core s"
  "core (sk_sackEnabled_update fun36 s) = core s" "core (sk_winScalingEnabled_update fun37 s) = core s"
  "core (sk_rcvWindShift_update fun38 s) = core s" "core (sk_sndWindShift_update fun39 s) = core s"
  "core (sk_timestampEnabled_update fun40 s) = core s" "core (sk_congestionWindowEnabled_update fun41 s) = core s"
  "core (sk_cwndDiff_update fun42 s) = core s" "core (sk_timestampToEcho_update fun43 s) = core s"
  "core (sk_sendPendingDataEvent_update fun44 s) = core s" "core (sk_recover_update fun45 s) = core s"
  "core (sk_recoverActive_update fun46 s) = core s" "core (sk_tcb_update fun47 s) = core s"
  "core (sk_congestionControl_update fun48 s) = core s" "core (sk_recoveryOps_update fun49 s) = core s"
  "core (sk_rateOps_update fun50 s) = core s" "core (sk_isFirstPartialAck_update fun51 s) = core s"
  "core (sk_pacingTimer_update fun52 s) = core s" "core (sk_ecnEchoSeq_update fun53 s) = core s"
  "core (sk_ecnCESeq_update fun54 s) = core s" "core (sk_ecnCWRSeq_update fun55 s) = core s"
  "core (sk_later_update fun56 s) = core s"
  by (simp_all add: core_def)

lemma core_if [simp]: "core (if b then s else t) = (if b then core s else core t)"
  by simp

lemma core_state [simp]: "core (sk_state_update f s) = (f (sk_state s), snd (core s))"
  by (simp add: core_def)

lemma core_ops [simp]:
  "core (upd_tcb f s) = core s" "core (CancelAllTimers s) = core s" "core (DeallocateEndPoint s) = core s"
  "core (UpdateRttHistory q z r s) = core s" "core (cc_CwndEvent e s) = core s"
  "core (cc_CongestionStateSet c s) = core s" "core (cc_EnterRecovery s) = core s"
  "core (cc_ExitRecovery s) = core s" "core (rec_ExitRecovery s) = core s"
  "core (rec_UpdateBytesSent n s) = core s" "core (leave_cwr a s) = core s"
  "core (UpdateWindowSize h s) = core s" "core (set_ecn es s) = core s" "core (set_peer ad p s) = core s"
  "core (forward_cwr h s) = core s" "core (forward_persist s) = core s" "core (ShutdownRecv s) = core s"
  by (auto simp: upd_tcb_def CancelAllTimers_def DeallocateEndPoint_def UpdateRttHistory_def cc_CwndEvent_def
      cc_CongestionStateSet_def cc_EnterRecovery_def cc_ExitRecovery_def rec_ExitRecovery_def
      rec_UpdateBytesSent_def leave_cwr_def UpdateWindowSize_def set_ecn_def set_peer_def forward_cwr_def
      forward_persist_def ShutdownRecv_def Let_def split: CongestionControl.splits RecoveryControl.splits
      list.splits option.splits prod.splits)

definition app_ok :: "(core \<Rightarrow> core \<Rightarrow> bool) \<Rightarrow> app \<Rightarrow> bool" where
  "app_ok rel app \<longleftrightarrow> (\<forall>u s. rel (core s) (core (app u s)))"

text \<open>The operations of the buffers and algorithms only move their own part of the socket.\<close>

definition keeps :: "'a result \<Rightarrow> ('a \<Rightarrow> sock) \<Rightarrow> sock \<Rightarrow> bool" where
  "keeps r f s \<longleftrightarrow> sat r (\<lambda>x. core (f x) = core s)"

lemma keeps_sat: "keeps r f s \<Longrightarrow> (\<And>x. core (f x) = core s \<Longrightarrow> P x) \<Longrightarrow> sat r P"
  by (auto simp: keeps_def elim: sat_mono)

lemma BytesInFlight_keeps: "keeps (BytesInFlight s) snd s"
  by (simp add: keeps_def BytesInFlight_def)

lemma AvailableWindow_keeps: "keeps (AvailableWindow s) snd s"
  by (simp add: keeps_def AvailableWindow_def BytesInFlight_def Let_def)

lemma AdvertisedWindowSize_keeps: "keeps (AdvertisedWindowSize b s) snd s"
  by (simp add: keeps_def AdvertisedWindowSize_def Let_def)

lemma cc_PktsAcked_keeps: "keeps (cc_PktsAcked n rtt s) (\<lambda>t. t) s"
  by (simp add: keeps_def cc_PktsAcked_def split: CongestionControl.splits)

lemma cc_IncreaseWindow_keeps: "keeps (cc_IncreaseWindow n s) (\<lambda>t. t) s"
  by (simp add: keeps_def cc_IncreaseWindow_def split: CongestionControl.splits prod.splits)

lemma cc_GetSsThresh_keeps: "keeps (cc_GetSsThresh n s) snd s"
  by (simp add: keeps_def cc_GetSsThresh_def split: CongestionControl.splits prod.splits)

lemma rec_EnterRecovery_keeps: "keeps (rec_EnterRecovery a b n s) (\<lambda>t. t) s"
  by (simp add: keeps_def rec_EnterRecovery_def split: RecoveryControl.splits prod.splits)

lemma rec_DoRecovery_keeps: "keeps (rec_DoRecovery n s) (\<lambda>t. t) s"
  by (simp add: keeps_def rec_DoRecovery_def split: RecoveryControl.splits prod.splits)

lemma UpdatePacingRate_keeps: "keeps (UpdatePacingRate s) (\<lambda>t. t) s"
  by (simp add: keeps_def UpdatePacingRate_def Let_def)

lemma start_pacing_keeps: "keeps (start_pacing n s) (\<lambda>t. t) s"
  by (simp add: keeps_def start_pacing_def)

lemma cong_control_keeps: "keeps (cong_control a b d s) (\<lambda>t. t) s"
  by (simp add: keeps_def cong_control_def Let_def)

lemma EstimateRtt_keeps: "keeps (EstimateRtt h s) (\<lambda>t. t) s"
  by (simp add: keeps_def EstimateRtt_def Let_def)

lemma take_item_keeps: "keeps (take_item n q s) snd s"
  by (auto simp: keeps_def take_item_def Let_def BytesInFlight_def split: prod.splits)

lemma read_options_keeps: "keeps (read_options ops n s) snd s"
proof (induction ops arbitrary: n s)
  case (Cons op ops)
  have "keeps (read_options ops m (s\<lparr>sk_tx := tx, sk_rateOps := r\<rparr>)) snd s" for m tx r
    using Cons.IH [of m "s\<lparr>sk_tx := tx, sk_rateOps := r\<rparr>"] by (simp add: keeps_def)
  with Cons.IH [of n s] show ?case
    by (auto simp: keeps_def ProcessOptionSack_def split: TcpOption.splits prod.splits)
qed (simp add: keeps_def)

lemma mark_lost_head_keeps: "keeps (mark_lost_head s) (\<lambda>t. t) s"
  by (simp add: keeps_def mark_lost_head_def)

lemma count_segments_keeps: "keeps (count_segments n s) (\<lambda>x. snd (snd x)) s"
  by (simp add: keeps_def count_segments_def Let_def)

lemma note_retrans_acked_keeps: "keeps (note_retrans_acked a b s) (\<lambda>t. t) s"
  by (simp add: keeps_def note_retrans_acked_def Let_def)

lemma update_iat_keeps: "keeps (update_iat s) (\<lambda>t. t) s"
  by (auto simp: keeps_def update_iat_def UpdateDelayWindow_def Let_def split: prod.splits
      intro!: AdvertisedWindowSize_keeps [THEN keeps_sat])

lemma issue_timeout_keeps: "keeps (issue_timeout s) (\<lambda>t. t) s"
  by (simp add: keeps_def issue_timeout_def)

lemma advance_syn_keeps: "keeps (advance_syn s) (\<lambda>t. t) s"
  by (simp add: keeps_def advance_syn_def Let_def)

lemmas part_keeps = BytesInFlight_keeps AvailableWindow_keeps AdvertisedWindowSize_keeps cc_PktsAcked_keeps cc_IncreaseWindow_keeps
  cc_GetSsThresh_keeps rec_EnterRecovery_keeps rec_DoRecovery_keeps UpdatePacingRate_keeps start_pacing_keeps
  cong_control_keeps EstimateRtt_keeps take_item_keeps read_options_keeps mark_lost_head_keeps
  count_segments_keeps note_retrans_acked_keeps update_iat_keeps issue_timeout_keeps advance_syn_keeps

lemmas part_sat = part_keeps [THEN keeps_sat]

text \<open>Operations on values other than the socket: nothing is asked of their result.\<close>

lemmas value_sat = sat_any [of _ "SetScale k" for k] sat_any [of _ "RxAdd p q rx" for p q rx]
  sat_any [of _ "Extract n rx" for n rx] sat_any [of _ "Seconds l x" for l x]
  sat_any [of _ "CopyFromSequence t n q tx" for t n q tx] sat_any [of _ "SetSentListLost b tx" for b tx]
  sat_any [of _ "IsHeadRetransmitted tx" for tx] sat_any [of _ "AddRenoSack tx" for tx]
  sat_any [of _ "DiscardUpTo t cb q tx st" for t cb q tx st] sat_any [of _ "u32_div l a b" for l a b]
  sat_any [of _ "GetScale k" for k] sat_any [of _ "SetHeadSequence q tx" for q tx]
  sat_any [of _ "GetDelayTimeout s" for s]

lemma rto_prepare_keeps: "keeps (rto_prepare s) (\<lambda>t. t) s"
  unfolding rto_prepare_def keeps_def
  by (intro sat_wp part_sat value_sat) simp_all

subsection \<open>The contract and the handlers\<close>

locale core_preorder =
  fixes rel :: "core \<Rightarrow> core \<Rightarrow> bool"
  assumes refl: "rel c c"
    and trans: "rel c d \<Longrightarrow> rel d e \<Longrightarrow> rel c e"
    and step: "st_step a b \<Longrightarrow> rel (a, x) (b, x)"
    and send: "rel (a, l, n) (a, l @ [sg], n)"
begin

lemma to_state: "rel c (core s) \<Longrightarrow> st_step (sk_state s) b \<Longrightarrow> rel c (b, snd (core s))"
  using step [of "sk_state s" b "snd (core s)"] trans by (metis core_def snd_conv)

lemma to_closed: "rel c (core s) \<Longrightarrow> rel c (CLOSED, snd (core s))"
  by (rule to_state) simp_all

lemma sent: "rel c (core s) \<Longrightarrow> rel c (core (SendPacket p h ep s))"
  using send [of "sk_state s" "sk_sent s" "sk_now s"] trans by (fastforce simp: core_def SendPacket_def)

lemma told: "app_ok rel app \<Longrightarrow> rel c (core s) \<Longrightarrow> rel c (core (app u s))"
  by (metis app_ok_def trans)

lemma told_after: "app_ok rel app \<Longrightarrow> core s' = core s \<Longrightarrow> rel c (core s) \<Longrightarrow> rel c (core (app u s'))"
  by (metis told)

lemma rel_if: "(b \<Longrightarrow> rel c x) \<Longrightarrow> (\<not> b \<Longrightarrow> rel c y) \<Longrightarrow> rel c (if b then x else y)"
  by simp

lemma syn_part_rel:
  assumes "app_ok rel app" "rel c (core s)"
  shows "sat (syn_part app q h s) (\<lambda>x. rel c (core (snd x)))"
  unfolding syn_part_def AddOptionWScale_def AddOptionSackPermitted_def
  using assms by (intro sat_wp part_sat value_sat) (simp_all add: to_closed told)

lemma SendEmptyPacket_rel:
  assumes "app_ok rel app" "rel c (core s)"
  shows "sat (SendEmptyPacket app flags s) (\<lambda>t. rel c (core t))"
  unfolding SendEmptyPacket_def
  using assms by (intro sat_wp part_sat value_sat syn_part_rel [where c = c, THEN sat_mono]) (auto simp: sent Let_def split: if_splits)

lemma SendEmptyPacket_fin:
  assumes "app_ok rel app" "rel c (core s)" "flags = FIN \<or> flags = FIN OR ACK"
  shows "sat (SendEmptyPacket app flags s) (\<lambda>t. rel c (core t) \<and> sk_state t = sk_state s)"
proof -
  have "sat (SendEmptyPacket app flags s) (\<lambda>t. fst (core t) = fst (core s))"
    unfolding SendEmptyPacket_def
    using assms(3) by (intro sat_wp part_sat)
      (auto simp: Let_def SendPacket_def core_def has_flag_def FIN_def ACK_def SYN_def split: if_splits)
  moreover have "sat (SendEmptyPacket app flags s) (\<lambda>t. rel c (core t))"
    by (rule SendEmptyPacket_rel [OF assms(1,2)])
  ultimately show ?thesis
    unfolding sat_def by (metis core_def fst_conv)
qed

lemma CloseAndNotify_rel:
  "app_ok rel app \<Longrightarrow> rel c (core s) \<Longrightarrow> rel c (core (CloseAndNotify app s))"
  by (simp add: CloseAndNotify_def Let_def to_closed told)

lemma notify_room_rel: "app_ok rel app \<Longrightarrow> rel c (core s) \<Longrightarrow> rel c (core (notify_room app s))"
  by (simp add: notify_room_def told)

lemma NewAck_rel: "app_ok rel app \<Longrightarrow> rel c (core s) \<Longrightarrow> rel c (core (NewAck app a b s))"
  by (simp add: NewAck_def Let_def notify_room_rel)

lemma SendRST_rel:
  assumes "app_ok rel app" "rel c (core s)"
  shows "sat (SendRST app s) (\<lambda>t. rel c (core t))"
  unfolding SendRST_def
  using assms by (intro sat_wp SendEmptyPacket_rel [where c = c, THEN sat_mono]) (simp_all add: told)

lemma TimeWait_rel:
  assumes "app_ok rel app" "rel c (core s)" "st_step (sk_state s) TIME_WAIT"
  shows "sat (TimeWait app s) (\<lambda>t. rel c (core t))"
proof -
  have "rel c (core (s\<lparr>sk_state := TIME_WAIT\<rparr>))"
    using to_state [OF assms(2,3)] by simp
  then show ?thesis
    unfolding TimeWait_def
    using assms by (intro sat_wp value_sat) (simp_all add: told)
qed

lemma send_ack_rel:
  assumes "app_ok rel app" "rel c (core s)"
  shows "sat (send_ack app s) (\<lambda>t. rel c (core t))"
  unfolding send_ack_def
  using assms by (intro sat_wp SendEmptyPacket_rel [where c = c, THEN sat_mono]) simp_all

lemma DelAckTimeout_rel:
  assumes "app_ok rel app" "rel c (core s)"
  shows "sat (DelAckTimeout app s) (\<lambda>t. rel c (core t))"
  unfolding DelAckTimeout_def
  using assms by (intro sat_wp send_ack_rel [where c = c, THEN sat_mono]) simp_all

lemma IsValidTcpSegment_rel:
  assumes "app_ok rel app" "rel c (core s)"
  shows "sat (IsValidTcpSegment app q n m s) (\<lambda>x. rel c (core (snd x)))"
  unfolding IsValidTcpSegment_def
  using assms by (intro sat_wp SendEmptyPacket_rel [where c = c, THEN sat_mono]) simp_all

lemma DoClose_rel:
  assumes "app_ok rel app" "rel c (core s)"
  shows "sat (DoClose app s) (\<lambda>t. rel c (core t))"
proof (cases "sk_state s")
  case SYN_RCVD
  then show ?thesis
    unfolding DoClose_def
    using assms by (simp, intro SendEmptyPacket_fin [where c = c, THEN sat_mono]) (auto intro: to_state)
next
  case ESTABLISHED
  then show ?thesis
    unfolding DoClose_def
    using assms by (simp, intro SendEmptyPacket_fin [where c = c, THEN sat_mono]) (auto intro: to_state)
next
  case CLOSE_WAIT
  then show ?thesis
    unfolding DoClose_def
    using assms by (simp, intro SendEmptyPacket_fin [where c = c, THEN sat_mono]) (auto intro: to_state)
next
  case SYN_SENT
  then show ?thesis
    unfolding DoClose_def
    using assms by (simp, intro SendRST_rel [where c = c, THEN sat_mono]) (auto intro: CloseAndNotify_rel)
next
  case CLOSING
  then show ?thesis
    unfolding DoClose_def
    using assms by (simp, intro SendRST_rel [where c = c, THEN sat_mono]) (auto intro: CloseAndNotify_rel)
qed (use assms in \<open>simp_all add: DoClose_def CloseAndNotify_rel\<close>)

lemma SockClose_rel:
  assumes "app_ok rel app" "rel c (core s)"
  shows "sat (SockClose app s) (\<lambda>t. rel c (core t))"
  unfolding SockClose_def
  using assms by (intro sat_wp SendRST_rel [where c = c, THEN sat_mono] DoClose_rel [where c = c, THEN sat_mono]) simp_all

lemma ShutdownSend_rel:
  assumes "app_ok rel app" "rel c (core s)"
  shows "sat (ShutdownSend app s) (\<lambda>t. rel c (core t))"
  unfolding ShutdownSend_def
  using assms by (intro sat_wp SendEmptyPacket_fin [where c = c, THEN sat_mono]) (auto intro: to_state)

lemma DoPeerClose_rel:
  assumes "app_ok rel app" "rel c (core s)"
  shows "sat (DoPeerClose app s) (\<lambda>t. rel c (core t))"
proof (cases "sk_state s \<in> {ESTABLISHED, SYN_RCVD, FIN_WAIT_1, FIN_WAIT_2}")
  case True
  then have "rel c (core (s\<lparr>sk_state := CLOSE_WAIT\<rparr>))"
    using to_state [OF assms(2), of CLOSE_WAIT] by auto
  then show ?thesis
    unfolding DoPeerClose_def
    using assms by (intro sat_wp SockClose_rel [where c = c, THEN sat_mono]
        SendEmptyPacket_rel [where c = c, THEN sat_mono]) (simp_all add: told)
qed (simp add: DoPeerClose_def)

lemma ack_or_delay_rel:
  assumes "app_ok rel app" "rel c (core s)"
  shows "sat (ack_or_delay app q p s) (\<lambda>t. rel c (core t))"
  unfolding ack_or_delay_def
  using assms by (intro sat_wp part_sat send_ack_rel [where c = c, THEN sat_mono]) simp_all

lemma ReceivedData_rel:
  assumes "app_ok rel app" "rel c (core s)"
  shows "sat (ReceivedData app p h s) (\<lambda>t. rel c (core t))"
  unfolding ReceivedData_def
  using assms by (intro sat_wp part_sat value_sat send_ack_rel [where c = c, THEN sat_mono]
      ack_or_delay_rel [where c = c, THEN sat_mono] DoPeerClose_rel [where c = c, THEN sat_mono])
    (simp_all add: told)

lemma PeerClose_rel:
  assumes "app_ok rel app" "rel c (core s)"
  shows "sat (PeerClose app p h s) (\<lambda>t. rel c (core t))"
  unfolding PeerClose_def
  using assms by (intro sat_wp DoPeerClose_rel [where c = c, THEN sat_mono]
      ReceivedData_rel [where c = c, THEN sat_mono]) (auto intro: to_state)

lemma enter_fin_rel: "rel c (core s) \<Longrightarrow> rel c (core (enter_fin s))"
  by (auto simp: enter_fin_def intro: to_state)

lemma hand_down_rel: "rel c (core s) \<Longrightarrow> rel c (core (hand_down q r p h ep s))"
  by (simp add: hand_down_def Let_def sent)

lemma SendDataPacket_rel:
  assumes "rel c (core s)"
  shows "sat (SendDataPacket q n b s) (\<lambda>x. rel c (core (snd x)))"
  unfolding SendDataPacket_def
  using assms by (intro sat_wp part_sat) (simp_all add: hand_down_rel enter_fin_rel rel_if)

lemma send_segment_rel:
  assumes "app_ok rel app" "rel c (core s)"
  shows "sat (send_segment app b w s) (\<lambda>x. rel c (core (snd x)))"
  unfolding send_segment_def
  using assms by (intro sat_wp part_sat SendDataPacket_rel [where c = c, THEN sat_mono]) (simp_all add: told)

lemma send_loop_rel:
  assumes "app_ok rel app" "rel c (core s)"
  shows "sat (send_loop fuel app b w n s) (\<lambda>x. rel c (core (snd x)))"
  using assms(2)
proof (induction fuel arbitrary: w n s)
  case 0
  then show ?case
    by (subst send_loop.simps) simp
next
  case (Suc fuel)
  show ?case
    using Suc.prems assms(1)
    by (subst send_loop.simps, intro sat_wp part_sat send_segment_rel [where c = c, THEN sat_mono])
      (simp_all add: Suc.IH)
qed

lemma SendPendingData_rel:
  assumes "app_ok rel app" "rel c (core s)"
  shows "sat (SendPendingData app b s) (\<lambda>x. rel c (core (snd x)))"
  unfolding SendPendingData_def
  using assms by (intro sat_wp part_sat send_loop_rel [where c = c, THEN sat_mono]) simp_all

lemma send_pending_rel:
  assumes "app_ok rel app" "rel c (core s)"
  shows "sat (send_pending app b s) (\<lambda>t. rel c (core t))"
  unfolding send_pending_def
  using assms by (intro sat_wp SendPendingData_rel [where c = c, THEN sat_mono]) simp_all

lemma DoRetransmit_rel:
  assumes "rel c (core s)"
  shows "sat (DoRetransmit s) (\<lambda>t. rel c (core t))"
  unfolding DoRetransmit_def
  using assms by (intro sat_wp SendDataPacket_rel [where c = c, THEN sat_mono]) simp_all

lemma rto_loss_rel:
  assumes "app_ok rel app" "rel c (core s)"
  shows "sat (rto_loss app s) (\<lambda>t. rel c (core t))"
  unfolding rto_loss_def
  using assms by (intro sat_wp part_sat rto_prepare_keeps [THEN keeps_sat]
      send_pending_rel [where c = c, THEN sat_mono]) simp_all

lemma ReTxTimeout_rel:
  assumes "app_ok rel app" "rel c (core s)"
  shows "sat (ReTxTimeout app s) (\<lambda>t. rel c (core t))"
  unfolding ReTxTimeout_def
  using assms by (intro sat_wp SendEmptyPacket_rel [where c = c, THEN sat_mono]
      rto_loss_rel [where c = c, THEN sat_mono]) (simp_all add: told)

lemma LastAckTimeout_rel:
  assumes "app_ok rel app" "rel c (core s)"
  shows "sat (LastAckTimeout app s) (\<lambda>t. rel c (core t))"
  unfolding LastAckTimeout_def
  using assms by (intro sat_wp SendEmptyPacket_rel [where c = c, THEN sat_mono]) (simp_all add: told)

lemma PersistTimeout_rel:
  assumes "rel c (core s)"
  shows "sat (PersistTimeout s) (\<lambda>t. rel c (core t))"
  unfolding PersistTimeout_def
  using assms by (intro sat_wp part_sat value_sat) (simp_all add: sent)

lemma SockSendCall_rel:
  assumes "rel c (core s)"
  shows "sat (SockSendCall p s) (\<lambda>x. rel c (core (snd x)))"
  unfolding SockSendCall_def
  using assms by (intro sat_wp part_sat) simp_all

lemma Recv_rel:
  assumes "rel c (core s)"
  shows "sat (Recv n s) (\<lambda>x. rel c (core (snd x)))"
  unfolding Recv_def
  using assms by (intro sat_wp value_sat) simp_all

lemma EnterCwr_rel:
  assumes "rel c (core s)"
  shows "sat (EnterCwr n s) (\<lambda>t. rel c (core t))"
  unfolding EnterCwr_def
  using assms by (intro sat_wp part_sat) simp_all

lemma EnterRecovery_rel:
  assumes "rel c (core s)"
  shows "sat (EnterRecovery n s) (\<lambda>t. rel c (core t))"
  unfolding EnterRecovery_def
  using assms by (intro sat_wp part_sat DoRetransmit_rel [where c = c, THEN sat_mono]) simp_all

lemma dupack_disorder_rel:
  assumes "rel c (core s)"
  shows "sat (dupack_disorder n s) (\<lambda>t. rel c (core t))"
  unfolding dupack_disorder_def Let_def
  using assms by (intro sat_wp value_sat EnterRecovery_rel [where c = c, THEN sat_mono]) simp_all

lemma DupAck_rel:
  assumes "rel c (core s)"
  shows "sat (DupAck n s) (\<lambda>t. rel c (core t))"
  unfolding DupAck_def
  using assms by (intro sat_wp part_sat value_sat dupack_disorder_rel [where c = c, THEN sat_mono]) simp_all

end

end
