(* ===== verification/SockSteps.thy ===== *)
theory SockSteps
  imports SockFrame "HOL-Library.Sublist"
begin

text \<open>
  The acknowledgement and segment handlers against the contract \<open>core_preorder\<close>, the step
  relation of a connection, and the two readings of the contract: the connection state
  machine and the growth of the output.
\<close>

subsection \<open>Options\<close>

lemma option_keeps:
  "keeps (ProcessOptionWScale op s) (\<lambda>t. t) s" "keeps (ProcessOptionSackPermitted op s) (\<lambda>t. t) s"
  "keeps (ProcessOptionTimestamp op q s) (\<lambda>t. t) s" "keeps (ProcessOptionCongestionWindow op s) (\<lambda>t. t) s"
  by (auto simp: keeps_def ProcessOptionWScale_def ProcessOptionSackPermitted_def ProcessOptionTimestamp_def
      ProcessOptionCongestionWindow_def Let_def split: TcpOption.splits)

lemma syn_option_keeps:
  "(\<And>op. keeps (process op s) (\<lambda>t. t) s) \<Longrightarrow> core (off s) = core s
    \<Longrightarrow> keeps (syn_option k h b process off s) (\<lambda>t. t) s"
  by (auto simp: keeps_def syn_option_def split: option.splits)

lemma forward_syn_keeps: "keeps (forward_syn h s) (\<lambda>t. t) s"
  unfolding forward_syn_def keeps_def
  by (intro sat_wp syn_option_keeps [THEN keeps_sat] part_sat option_keeps) (simp_all add: Let_def)

lemma forward_ack_keeps: "sat (forward_ack h s) (\<lambda>r. \<forall>t. r = Some t \<longrightarrow> core t = core s)"
  unfolding forward_ack_def
  by (intro sat_wp syn_option_keeps [THEN keeps_sat] part_sat option_keeps option_keeps [THEN keeps_sat]) simp_all

lemma forward_ce_core [simp]: "core (forward_ce e b q s) = core s"
  by (simp add: forward_ce_def)

subsection \<open>The steps of a connection\<close>

text \<open>
  What can happen to a socket whose connection is being opened: a segment arrives, a timer
  that is due expires, a call it scheduled itself runs, the application calls, or time
  passes.  \<open>TimeWait\<close> schedules \<open>CloseAndNotify\<close>.
\<close>

inductive sock_step :: "app \<Rightarrow> sock \<Rightarrow> sock \<Rightarrow> bool" for app :: app where
  segment: "ForwardUp app accept packet ecn fromAddress port toAddress s = Inr (forked, s') \<Longrightarrow> sock_step app s s'"
| segment6: "ForwardUp6 app accept packet ecn fromAddress port toAddress s = Inr (forked, s') \<Longrightarrow> sock_step app s s'"
| retx: "sk_retxEvent s = Some (t, action) \<Longrightarrow> t \<le> sk_now s \<Longrightarrow> fire_Retx app action s = Inr s' \<Longrightarrow> sock_step app s s'"
| last_ack: "sk_lastAckEvent s = Some t \<Longrightarrow> t \<le> sk_now s \<Longrightarrow> LastAckTimeout app s = Inr s' \<Longrightarrow> sock_step app s s'"
| del_ack: "sk_delAckEvent s = Some t \<Longrightarrow> t \<le> sk_now s \<Longrightarrow> fire_DelAck app s = Inr s' \<Longrightarrow> sock_step app s s'"
| persist: "sk_persistEvent s = Some t \<Longrightarrow> t \<le> sk_now s \<Longrightarrow> fire_Persist s = Inr s' \<Longrightarrow> sock_step app s s'"
| pacing: "sk_pacingTimer s = Some t \<Longrightarrow> t \<le> sk_now s \<Longrightarrow> fire_Pacing app s = Inr s' \<Longrightarrow> sock_step app s s'"
| pending: "sk_sendPendingDataEvent s = Some t \<Longrightarrow> t \<le> sk_now s
    \<Longrightarrow> fire_SendPending app withAck s = Inr s' \<Longrightarrow> sock_step app s s'"
| time_wait: "sk_timewaitEvent s = Some t \<Longrightarrow> t \<le> sk_now s
    \<Longrightarrow> sock_step app s (CloseAndNotify app (s\<lparr>sk_timewaitEvent := None\<rparr>))"
| data_sent: "sk_later s = LaterDataSent n # rest \<Longrightarrow> sock_step app s (app (NotifyDataSent n) (s\<lparr>sk_later := rest\<rparr>))"
| succeeded: "sk_later s = LaterConnectionSucceeded # rest
    \<Longrightarrow> sock_step app s (ConnectionSucceeded app (s\<lparr>sk_later := rest\<rparr>))"
| call_send: "SockSendCall p s = Inr (r, s') \<Longrightarrow> sock_step app s s'"
| call_recv: "Recv n s = Inr (q, s') \<Longrightarrow> sock_step app s s'"
| call_close: "SockClose app s = Inr s' \<Longrightarrow> sock_step app s s'"
| call_shutdown_send: "ShutdownSend app s = Inr s' \<Longrightarrow> sock_step app s s'"
| call_shutdown_recv: "sock_step app s (ShutdownRecv s)"
| wait: "sk_now s \<le> t \<Longrightarrow> sock_step app s (s\<lparr>sk_now := t\<rparr>)"

definition sock_steps :: "app \<Rightarrow> sock \<Rightarrow> sock \<Rightarrow> bool" where
  "sock_steps app = (sock_step app)\<^sup>*\<^sup>*"

subsection \<open>Handlers\<close>

context core_preorder
begin

lemma partial_ack_rel:
  assumes "app_ok rel app" "rel c (core s)"
  shows "sat (partial_ack app a n k b s) (\<lambda>t. rel c (core t))"
  unfolding partial_ack_def
  using assms by (intro sat_wp part_sat DoRetransmit_rel [where c = c, THEN sat_mono]) (simp_all add: NewAck_rel rel_if)

lemma leave_state_keeps: "keeps (leave_state a q n d b s) (\<lambda>x. snd (snd x)) s"
  unfolding keeps_def leave_state_def Let_def
  by (cases "m_congState (sk_tcb s)") (simp_all, (intro sat_wp value_sat part_sat impI conjI, simp_all)+)

lemma full_ack_rel:
  assumes "app_ok rel app" "rel c (core s)"
  shows "sat (full_ack app a q n d b s) (\<lambda>t. rel c (core t))"
  unfolding full_ack_def
  using assms by (intro sat_wp part_sat leave_state_keeps [THEN keeps_sat]) (simp_all add: NewAck_rel rel_if)

lemma advance_ack_rel:
  assumes "app_ok rel app" "rel c (core s)"
  shows "sat (advance_ack app a q n d b s) (\<lambda>t. rel c (core t))"
  unfolding advance_ack_def
  using assms by (intro sat_wp part_sat partial_ack_rel [where c = c, THEN sat_mono]
      full_ack_rel [where c = c, THEN sat_mono]) (simp_all add: NewAck_rel rel_if)

lemma ProcessAck_rel:
  assumes "app_ok rel app" "rel c (core s)"
  shows "sat (ProcessAck app a b n q s) (\<lambda>t. rel c (core t))"
  unfolding ProcessAck_def
  using assms by (intro sat_wp part_sat DupAck_rel [where c = c, THEN sat_mono]
      advance_ack_rel [where c = c, THEN sat_mono]) simp_all

lemma ecn_ack_rel:
  assumes "rel c (core s)"
  shows "sat (ecn_ack a q f n s) (\<lambda>t. rel c (core t))"
  unfolding ecn_ack_def
  using assms by (intro sat_wp EnterCwr_rel [where c = c, THEN sat_mono]) simp_all

lemma ReceivedAck_rel:
  assumes "app_ok rel app" "rel c (core s)"
  shows "sat (ReceivedAck app p h s) (\<lambda>t. rel c (core t))"
  unfolding ReceivedAck_def ReadOptions_def
  using assms by (intro sat_wp part_sat value_sat ReceivedData_rel [where c = c, THEN sat_mono]
      ecn_ack_rel [where c = c, THEN sat_mono] ProcessAck_rel [where c = c, THEN sat_mono]
      send_pending_rel [where c = c, THEN sat_mono])
    (auto intro!: ReceivedData_rel [where c = c, THEN sat_mono] send_pending_rel [where c = c])

lemma reset_and_close_rel:
  assumes "app_ok rel app" "rel c (core s)"
  shows "sat (reset_and_close app b s) (\<lambda>t. rel c (core t))"
  unfolding reset_and_close_def
  using assms by (intro sat_wp SendRST_rel [where c = c, THEN sat_mono]) (simp_all add: CloseAndNotify_rel)

lemma ProcessEstablished_rel:
  assumes "app_ok rel app" "rel c (core s)"
  shows "sat (ProcessEstablished app p h s) (\<lambda>t. rel c (core t))"
  unfolding ProcessEstablished_def
  using assms by (intro sat_wp send_ack_rel [where c = c, THEN sat_mono] ReceivedAck_rel [where c = c, THEN sat_mono]
      PeerClose_rel [where c = c, THEN sat_mono] ReceivedData_rel [where c = c, THEN sat_mono]
      reset_and_close_rel [where c = c, THEN sat_mono]) simp_all

lemma reply_syn_rel:
  assumes "app_ok rel app" "rel c (core s)"
  shows "sat (reply_syn app f s) (\<lambda>t. rel c (core t))"
  unfolding reply_syn_def
  using assms by (intro sat_wp SendEmptyPacket_rel [where c = c, THEN sat_mono]) simp_all

lemma establish_rel:
  "rel c (core s) \<Longrightarrow> sk_state s = SYN_SENT \<or> sk_state s = SYN_RCVD \<Longrightarrow> rel c (core (establish s))"
  by (auto simp: establish_def intro: to_state)

lemma ProcessSynSent_rel:
  assumes "app_ok rel app" "rel c (core s)" "sk_state s = SYN_SENT"
  shows "sat (ProcessSynSent app p h s) (\<lambda>t. rel c (core t))"
proof -
  have e: "rel c (core (establish s))"
    by (simp add: establish_rel assms)
  have r: "rel c (SYN_RCVD, snd (core s))"
    using to_state [OF assms(2), of SYN_RCVD] assms(3) by simp
  show ?thesis
    unfolding ProcessSynSent_def
    using assms e r
    by (intro sat_wp part_sat ReceivedData_rel [where c = c, THEN sat_mono]
        reply_syn_rel [where c = c, THEN sat_mono] SendEmptyPacket_rel [where c = c, THEN sat_mono]
        send_pending_rel [where c = c, THEN sat_mono] UpdatePacingRate_keeps [THEN keeps_sat]
        reset_and_close_rel [where c = c, THEN sat_mono]) (simp_all add: told)
qed

lemma ProcessSynRcvd_rel:
  assumes "app_ok rel app" "rel c (core s)" "sk_state s = SYN_RCVD"
  shows "sat (ProcessSynRcvd app p h a q s) (\<lambda>t. rel c (core t))"
proof -
  have e: "rel c (core (establish s))"
    by (simp add: establish_rel assms)
  show ?thesis
    unfolding ProcessSynRcvd_def
    using assms e
    by (intro sat_wp part_sat ReceivedAck_rel [where c = c, THEN sat_mono]
        reply_syn_rel [where c = c, THEN sat_mono] PeerClose_rel [where c = c, THEN sat_mono]
        reset_and_close_rel [where c = c, THEN sat_mono]) (simp_all add: told notify_room_rel)
qed

lemma wait_finished_rel:
  assumes "app_ok rel app" "rel c (core s)"
  shows "sat (wait_finished app h s) (\<lambda>t. rel c (core t))"
proof -
  have "rel c (CLOSING, snd (core s))" if "sk_state s = FIN_WAIT_1"
    using to_state [OF assms(2), of CLOSING] that by simp
  then show ?thesis
    unfolding wait_finished_def
    using assms
    by (intro sat_wp TimeWait_rel [where c = c, THEN sat_mono] SendEmptyPacket_rel [where c = c, THEN sat_mono])
      (auto simp add: told)
qed

lemma ProcessWait_rel:
  assumes "app_ok rel app" "rel c (core s)"
  shows "sat (ProcessWait app p h s) (\<lambda>t. rel c (core t))"
  unfolding ProcessWait_def
  using assms by (intro sat_wp ReceivedData_rel [where c = c, THEN sat_mono] ReceivedAck_rel [where c = c, THEN sat_mono]
      wait_finished_rel [where c = c, THEN sat_mono] reset_and_close_rel [where c = c, THEN sat_mono])
    (auto intro!: rel_if to_state)

lemma ProcessClosing_rel:
  assumes "app_ok rel app" "rel c (core s)" "sk_state s = CLOSING"
  shows "sat (ProcessClosing app p h s) (\<lambda>t. rel c (core t))"
  unfolding ProcessClosing_def
  using assms by (intro sat_wp TimeWait_rel [where c = c, THEN sat_mono] SendEmptyPacket_rel [where c = c, THEN sat_mono]
      reset_and_close_rel [where c = c, THEN sat_mono]) (simp_all add: CloseAndNotify_rel)

lemma ProcessLastAck_rel:
  assumes "app_ok rel app" "rel c (core s)"
  shows "sat (ProcessLastAck app p h s) (\<lambda>t. rel c (core t))"
  unfolding ProcessLastAck_def
  using assms by (intro sat_wp ReceivedData_rel [where c = c, THEN sat_mono] SendEmptyPacket_rel [where c = c, THEN sat_mono]
      reset_and_close_rel [where c = c, THEN sat_mono]) (simp_all add: CloseAndNotify_rel)

lemma forward_closed_rel:
  assumes "rel c (core s)"
  shows "sat (forward_closed h a p b q s) (\<lambda>t. rel c (core t))"
  unfolding forward_closed_def
  using assms by (intro sat_wp part_sat) (simp_all add: sent)

lemma forward_state_rel:
  assumes "app_ok rel app" "rel c (core s)"
  shows "sat (forward_state app p h a q b r s) (\<lambda>t. rel c (core t))"
  using assms by (cases "sk_state s") (simp_all add: forward_state_def forward_closed_rel ProcessEstablished_rel
      ProcessSynSent_rel ProcessSynRcvd_rel ProcessWait_rel ProcessClosing_rel ProcessLastAck_rel)

lemma forward_unpersist_rel:
  assumes "app_ok rel app" "rel c (core s)"
  shows "sat (forward_unpersist app s) (\<lambda>t. rel c (core t))"
  unfolding forward_unpersist_def
  using assms by (intro sat_wp send_pending_rel [where c = c, THEN sat_mono]) simp_all

lemma DoForwardUp_rel:
  assumes "app_ok rel app" "rel c (core s)"
  shows "sat (DoForwardUp app accept p h a q b r s) (\<lambda>x. rel c (core (snd x)))"
  unfolding DoForwardUp_def
  using assms
  by (intro sat_wp forward_syn_keeps [THEN keeps_sat] forward_ack_keeps [THEN sat_mono]
      forward_state_rel [where c = c, THEN sat_mono] forward_unpersist_rel [where c = c, THEN sat_mono]) auto

lemma forward_up_rel:
  assumes "app_ok rel app" "rel c (core s)"
  shows "sat (forward_up noCe app accept p e a q b r s) (\<lambda>x. rel c (core (snd x)))"
  unfolding forward_up_def
  using assms
  by (intro sat_wp sat_any [of _ "Deserialize p new_TcpHeader"] IsValidTcpSegment_rel [where c = c, THEN sat_mono]
      DoForwardUp_rel [where c = c, THEN sat_mono]) simp_all

lemma ForwardUp_rel:
  assumes "app_ok rel app" "rel c (core s)"
  shows "sat (ForwardUp app accept p e a q b s) (\<lambda>x. rel c (core (snd x)))"
  unfolding ForwardUp_def
  using assms by (intro sat_wp forward_up_rel) simp_all

lemma ForwardUp6_rel:
  assumes "app_ok rel app" "rel c (core s)"
  shows "sat (ForwardUp6 app accept p e a q b s) (\<lambda>x. rel c (core (snd x)))"
  unfolding ForwardUp6_def
  using assms by (intro sat_wp forward_up_rel) simp_all

lemma fire_rel:
  assumes "app_ok rel app" "rel c (core s)"
  shows "sat (fire_Retx app act s) (\<lambda>t. rel c (core t))" "sat (fire_Persist s) (\<lambda>u. rel c (core u))"
    "sat (fire_Pacing app s) (\<lambda>v. rel c (core v))" "sat (fire_SendPending app b s) (\<lambda>w. rel c (core w))"
    "sat (fire_DelAck app s) (\<lambda>x. rel c (core x))"
  using assms
  by (simp_all add: fire_Retx_def fire_Persist_def fire_Pacing_def fire_SendPending_def fire_DelAck_def
      ReTxTimeout_rel SendEmptyPacket_rel PersistTimeout_rel send_pending_rel DelAckTimeout_rel Let_def
      split: retx_action.split)

end

locale timed_core_preorder = core_preorder +
  assumes wait: "n \<le> k \<Longrightarrow> rel (a, l, n) (a, l, k)"
begin

lemma sock_step_rel:
  assumes "sock_step app s s'" "app_ok rel app"
  shows "rel (core s) (core s')"
  using assms(1)
proof cases
  case (segment accept packet ecn fromAddress port toAddress forked)
  then show ?thesis
    using satD [OF ForwardUp_rel [OF assms(2) refl]] by fastforce
next
  case (segment6 accept packet ecn fromAddress port toAddress forked)
  then show ?thesis
    using satD [OF ForwardUp6_rel [OF assms(2) refl]] by fastforce
next
  case (call_send p r)
  then show ?thesis
    using satD [OF SockSendCall_rel [OF refl]] by fastforce
next
  case (call_recv n q)
  then show ?thesis
    using satD [OF Recv_rel [OF refl]] by fastforce
next
  case (wait t)
  then show ?thesis
    by (simp add: core_def timed_core_preorder.wait [OF timed_core_preorder_axioms])
next
  case (time_wait t)
  then show ?thesis
    by (simp add: CloseAndNotify_rel assms(2) refl)
next
  case (data_sent n rest)
  then show ?thesis
    by (simp add: told assms(2) refl)
next
  case (succeeded rest)
  then show ?thesis
    by (simp add: ConnectionSucceeded_def notify_room_rel told assms(2) refl)
qed (auto intro: satD [OF fire_rel(1) [OF assms(2) refl]] satD [OF LastAckTimeout_rel [OF assms(2) refl]]
      satD [OF fire_rel(5) [OF assms(2) refl]] satD [OF fire_rel(2) [OF assms(2) refl]]
      satD [OF fire_rel(3) [OF assms(2) refl]] satD [OF fire_rel(4) [OF assms(2) refl]]
      satD [OF SockClose_rel [OF assms(2) refl]] satD [OF ShutdownSend_rel [OF assms(2) refl]]
      refl)

lemma sock_steps_rel:
  assumes "sock_steps app s s'" "app_ok rel app"
  shows "rel (core s) (core s')"
  using assms(1) unfolding sock_steps_def
  by (induction rule: rtranclp_induct) (auto intro: refl trans sock_step_rel [OF _ assms(2)])

end

subsection \<open>The connection state machine and the output\<close>

definition state_order :: "core \<Rightarrow> core \<Rightarrow> bool" where
  "state_order c d \<longleftrightarrow> st_step\<^sup>*\<^sup>* (fst c) (fst d)"

definition output_order :: "core \<Rightarrow> core \<Rightarrow> bool" where
  "output_order c d \<longleftrightarrow> prefix (fst (snd c)) (fst (snd d)) \<and> snd (snd c) \<le> snd (snd d)"

lemma later_states_trans: "b \<in> later_states a \<Longrightarrow> d \<in> later_states b \<Longrightarrow> d \<in> later_states a"
  by (cases a) (auto simp: later_states_def Let_def)

lemma later_states_step: "st_step a b \<Longrightarrow> b \<in> later_states a"
  by (induction rule: st_step.induct) (auto simp: later_states_def Let_def split: TcpStates.split)

lemma later_states_refl: "a \<in> later_states a"
  by (cases a) (auto simp: later_states_def Let_def)

lemma later_states_steps: "st_step\<^sup>*\<^sup>* a b \<Longrightarrow> b \<in> later_states a"
  by (induction rule: rtranclp_induct) (auto intro: later_states_refl later_states_step later_states_trans)

interpretation machine: timed_core_preorder state_order
  by unfold_locales (auto simp: state_order_def)

interpretation growth: timed_core_preorder output_order
  by unfold_locales (auto simp: output_order_def intro: prefix_order.trans)

end
