(* ===== verification/TxResend.thy ===== *)
theory TxResend
  imports TxProps
begin

text \<open>
  How \<open>CopyFromSequence\<close> uses up the data that is to be sent or resent: the measure behind
  the termination of \<open>SendPendingData\<close>.
\<close>

subsection \<open>Bytes to be resent\<close>

text \<open>What the measure reads of an item.\<close>

definition shape :: "tx_item \<Rightarrow> nat \<times> bool \<times> bool \<times> bool" where
  "shape it = (ilen it, it_sacked it, it_lost it, it_retrans it)"

text \<open>
  The unSACKed bytes with the loss mark \<open>b\<close> from the first item that was not resent on.
\<close>

definition unsent_from :: "bool \<Rightarrow> tx_item list \<Rightarrow> nat" where
  "unsent_from b l = fbytes (\<lambda>it. \<not> it_sacked it)
    (dropWhile (\<lambda>it. it_sacked it \<or> it_retrans it) (filter (\<lambda>it. it_lost it = b) l))"

definition send_measure :: "tx_buffer \<Rightarrow> nat" where
  "send_measure tx = 2 * tbytes (tx_appList tx) + unsent_from True (tx_sentList tx)
    + unsent_from False (tx_sentList tx)"

lemma shape_iff:
  "shape a = shape b \<longleftrightarrow> ilen a = ilen b \<and> it_sacked a = it_sacked b \<and> it_lost a = it_lost b
    \<and> it_retrans a = it_retrans b"
  by (auto simp: shape_def)

lemma unsent_from_cong:
  "map shape l = map shape l' \<Longrightarrow> unsent_from b l = unsent_from b l'"
proof (induction l arbitrary: l')
  case (Cons x l)
  then obtain y m where y: "l' = y # m" "shape x = shape y" "map shape l = map shape m"
    by auto
  have "fbytes P (filter Q l) = fbytes P (filter Q m)"
    if "\<And>a b. shape a = shape b \<Longrightarrow> P a = P b \<and> Q a = Q b" for P Q
    using y(3)
  proof (induction l arbitrary: m)
    case (Cons x l)
    then obtain y m' where "m = y # m'" "shape x = shape y" "map shape l = map shape m'"
      by auto
    with Cons.IH [of m'] that [of x y] show ?case
      by (auto simp: shape_iff)
  qed simp
  from this [of "\<lambda>it. \<not> it_sacked it" "\<lambda>it. it_lost it = b"]
  have "fbytes (\<lambda>it. \<not> it_sacked it) (filter (\<lambda>it. it_lost it = b) l)
      = fbytes (\<lambda>it. \<not> it_sacked it) (filter (\<lambda>it. it_lost it = b) m)"
    by (simp add: shape_iff)
  with y Cons.IH [OF y(3)] show ?case
    by (auto simp: unsent_from_def shape_iff)
qed simp

lemma shape_update_item:
  "find_item i l = Some x \<Longrightarrow> shape y = shape x \<Longrightarrow> map shape (update_item i (\<lambda>_. y) l) = map shape l"
  by (induction l) (auto split: if_splits)

lemma unsent_from_append: "(\<forall>it \<in> set pre. it_lost it = b \<longrightarrow> it_sacked it \<or> it_retrans it) \<Longrightarrow>
    unsent_from b (pre @ l) = unsent_from b l"
  by (induction pre) (auto simp: unsent_from_def)

lemma fbytes_dropWhile: "fbytes P (dropWhile Q l) \<le> fbytes P l"
  by (induction l) auto

lemma unsent_from_le: "unsent_from b l \<le> fbytes (\<lambda>it. it_lost it = b \<and> \<not> it_sacked it) l"
proof -
  have "fbytes (\<lambda>it. \<not> it_sacked it) (filter (\<lambda>it. it_lost it = b) l)
      = fbytes (\<lambda>it. it_lost it = b \<and> \<not> it_sacked it) l"
    by (simp add: fbytes_def conj_commute)
  then show ?thesis
    unfolding unsent_from_def by (metis fbytes_dropWhile)
qed

lemma fbytes_marks_eq:
  "marks l = marks l' \<Longrightarrow> fbytes (\<lambda>it. it_lost it = b \<and> \<not> it_sacked it) l
    = fbytes (\<lambda>it. it_lost it = b \<and> \<not> it_sacked it) l'"
proof -
  have "fbytes (\<lambda>it. it_lost it = b \<and> \<not> it_sacked it) k = length (filter (\<lambda>(sk, lo). lo = b \<and> \<not> sk) (marks k))" for k
    by (induction k) (auto simp: filter_replicate)
  then show "marks l = marks l' \<Longrightarrow> ?thesis" by simp
qed

text \<open>Resending an item with everything before it resent already decreases the measure.\<close>

lemma unsent_from_resend:
  assumes "marks (pre @ it # rest) = marks (pre @ cur # post)"
    and "it_lost it = it_lost cur" "it_sacked it = it_sacked cur" "it_retrans it" "0 < ilen it"
    and "\<not> it_sacked cur" "\<not> it_retrans cur"
    and "\<forall>x \<in> set pre. it_lost x = it_lost cur \<longrightarrow> it_sacked x \<or> it_retrans x"
  shows "unsent_from (it_lost cur) (pre @ it # rest) < unsent_from (it_lost cur) (pre @ cur # post)"
proof -
  let ?P = "\<lambda>x. it_lost x = it_lost cur \<and> \<not> it_sacked x"
  have "fbytes ?P (pre @ it # rest) = fbytes ?P (pre @ cur # post)"
    using assms(1) by (rule fbytes_marks_eq)
  then have *: "ilen it + fbytes ?P rest = ilen cur + fbytes ?P post"
    using assms(2,3,6) by simp
  have "unsent_from (it_lost cur) (pre @ it # rest) = unsent_from (it_lost cur) rest"
    using assms(2,4,8) by (simp add: unsent_from_append) (simp add: unsent_from_def)
  also have "\<dots> \<le> fbytes ?P rest"
    by (rule unsent_from_le)
  also have "\<dots> < ilen cur + fbytes ?P post"
    using * assms(5) by simp
  also have "\<dots> = unsent_from (it_lost cur) (pre @ cur # post)"
    using assms(6-8) by (simp add: unsent_from_append) (simp add: unsent_from_def fbytes_def conj_commute)
  finally show ?thesis .
qed

lemma unsent_from_other:
  assumes "filter (\<lambda>x. it_lost x \<noteq> it_lost cur) rest = filter (\<lambda>x. it_lost x \<noteq> it_lost cur) post"
    and "it_lost it = it_lost cur" "b \<noteq> it_lost cur"
  shows "unsent_from b (pre @ it # rest) = unsent_from b (pre @ cur # post)"
proof -
  have "(\<lambda>x. it_lost x = b) = (\<lambda>x. it_lost x \<noteq> it_lost cur)"
    using assms(3) by auto
  then show ?thesis
    using assms by (simp add: unsent_from_def)
qed

lemma unsent_from_new: "unsent_from b (l @ [it]) \<le> unsent_from b l + (if it_lost it = b then ilen it else 0)"
  by (induction l) (auto simp: unsent_from_def)

subsection \<open>Which item is resent\<close>

lemma GetPacketFromList_head:
  assumes "GetPacketFromList fuel isSent una (pre @ cur # post) ls n (seqof ls (tbytes pre)) r i = Inr (j, lst', r', i')"
    and "tbytes (pre @ cur # post) < 2 ^ 31" "list_all (\<lambda>it. it_packet it \<noteq> []) (pre @ cur # post)" "n \<noteq> 0"
    and "\<not> isSent \<or> (\<forall>it \<in> set (pre @ [cur]). seq_ge (it_startSeq it) una)"
  shows "\<exists>it rest. lst' = pre @ it # rest \<and> it_id it = j \<and> it_lost it = it_lost cur
    \<and> filter (\<lambda>x. it_lost x \<noteq> it_lost cur) rest = filter (\<lambda>x. it_lost x \<noteq> it_lost cur) post"
  using assms
proof (induction fuel arbitrary: cur post r i)
  case (Suc fuel)
  let ?s = "seqof ls (tbytes pre)"
  have cur: "0 < ilen cur" "ilen cur < 2 ^ 31" "tbytes pre + ilen cur < 2 ^ 31"
    using Suc.prems(2,3) by (simp_all add: ilen_def)
  have scan: "tx_scan isSent una ?s ls [] (pre @ cur # post) = Inr (Some (pre, cur, post, ?s))"
    using tx_scan_found [of pre cur isSent una ls 0 "[]" post] cur Suc.prems(3,5) by (simp add: seqof_def)
  show ?case
  proof (cases "seq_le (?s + n) (?s + isize cur)")
    case True
    show ?thesis
    proof (cases "n = isize cur")
      case True
      with \<open>seq_le _ _\<close> Suc.prems(1) scan show ?thesis
        by (intro exI [of _ cur] exI [of _ post]) simp
    next
      case False
      then have "n < isize cur" "\<exists>a b. SplitItems i cur n = Inr (a, b) \<and> j = i \<and> lst' = pre @ [a, b] @ post"
        using True Suc.prems(1) scan by (auto simp: bindE_Inr split: if_splits)
      then obtain a b where ab: "SplitItems i cur n = Inr (a, b)" "j = i" "lst' = pre @ [a, b] @ post"
        by blast
      from SplitItems_Inr [OF ab(1)] cur(2) ab(2,3) show ?thesis
        by (intro exI [of _ a] exI [of _ "b # post"]) simp
    qed
  next
    case False
    show ?thesis
    proof (cases post)
      case Nil
      with False Suc.prems(1) scan show ?thesis
        by (intro exI [of _ cur] exI [of _ post]) simp
    next
      case (Cons nxt rest)
      with False Suc.prems(1) scan obtain t r1 where t: "MergeItems cur nxt r = Inr (t, r1)"
        "GetPacketFromList fuel isSent una (pre @ t # rest) ls n ?s r1 i = Inr (j, lst', r', i')"
        by (auto simp: bindE_Inr)
      note m = relist_merge [OF t(1)]
      have f: "it_lost cur = it_lost nxt" "it_startSeq t = it_startSeq cur" "it_packet t = it_packet cur @ it_packet nxt"
        using t(1) by (auto simp: MergeItems_def ns_assert_Inr Let_def split: if_splits prod.splits)
      have "\<exists>it rest'. lst' = pre @ it # rest' \<and> it_id it = j \<and> it_lost it = it_lost t
        \<and> filter (\<lambda>x. it_lost x \<noteq> it_lost t) rest' = filter (\<lambda>x. it_lost x \<noteq> it_lost t) rest"
        using Suc.prems(2-5) m f Cons by (intro Suc.IH [OF t(2)]) auto
      then show ?thesis
        using m(5) f(1) Cons by auto
    qed
  qed
qed simp

lemma GetTransmittedSegment_head:
  assumes "tx_wf tx" "tx_sentList tx = pre @ cur # post" "\<not> it_sacked cur" "n \<noteq> 0"
    and "GetTransmittedSegment n (seqof (tx_firstByteSeq tx) (tbytes pre)) tx = Inr (item, tx')"
  shows "tx_wf tx' \<and> marks (tx_sentList tx') = marks (tx_sentList tx) \<and> tx_appList tx' = tx_appList tx
    \<and> payload (tx_sentList tx') = payload (tx_sentList tx)
    \<and> tx_firstByteSeq tx' = tx_firstByteSeq tx \<and> it_retrans item \<and> \<not> it_sacked item \<and> 0 < ilen item
    \<and> ilen item \<le> unat n
    \<and> (\<exists>rest. tx_sentList tx' = pre @ item # rest \<and> it_lost item = it_lost cur
      \<and> filter (\<lambda>x. it_lost x \<noteq> it_lost cur) rest = filter (\<lambda>x. it_lost x \<noteq> it_lost cur) post)"
proof -
  let ?una = "tx_firstByteSeq tx" and ?sent = "tx_sentList tx"
  let ?s = "seqof ?una (tbytes pre)"
  note w = tx_wfD [OF assms(1)]
  have ne: "list_all (\<lambda>it. it_packet it \<noteq> []) ?sent"
    using w(1) by (rule item_ok_nonempty)
  have "n \<le> tx_sentSize tx"
    using assms(5) by (auto simp: GetTransmittedSegment_def ns_assert_Inr)
  then have n: "0 < unat n" "unat n \<le> tbytes ?sent"
    using assms(4) w(7,9) by (auto simp: word_le_nat_alt unat_gt_0)
  from GetTransmittedSegment_ok [OF assms(1-3) n] assms(5) obtain sent' r' i' where g:
    "tx' = tx\<lparr>tx_sentList := sent', tx_retrans := r', tx_nextId := i'\<rparr>" "it_retrans item" "\<not> it_sacked item"
    "ilen item = min (unat n) (rtx_limit cur post)" "marks sent' = marks ?sent" "tx_wf tx'"
    "payload sent' = payload ?sent"
    by auto
  have len: "0 < ilen item"
    using g(4) n(1) ne assms(2) by (auto simp: rtx_limit_def ilen_def split: list.split)
  from assms(5) obtain j lst r1 i1 it where l:
    "GetPacketFromList (list_fuel ?sent) True ?una ?sent ?una (retransmit_size ?s n ?sent) ?s (tx_retrans tx) (tx_nextId tx)
      = Inr (j, lst, r1, i1)" "find_item j lst = Some it" "item = it\<lparr>it_retrans := True\<rparr>"
    "tx_sentList tx' = update_item j (\<lambda>_. item) lst"
    by (auto simp: GetTransmittedSegment_def ns_assert_Inr bindE_Inr Let_def split: option.splits)
  have rs: "retransmit_size ?s n ?sent \<noteq> 0"
  proof -
    have "it_startSeq cur = ?s" "tbytes ?sent < 2 ^ 31"
      using w(3,9) assms(2) by (simp_all add: seqof_def)
    moreover have "\<forall>it \<in> set pre. it_startSeq it \<noteq> ?s"
      using contig_starts [of ?una pre cur post] w(3) assms(2) calculation(2) ne by auto
    ultimately have "retransmit_size ?s (of_nat (unat n)) ?sent = of_nat (min (unat n) (rtx_limit cur post))"
      using retransmit_size_eq [of pre ?s cur post "unat n"] assms(2) n(2) by simp
    then have "unat (retransmit_size ?s n ?sent) = ilen item"
      using g(4) n(2) \<open>tbytes ?sent < 2 ^ 31\<close> by simp
    with len show ?thesis by auto
  qed
  have st: "\<forall>it \<in> set (pre @ [cur]). seq_ge (it_startSeq it) ?una"
    using contig_start_ge [OF w(3)] w(9) assms(2) by simp
  have "tbytes (pre @ cur # post) < 2 ^ 31"
    using w(9) assms(2) by simp
  from GetPacketFromList_head [OF l(1) [unfolded assms(2)] this ne [unfolded assms(2)] rs [unfolded assms(2)]] st
  obtain x rest where x: "lst = pre @ x # rest" "it_id x = j" "it_lost x = it_lost cur"
    "filter (\<lambda>x. it_lost x \<noteq> it_lost cur) rest = filter (\<lambda>x. it_lost x \<noteq> it_lost cur) post"
    by blast
  have "relist ?sent (tx_retrans tx) (tx_nextId tx) lst r1 i1"
    using GetPacketFromList_spec [OF l(1) rs] w(9) by simp
  then have "ids_ok i1 lst"
    using relistD(9) w(10) by blast
  then have nid: "it_id x \<notin> it_id ` set pre"
    unfolding x(1) by auto
  have "it = x"
    using l(2) find_item_split [OF nid, of rest] by (simp flip: x(2) add: x(1))
  moreover have "tx_sentList tx' = pre @ item # rest"
    unfolding l(4) x(1) x(2) [symmetric] by (rule update_item_split [OF nid])
  ultimately show ?thesis
    using g len x(3,4) l(3) by simp
qed

lemma copy_resend:
  assumes "tx_wf tx" "tx_sentList tx = pre @ cur # post" "\<not> it_sacked cur" "N \<noteq> 0"
    and "copy_from_sequence f now N (seqof (tx_firstByteSeq tx) (tbytes pre)) tx = Inr (out, tx')"
  shows "\<exists>item rest. out = Some item \<and> tx_sentList tx' = pre @ item # rest
    \<and> tx_wf tx' \<and> marks (tx_sentList tx') = marks (tx_sentList tx) \<and> tx_appList tx' = tx_appList tx
    \<and> payload (tx_sentList tx') = payload (tx_sentList tx)
    \<and> tx_firstByteSeq tx' = tx_firstByteSeq tx \<and> it_retrans item \<and> \<not> it_sacked item \<and> 0 < ilen item
    \<and> ilen item \<le> unat N \<and> it_lost item = it_lost cur
    \<and> filter (\<lambda>x. it_lost x \<noteq> it_lost cur) rest = filter (\<lambda>x. it_lost x \<noteq> it_lost cur) post"
  using assms(4,5)
proof (induction f arbitrary: N)
  case (Suc f)
  let ?una = "tx_firstByteSeq tx" and ?k = "tbytes pre" and ?e = "tbytes (tx_sentList tx)"
  let ?s = "seqof ?una ?k" and ?T = "tbytes (tx_items tx)"
  note w = tx_wfD [OF assms(1)]
  have cur: "0 < ilen cur"
    using assms(2) item_ok_nonempty [OF w(1)] by (auto simp: ilen_def)
  have kT: "?k < ?e" "?e \<le> ?T" "?T < 2 ^ 31"
    using assms(2) cur w(9) by auto
  have se: "?una + tx_sentSize tx = seqof ?una ?e"
    using w(7) by (simp add: seqof_def)
  have le: "\<not> seq_le (seqof ?una ?e) ?s" "\<not> seq_gt ?una ?s"
    using kT seq_ord_seqof(1) [of ?e ?k ?una] seq_gt_seqof [of 0 ?k ?una] by (simp_all add: seqof_def)
  let ?z = "min N (SizeFromSequence ?s tx)"
  have z: "?z \<noteq> 0"
    using SizeFromSequence_seqof [OF assms(1), of ?k] kT Suc.prems(1) of_nat_eq_32 [of "?T - ?k" 0]
    by (auto simp: min_def simp del: of_nat_diff of_nat_eq_0_iff)
  show ?case
  proof (cases "seq_ge (seqof ?una ?e) (?s + ?z)")
    case True
    with Suc.prems(2) z le obtain it0 tx1 where g: "GetTransmittedSegment ?z ?s tx = Inr (it0, tx1)"
      "out = Some (it0\<lparr>it_lastSent := now\<rparr>)"
      "tx' = tx1\<lparr>tx_sentList := update_item (it_id it0) (\<lambda>_. it0\<lparr>it_lastSent := now\<rparr>) (tx_sentList tx1)\<rparr>"
      by (auto simp: Let_def se bindE_Inr ns_assert_Inr split: prod.splits)
    from GetTransmittedSegment_head [OF assms(1-3) z g(1)] obtain rest where h:
      "tx_wf tx1" "marks (tx_sentList tx1) = marks (tx_sentList tx)" "tx_appList tx1 = tx_appList tx"
      "payload (tx_sentList tx1) = payload (tx_sentList tx)" "tx_firstByteSeq tx1 = ?una" "it_retrans it0"
      "\<not> it_sacked it0" "0 < ilen it0" "ilen it0 \<le> unat ?z" "tx_sentList tx1 = pre @ it0 # rest" "it_lost it0 = it_lost cur"
      "filter (\<lambda>x. it_lost x \<noteq> it_lost cur) rest = filter (\<lambda>x. it_lost x \<noteq> it_lost cur) post"
      by blast
    have "it0 \<in> set (tx_sentList tx1)"
      using h(10) by simp
    note t = tx_touch [OF h(1) this g(3)]
    have "it_id it0 \<notin> it_id ` set pre"
      using tx_wfD(10) [OF h(1)] h(10) by auto
    then have "tx_sentList tx' = pre @ it0\<lparr>it_lastSent := now\<rparr> # rest"
      unfolding g(3) using h(10) update_item_split by simp
    moreover have "unat ?z \<le> unat N"
      by (simp add: min_def word_le_nat_alt)
    ultimately show ?thesis
      using t(1-3) h g(2) g(3) by (intro exI [of _ "it0\<lparr>it_lastSent := now\<rparr>"] exI [of _ rest]) simp
  next
    case False
    with Suc.prems(2) z le have raw: "seqof ?una ?e > ?s"
      "copy_from_sequence f now (seqof ?una ?e - ?s) ?s tx = Inr (out, tx')"
      by (auto simp: Let_def se split: if_splits)
    have d: "unat (seqof ?una ?e - ?s) = ?e - ?k"
      using kT by (intro unat_diff_seqof) auto
    have zk: "?s + ?z = seqof ?una (?k + unat ?z)"
      by (simp add: seqof_def)
    have "SizeFromSequence ?s tx = of_nat (?T - ?k)"
      using SizeFromSequence_seqof [OF assms(1), of ?k] kT by simp
    moreover have "?T - ?k < 2 ^ 32"
      using kT(3) by simp
    ultimately have "unat (SizeFromSequence ?s tx) = ?T - ?k"
      by (metis unat_of_nat_32)
    then have "unat ?z \<le> ?T - ?k"
      by (simp add: min_def word_le_nat_alt del: tx_items_simps)
    then have "?e < ?k + unat ?z + 2 ^ 31" "?k + unat ?z < ?e + 2 ^ 31"
      using kT by linarith+
    from seq_ord_seqof(3) [OF this, of ?una] False have "?e < ?k + unat ?z"
      unfolding zk by linarith
    moreover have "unat ?z \<le> unat N"
      by (simp add: min_def word_le_nat_alt)
    ultimately have shorter: "unat (seqof ?una ?e - ?s) \<le> unat N"
      unfolding d by simp
    from raw(1) have "seqof ?una ?e - ?s \<noteq> 0" by auto
    from Suc.IH [OF this raw(2)] show ?thesis
      using shorter by fastforce
  qed
qed simp

subsection \<open>The item NextSeg chooses\<close>

lemma next_seg_walk_set:
  "fst r3 \<noteq> 0 \<Longrightarrow> next_seg_walk isRec bgn l r3 = Inr r \<Longrightarrow> r = r3"
  by (induction l arbitrary: bgn) (auto split: if_splits)

lemma next_seg_walk_off: "next_seg_walk False bgn l (0, False) = Inr (q, v) \<Longrightarrow> \<not> v"
  by (induction l arbitrary: bgn) (auto split: if_splits)

text \<open>Rule 3 takes the first item that was not resent, when sequence number 0 is not in the list.\<close>

lemma next_seg_walk_first:
  assumes "next_seg_walk isRec bgn l (0, False) = Inr (q, True)"
    and "\<forall>k < tbytes l. bgn + of_nat k \<noteq> 0" "list_all (\<lambda>it. it_packet it \<noteq> []) l"
  shows "\<exists>pre it post. l = pre @ it # post \<and> q = bgn + of_nat (tbytes pre)
    \<and> \<not> it_lost it \<and> \<not> it_sacked it \<and> \<not> it_retrans it \<and> (\<forall>x \<in> set pre. it_sacked x \<or> it_retrans x)"
  using assms
proof (induction l arbitrary: bgn)
  case (Cons a l)
  show ?case
  proof (cases "it_retrans a \<or> it_sacked a")
    case True
    have "\<forall>k < tbytes l. bgn + isize a + of_nat k \<noteq> 0"
    proof (intro allI impI)
      fix k assume "k < tbytes l"
      then show "bgn + isize a + of_nat k \<noteq> 0"
        using Cons.prems(2) [rule_format, of "ilen a + k"] by (simp add: isize_ilen add.assoc)
    qed
    with Cons.IH [of "bgn + isize a"] Cons.prems(1,3) True obtain pre it post where
      "l = pre @ it # post" "q = bgn + isize a + of_nat (tbytes pre)" "\<not> it_lost it" "\<not> it_sacked it"
      "\<not> it_retrans it" "\<forall>x \<in> set pre. it_sacked x \<or> it_retrans x"
      by (auto split: if_splits)
    with True show ?thesis
      by (intro exI [of _ "a # pre"] exI [of _ it] exI [of _ post]) (auto simp: isize_ilen)
  next
    case False
    have "bgn \<noteq> 0"
      using Cons.prems(2) [rule_format, of 0] Cons.prems(3) by (simp add: ilen_def)
    with False Cons.prems(1) next_seg_walk_set [of "(bgn, True)" isRec "bgn + isize a" l "(q, True)"]
      next_seg_walk_Inr [of isRec "bgn + isize a" l "(0, False)" q]
    have "\<not> it_lost a" "isRec \<longrightarrow> q = bgn"
      by (auto split: if_splits)
    moreover have isRec
      using Cons.prems(1) next_seg_walk_off [of bgn "a # l" q True] by (cases isRec) auto
    ultimately show ?thesis
      using False by (intro exI [of _ "[]"] exI [of _ a] exI [of _ l]) simp
  qed
qed simp

lemma NextSeg_choice:
  assumes "tx_wf tx" "NextSeg rWnd isRec tx = Some (q, h)"
    and "0 < unat (tx_firstByteSeq tx)" "unat (tx_firstByteSeq tx) + tbytes (tx_items tx) \<le> 2 ^ 32"
  shows "(\<exists>pre it post. tx_sentList tx = pre @ it # post \<and> q = seqof (tx_firstByteSeq tx) (tbytes pre)
      \<and> \<not> it_sacked it \<and> \<not> it_retrans it
      \<and> (\<forall>x \<in> set pre. it_lost x = it_lost it \<longrightarrow> it_sacked x \<or> it_retrans x))
    \<or> (q = tx_firstByteSeq tx + tx_sentSize tx \<and> tx_appList tx \<noteq> [])"
proof (cases "next_seg_walk isRec (tx_firstByteSeq tx) (tx_sentList tx) (0, False)")
  case (Inl s')
  with assms(2) have "q = s'" by (simp add: NextSeg_def)
  with next_seg_walk_Inl [OF Inl] show ?thesis
    by (fastforce simp: seqof_def)
next
  case (Inr r)
  let ?una = "tx_firstByteSeq tx"
  let ?e = "?una + tx_sentSize tx"
  note w = tx_wfD [OF assms(1)]
  show ?thesis
  proof (cases "SizeFromSequence ?e tx > 0")
    case True
    have "?e = seqof ?una (tbytes (tx_sentList tx))"
      using w(7) by (simp add: seqof_def)
    then have "SizeFromSequence ?e tx = of_nat (tbytes (tx_appList tx))"
      using SizeFromSequence_seqof [OF assms(1), of "tbytes (tx_sentList tx)"] by simp
    with True have "tx_appList tx \<noteq> []" by auto
    moreover have "q = ?e"
      using assms(2) Inr True by (auto simp: NextSeg_def Let_def split: prod.splits if_splits)
    ultimately show ?thesis by blast
  next
    case False
    then have r: "r = (q, True)"
      using assms(2) Inr by (auto simp: NextSeg_def Let_def split: prod.splits if_splits)
    have "\<forall>k < tbytes (tx_sentList tx). ?una + of_nat k \<noteq> 0"
    proof (intro allI impI)
      fix k assume "k < tbytes (tx_sentList tx)"
      then have "unat ?una + k < 2 ^ 32" "k < 2 ^ 32"
        using assms(4) w(9) by auto
      then have "unat (?una + of_nat k) = unat ?una + k"
        by (simp add: unat_add_lem [THEN iffD1])
      then show "?una + of_nat k \<noteq> 0"
        using assms(3) by (metis add_is_0 not_gr_zero unat_0)
    qed
    from next_seg_walk_first [OF Inr [unfolded r] this item_ok_nonempty [OF w(1)]] show ?thesis
      by (fastforce simp: seqof_def)
  qed
qed

subsection \<open>Each segment uses up some of the measure\<close>

lemma send_step:
  assumes "tx_wf tx" "NextSeg rWnd isRec tx = Some (q, h)"
    and "0 < unat (tx_firstByteSeq tx)" "unat (tx_firstByteSeq tx) + tbytes (tx_items tx) \<le> 2 ^ 32"
    and "CopyFromSequence now N q tx = Inr (Some item, tx')"
  shows "tx_wf tx' \<and> tx_firstByteSeq tx' = tx_firstByteSeq tx \<and> tx_stream tx' = tx_stream tx
    \<and> send_measure tx' < send_measure tx \<and> item \<in> set (tx_sentList tx') \<and> 0 < ilen item
    \<and> ilen item \<le> unat N
    \<and> (\<exists>k. q = seqof (tx_firstByteSeq tx) k \<and> k + ilen item \<le> length (tx_stream tx)
      \<and> (k + ilen item \<le> tbytes (tx_sentList tx) \<or> k = tbytes (tx_sentList tx))
      \<and> it_packet item = take (ilen item) (drop k (tx_stream tx)))"
proof -
  let ?una = "tx_firstByteSeq tx"
  note w = tx_wfD [OF assms(1)]
  have N: "N \<noteq> 0"
    using assms(5) by (auto simp: CopyFromSequence_def numeral_2_eq_2 Let_def ns_abort_if_def split: if_splits)
  from NextSeg_choice [OF assms(1-4)] show ?thesis
  proof (elim disjE exE conjE)
    fix pre cur post
    assume p: "tx_sentList tx = pre @ cur # post" "q = seqof ?una (tbytes pre)" "\<not> it_sacked cur"
      "\<not> it_retrans cur" "\<forall>x \<in> set pre. it_lost x = it_lost cur \<longrightarrow> it_sacked x \<or> it_retrans x"
    from copy_resend [OF assms(1) p(1,3) N, of 2 now "Some item" tx'] assms(5) p(2) obtain rest where c:
      "tx_sentList tx' = pre @ item # rest" "tx_wf tx'" "marks (tx_sentList tx') = marks (tx_sentList tx)"
      "tx_appList tx' = tx_appList tx" "payload (tx_sentList tx') = payload (tx_sentList tx)"
      "tx_firstByteSeq tx' = ?una" "it_retrans item" "\<not> it_sacked item" "0 < ilen item" "it_lost item = it_lost cur"
      "ilen item \<le> unat N" "filter (\<lambda>x. it_lost x \<noteq> it_lost cur) rest = filter (\<lambda>x. it_lost x \<noteq> it_lost cur) post"
      unfolding CopyFromSequence_def by auto
    have "unsent_from (it_lost cur) (tx_sentList tx') < unsent_from (it_lost cur) (tx_sentList tx)"
      unfolding c(1) p(1) using c p by (intro unsent_from_resend) simp_all
    moreover have "unsent_from (\<not> it_lost cur) (tx_sentList tx') = unsent_from (\<not> it_lost cur) (tx_sentList tx)"
      unfolding c(1) p(1) by (rule unsent_from_other [OF c(12,10)]) simp
    ultimately have m: "send_measure tx' < send_measure tx"
      using c(4) by (cases "it_lost cur") (simp_all add: send_measure_def)
    have st: "tx_stream tx' = tx_stream tx"
      using c(4,5) by (simp add: tx_stream_def tx_items_def)
    have "tx_stream tx = payload pre @ it_packet item @ payload rest @ payload (tx_appList tx)"
      using c(1,4) st by (simp add: tx_stream_def tx_items_def)
    then have "it_packet item = take (ilen item) (drop (tbytes pre) (tx_stream tx))
        \<and> tbytes pre + ilen item \<le> length (tx_stream tx)"
      by (simp add: ilen_def)
    moreover have "tbytes (tx_sentList tx') = tbytes (tx_sentList tx)"
      using c(5) by (metis length_payload)
    then have "tbytes pre + ilen item \<le> tbytes (tx_sentList tx)"
      using c(1) by simp
    ultimately show ?thesis
      using c m st p(2) by (intro conjI exI [of _ "tbytes pre"]) simp_all
  next
    assume n: "q = ?una + tx_sentSize tx" "tx_appList tx \<noteq> []"
    have "0 < unat N" "unat N < 2 ^ 32"
      using N unsigned_less [of N] by (simp_all add: unat_gt_0)
    from copy_new_data [OF assms(1) this n(2), of now] assms(5) n(1) have c:
      "it_packet item = take (min (unat N) (tbytes (tx_appList tx))) (payload (tx_appList tx))"
      "tx_wf tx'" "tx_stream tx' = tx_stream tx" "tx_firstByteSeq tx' = ?una"
      "tx_sentList tx' = tx_sentList tx @ [item]" "item_clean item"
      by auto
    have l: "ilen item = min (unat N) (tbytes (tx_appList tx))" "0 < ilen item"
      using c(1,6) by (simp_all add: ilen_def item_clean_def)
    have "length (tx_stream tx') = length (tx_stream tx)"
      using c(3) by simp
    then have "ilen item + tbytes (tx_appList tx') = tbytes (tx_appList tx)"
      using c(5) by (simp add: tx_stream_def)
    moreover have "unsent_from True (tx_sentList tx @ [item]) \<le> unsent_from True (tx_sentList tx)"
      "unsent_from False (tx_sentList tx @ [item]) \<le> unsent_from False (tx_sentList tx) + ilen item"
      using unsent_from_new [of True "tx_sentList tx" item] unsent_from_new [of False "tx_sentList tx" item] c(6)
      by (simp_all add: item_clean_def)
    ultimately have m: "send_measure tx' < send_measure tx"
      using l(2) c(5) unfolding send_measure_def by simp
    have "q = seqof ?una (tbytes (tx_sentList tx))"
      using n(1) w(7) by (simp add: seqof_def)
    with c m l show ?thesis
      by (intro conjI exI [of _ "tbytes (tx_sentList tx)"]) (simp_all add: tx_stream_def tx_items_def)
  qed
qed

lemma send_measure_le: "send_measure tx \<le> 2 * tbytes (tx_items tx)"
proof -
  have "fbytes (\<lambda>it. it_lost it = True \<and> \<not> it_sacked it) l + fbytes (\<lambda>it. it_lost it = False \<and> \<not> it_sacked it) l
      \<le> tbytes l" for l
    by (induction l) auto
  from this [of "tx_sentList tx"] unsent_from_le [of True "tx_sentList tx"] unsent_from_le [of False "tx_sentList tx"]
  show ?thesis
    by (simp add: send_measure_def)
qed

end
