(* ===== verification/SendProps.thy ===== *)
theory SendProps
  imports SockSteps SockProps TxResend
begin

text \<open>
  What \<open>SendDataPacket\<close> puts on the wire, and what it keeps of the socket.
\<close>

subsection \<open>What sending keeps\<close>

text \<open>The members that sending a data segment leaves alone.\<close>

definition send_view :: "sock \<Rightarrow> u32 \<times> u32 \<times> TcpCongState \<times> seq \<times> bool \<times> bool \<times> rx_buffer" where
  "send_view s = (sk_rWnd s, m_cWnd (sk_tcb s), m_congState (sk_tcb s), sk_recover s, sk_recoverActive s,
    sk_sackEnabled s, sk_rx s)"

lemma send_view_simps [simp]:
  "send_view (s\<lparr>sk_tx := tx\<rparr>) = send_view s" "send_view (s\<lparr>sk_rateOps := r\<rparr>) = send_view s"
  "send_view (s\<lparr>sk_pacingTimer := p\<rparr>) = send_view s" "send_view (s\<lparr>sk_delAckEvent := e\<rparr>) = send_view s"
  "send_view (s\<lparr>sk_delAckCount := n\<rparr>) = send_view s" "send_view (s\<lparr>sk_state := st\<rparr>) = send_view s"
  "send_view (s\<lparr>sk_ecnCWRSeq := q\<rparr>) = send_view s" "send_view (s\<lparr>sk_advWnd := w\<rparr>) = send_view s"
  "send_view (s\<lparr>sk_retxEvent := x\<rparr>) = send_view s" "send_view (s\<lparr>sk_later := l\<rparr>) = send_view s"
  "send_view (s\<lparr>sk_history := h\<rparr>) = send_view s" "send_view (s\<lparr>sk_sent := z\<rparr>) = send_view s"
  "send_view (s\<lparr>sk_recoveryOps := ro\<rparr>) = send_view s"
  by (simp_all add: send_view_def)

lemma send_view_tcb:
  "m_cWnd (f (sk_tcb s)) = m_cWnd (sk_tcb s) \<Longrightarrow> m_congState (f (sk_tcb s)) = m_congState (sk_tcb s)
    \<Longrightarrow> send_view (upd_tcb f s) = send_view s"
  by (simp add: send_view_def upd_tcb_def)

lemma sending_if [simp]:
  "send_view (if b then s else t) = (if b then send_view s else send_view t)"
  "sk_tx (if b then s else t) = (if b then sk_tx s else sk_tx t)"
  "sk_sent (if b then s else t) = (if b then sk_sent s else sk_sent t)"
  by simp_all

lemma upd_tcb_fields [simp]:
  "sk_tx (upd_tcb f s) = sk_tx s" "sk_sent (upd_tcb f s) = sk_sent s" "sk_rx (upd_tcb f s) = sk_rx s"
  "sk_tcb (upd_tcb f s) = f (sk_tcb s)"
  by (simp_all add: upd_tcb_def)

lemma send_viewD:
  assumes "send_view t = send_view s"
  shows "sk_rWnd t = sk_rWnd s" "m_cWnd (sk_tcb t) = m_cWnd (sk_tcb s)"
    "m_congState (sk_tcb t) = m_congState (sk_tcb s)" "sk_recover t = sk_recover s"
    "sk_recoverActive t = sk_recoverActive s" "sk_sackEnabled t = sk_sackEnabled s" "sk_rx t = sk_rx s"
  using assms by (simp_all add: send_view_def)

lemma enter_fin_spec [simp]:
  "send_view (enter_fin s) = send_view s" "sk_tx (enter_fin s) = sk_tx s" "sk_sent (enter_fin s) = sk_sent s"
  by (simp_all add: enter_fin_def)

lemma UpdateRttHistory_eq:
  "\<exists>h. UpdateRttHistory q z r s = s\<lparr>sk_history := h\<rparr>"
proof (cases s)
  case (fields)
  then show ?thesis
    by (auto simp: UpdateRttHistory_def Let_def split: list.split)
qed

text \<open>The socket behind \<open>hand_down\<close>.\<close>

lemma hand_down_spec:
  "sk_sent (hand_down q r p h ep s) = sk_sent s @ [\<lparr> sg_packet = p, sg_header = h,
      sg_source = ep_localAddress ep, sg_destination = ep_peerAddress ep \<rparr>]"
  "sk_tx (hand_down q r p h ep s) = sk_tx s" "send_view (hand_down q r p h ep s) = send_view s"
proof -
  obtain hs where h: "UpdateRttHistory q (pkt_size p) r (SendPacket p h ep
      (if sk_retxEvent s = None then s\<lparr>sk_retxEvent := Some (sk_now s + sk_rto s, ReTxTimeoutEvent)\<rparr> else s))
    = (SendPacket p h ep
      (if sk_retxEvent s = None then s\<lparr>sk_retxEvent := Some (sk_now s + sk_rto s, ReTxTimeoutEvent)\<rparr> else s))
      \<lparr>sk_history := hs\<rparr>"
    using UpdateRttHistory_eq by blast
  show "sk_sent (hand_down q r p h ep s) = sk_sent s @ [\<lparr> sg_packet = p, sg_header = h,
      sg_source = ep_localAddress ep, sg_destination = ep_peerAddress ep \<rparr>]"
    "sk_tx (hand_down q r p h ep s) = sk_tx s"
    unfolding hand_down_def Let_def h
    by (simp_all add: SendPacket_def upd_tcb_def rec_UpdateBytesSent_def split: RecoveryControl.split)
  show "send_view (hand_down q r p h ep s) = send_view s"
    unfolding hand_down_def Let_def h
    by (simp add: SendPacket_def send_view_tcb rec_UpdateBytesSent_def split: RecoveryControl.split)
qed

lemma take_item_spec:
  assumes "take_item n q s = Inr (item, t)"
  shows "\<exists>it0 tx. CopyFromSequence (sk_now s) n q (sk_tx s) = Inr (Some it0, tx)
    \<and> item = it0\<lparr>it_rateInfo := it_rateInfo item\<rparr>
    \<and> sk_tx t = tx\<lparr>tx_sentList := update_item (it_id item) (\<lambda>_. item) (tx_sentList tx)\<rparr>
    \<and> send_view t = send_view s \<and> core t = core s"
  using assms
  by (auto simp: take_item_def bindE_Inr BytesInFlight_def SkbSent_def Let_def send_view_def upd_tcb_def core_def
      split: option.splits prod.splits)

lemma start_pacing_spec:
  "sat (if b then start_pacing z s else Inr s) (\<lambda>t. \<exists>p. t = s\<lparr>sk_pacingTimer := p\<rparr>)"
proof -
  have "\<exists>p. s = s\<lparr>sk_pacingTimer := p\<rparr>"
    by (rule exI [of _ "sk_pacingTimer s"]) simp
  then show ?thesis
    by (auto simp: start_pacing_def intro!: sat_any)
qed

lemma AdvertisedWindowSize_spec:
  "sat (AdvertisedWindowSize b s) (\<lambda>x. \<exists>w. snd x = s\<lparr>sk_advWnd := w\<rparr>)"
proof -
  have "\<exists>w. s = s\<lparr>sk_advWnd := w\<rparr>"
    by (rule exI [of _ "sk_advWnd s"]) simp
  then show ?thesis
    by (auto simp: AdvertisedWindowSize_def Let_def)
qed

lemma data_flags:
  "has_flag ((if b then ACK else 0) OR (if c then CWR else 0) OR (if f then FIN else 0)) ACK = b"
  "\<not> has_flag ((if b then ACK else 0) OR (if c then CWR else 0) OR (if f then FIN else 0)) SYN"
  by (cases b; cases c; cases f; simp add: has_flag_def ACK_def CWR_def FIN_def SYN_def)+

text \<open>
  The segment \<open>SendDataPacket\<close> hands down: the bytes of the item, numbered with the
  sequence asked for.
\<close>

lemma SendDataPacket_spec:
  assumes "SendDataPacket q n b s = Inr (sz, t)"
  shows "\<exists>item s1 sg. take_item n q s = Inr (item, s1) \<and> sz = pkt_size (it_packet item)
    \<and> sk_sent t = sk_sent s @ [sg] \<and> sg_packet sg = it_packet item
    \<and> h_sequenceNumber (sg_header sg) = q \<and> h_ackNumber (sg_header sg) = rx_nextRxSeq (sk_rx s)
    \<and> has_flag (h_flags (sg_header sg)) ACK = b \<and> \<not> has_flag (h_flags (sg_header sg)) SYN
    \<and> sk_tx t = sk_tx s1 \<and> send_view t = send_view s
    \<and> (\<exists>u w f ep. sg_header sg = AddOptions u ((data_header f q u ep)\<lparr>h_windowSize := w\<rparr>))"
proof -
  let ?Q = "\<lambda>x. \<exists>item s1 sg. take_item n q s = Inr (item, s1) \<and> fst x = pkt_size (it_packet item)
    \<and> sk_sent (snd x) = sk_sent s @ [sg] \<and> sg_packet sg = it_packet item
    \<and> h_sequenceNumber (sg_header sg) = q \<and> h_ackNumber (sg_header sg) = rx_nextRxSeq (sk_rx s)
    \<and> has_flag (h_flags (sg_header sg)) ACK = b \<and> \<not> has_flag (h_flags (sg_header sg)) SYN
    \<and> sk_tx (snd x) = sk_tx s1 \<and> send_view (snd x) = send_view s
    \<and> (\<exists>u w f ep. sg_header sg = AddOptions u ((data_header f q u ep)\<lparr>h_windowSize := w\<rparr>))"
  have "sat (SendDataPacket q n b s) ?Q"
    unfolding SendDataPacket_def
    apply (rule sat_bindI, rule satI, rule sat_prodI)
    apply (intro sat_letI sat_assertI sat_bindI)
    apply (rule start_pacing_spec [THEN sat_mono])
    apply (erule exE)
    apply (intro sat_wp AdvertisedWindowSize_spec [THEN sat_mono])
    subgoal premises prems for x item s1 isR p sz rem s2 pc s3 cwr s4 fin s5 fl ep y w s6 hd
    proof -
      have x: "take_item n q s = Inr (item, s1)"
        using prems by simp
      then have 1: "send_view s1 = send_view s" "sk_sent s1 = sk_sent s"
        using take_item_spec [OF x] by (auto simp: core_def)
      have 5: "send_view s5 = send_view s" "sk_tx s5 = sk_tx s1" "sk_sent s5 = sk_sent s"
        using prems 1 by (simp_all add: send_view_tcb)
      have "\<exists>w'. snd y = s5\<lparr>sk_advWnd := w'\<rparr>" "y = (w, s6)"
        using prems by blast+
      then obtain w' where "s6 = s5\<lparr>sk_advWnd := w'\<rparr>"
        by auto
      with 5 have 6: "send_view s6 = send_view s" "sk_tx s6 = sk_tx s1" "sk_sent s6 = sk_sent s"
        by simp_all
      have e: "p = it_packet item" "sz = pkt_size p"
        "hd = AddOptions s6 ((data_header fl q s6 ep)\<lparr>h_windowSize := w\<rparr>)"
        "fl = (if b then ACK else 0) OR (if cwr then CWR else 0) OR (if fin then FIN else 0)"
        using prems by blast+
      have h: "h_sequenceNumber hd = q" "h_ackNumber hd = rx_nextRxSeq (sk_rx s)" "has_flag (h_flags hd) ACK = b"
        "\<not> has_flag (h_flags hd) SYN"
        unfolding e(3) by (simp_all add: add_options_keeps data_header_def e(4) data_flags send_viewD(7) [OF 6(1)])
      have ex: "\<exists>u w f ep. hd = AddOptions u ((data_header f q u ep)\<lparr>h_windowSize := w\<rparr>)"
        using e(3) by blast
      show ?thesis
        by (intro exI [of _ item] exI [of _ s1] exI [of _ "\<lparr> sg_packet = p, sg_header = hd,
            sg_source = ep_localAddress ep, sg_destination = ep_peerAddress ep \<rparr>"])
          (simp add: x e(1,2) h hand_down_spec 6 ex)
    qed
    done
  from satD [OF this assms] show ?thesis by simp
qed

subsection \<open>What a segment carries\<close>

text \<open>The rate sample written to the item changes nothing else of the buffer.\<close>

lemma tx_annotate:
  assumes "tx_wf tx" "it \<in> set (tx_sentList tx)" "item = it\<lparr>it_rateInfo := x\<rparr>"
    and "tx' = tx\<lparr>tx_sentList := update_item (it_id item) (\<lambda>_. item) (tx_sentList tx)\<rparr>"
  shows "tx_wf tx' \<and> tx_stream tx' = tx_stream tx \<and> send_measure tx' = send_measure tx"
proof -
  note w = tx_wfD [OF assms(1)]
  obtain a b where ab: "tx_sentList tx = a @ it # b"
    using assms(2) by (meson split_list)
  then have "it_id it \<notin> it_id ` set a"
    using w(10) by auto
  then have u: "tx_sentList tx' = a @ item # b"
    using assms(3,4) ab update_item_split [of it a "\<lambda>_. item" b] by simp
  have i: "ilen item = ilen it" "shape item = shape it" "item_ok item = item_ok it"
    by (simp_all add: assms(3) ilen_def shape_def item_ok_def)
  have m: "unsent_from c (tx_sentList tx') = unsent_from c (tx_sentList tx)" for c
    unfolding u ab by (rule unsent_from_cong) (simp add: i)
  have "tx_wf tx' \<and> tx_stream tx' = tx_stream tx"
    using assms(1) u i unfolding tx_wf_def ConsistencyCheck_iff tx_items_simps tx_stream_def tx_items_def
    by (simp add: assms(3,4) ab isize_ilen)
  with m show ?thesis
    by (simp add: send_measure_def assms(4))
qed

lemma tx_stream_size: "length (tx_stream tx) = tbytes (tx_items tx)"
  by (simp add: tx_stream_def)

lemma SendDataPacket_step:
  assumes "SendDataPacket q n b s = Inr (sz, t)" "tx_wf (sk_tx s)" "NextSeg rWnd r3 (sk_tx s) = Some (q, h)"
    and "0 < unat (tx_firstByteSeq (sk_tx s))"
    and "unat (tx_firstByteSeq (sk_tx s)) + length (tx_stream (sk_tx s)) \<le> 2 ^ 32"
  shows "tx_wf (sk_tx t) \<and> tx_firstByteSeq (sk_tx t) = tx_firstByteSeq (sk_tx s)
    \<and> tx_stream (sk_tx t) = tx_stream (sk_tx s) \<and> send_measure (sk_tx t) < send_measure (sk_tx s)
    \<and> send_view t = send_view s
    \<and> (\<exists>sg k m. sk_sent t = sk_sent s @ [sg] \<and> q = seqof (tx_firstByteSeq (sk_tx s)) k \<and> sz = of_nat m
      \<and> 0 < m \<and> m \<le> unat n \<and> k + m \<le> length (tx_stream (sk_tx s))
      \<and> (k + m \<le> tbytes (tx_sentList (sk_tx s)) \<or> k = tbytes (tx_sentList (sk_tx s)))
      \<and> sg_packet sg = take m (drop k (tx_stream (sk_tx s)))
      \<and> h_sequenceNumber (sg_header sg) = q \<and> h_ackNumber (sg_header sg) = rx_nextRxSeq (sk_rx s)
      \<and> has_flag (h_flags (sg_header sg)) ACK = b \<and> \<not> has_flag (h_flags (sg_header sg)) SYN
      \<and> (\<exists>u w f ep. sg_header sg = AddOptions u ((data_header f q u ep)\<lparr>h_windowSize := w\<rparr>)))"
proof -
  from SendDataPacket_spec [OF assms(1)] obtain item s1 sg where d: "take_item n q s = Inr (item, s1)"
    "sz = pkt_size (it_packet item)" "sk_sent t = sk_sent s @ [sg]" "sg_packet sg = it_packet item"
    "h_sequenceNumber (sg_header sg) = q" "h_ackNumber (sg_header sg) = rx_nextRxSeq (sk_rx s)"
    "has_flag (h_flags (sg_header sg)) ACK = b" "\<not> has_flag (h_flags (sg_header sg)) SYN"
    "sk_tx t = sk_tx s1" "send_view t = send_view s"
    "\<exists>u w f ep. sg_header sg = AddOptions u ((data_header f q u ep)\<lparr>h_windowSize := w\<rparr>)"
    by blast
  obtain it0 tx where c:
    "CopyFromSequence (sk_now s) n q (sk_tx s) = Inr (Some it0, tx)" "item = it0\<lparr>it_rateInfo := it_rateInfo item\<rparr>"
    "sk_tx s1 = tx\<lparr>tx_sentList := update_item (it_id item) (\<lambda>_. item) (tx_sentList tx)\<rparr>"
    using take_item_spec [OF d(1)] by (elim exE conjE) (rule that, assumption+)
  note st = send_step [OF assms(2,3,4) assms(5) [unfolded tx_stream_size] c(1)]
  then have an: "tx_wf (sk_tx s1) \<and> tx_stream (sk_tx s1) = tx_stream tx \<and> send_measure (sk_tx s1) = send_measure tx"
    using tx_annotate [OF _ _ c(2,3)] by blast
  have i: "it_packet item = it_packet it0" "tx_firstByteSeq (sk_tx s1) = tx_firstByteSeq tx"
    by (subst c(2)) (simp_all add: c(3))
  from st obtain k where k: "q = seqof (tx_firstByteSeq (sk_tx s)) k" "k + ilen it0 \<le> length (tx_stream (sk_tx s))"
    "k + ilen it0 \<le> tbytes (tx_sentList (sk_tx s)) \<or> k = tbytes (tx_sentList (sk_tx s))"
    "it_packet it0 = take (ilen it0) (drop k (tx_stream (sk_tx s)))"
    by blast
  have "sz = of_nat (ilen it0)"
    using d(2) i(1) by (simp add: pkt_size_def ilen_def)
  moreover have "sg_packet sg = take (ilen it0) (drop k (tx_stream (sk_tx s)))"
    using d(4) i(1) k(4) by simp
  ultimately have "sk_sent t = sk_sent s @ [sg] \<and> q = seqof (tx_firstByteSeq (sk_tx s)) k \<and> sz = of_nat (ilen it0)
      \<and> 0 < ilen it0 \<and> ilen it0 \<le> unat n \<and> k + ilen it0 \<le> length (tx_stream (sk_tx s))
      \<and> (k + ilen it0 \<le> tbytes (tx_sentList (sk_tx s)) \<or> k = tbytes (tx_sentList (sk_tx s)))
      \<and> sg_packet sg = take (ilen it0) (drop k (tx_stream (sk_tx s)))"
    using st d(3) k(1-3) by blast
  note seg = conjI [OF this conjI [OF d(5) conjI [OF d(6) conjI [OF d(7) conjI [OF d(8) d(11)]]]]]
  have "\<exists>sg k m. sk_sent t = sk_sent s @ [sg] \<and> q = seqof (tx_firstByteSeq (sk_tx s)) k \<and> sz = of_nat m
      \<and> 0 < m \<and> m \<le> unat n \<and> k + m \<le> length (tx_stream (sk_tx s))
      \<and> (k + m \<le> tbytes (tx_sentList (sk_tx s)) \<or> k = tbytes (tx_sentList (sk_tx s)))
      \<and> sg_packet sg = take m (drop k (tx_stream (sk_tx s)))
      \<and> h_sequenceNumber (sg_header sg) = q \<and> h_ackNumber (sg_header sg) = rx_nextRxSeq (sk_rx s)
      \<and> has_flag (h_flags (sg_header sg)) ACK = b \<and> \<not> has_flag (h_flags (sg_header sg)) SYN
      \<and> (\<exists>u w f ep. sg_header sg = AddOptions u ((data_header f q u ep)\<lparr>h_windowSize := w\<rparr>))"
    by (rule exI [of _ sg], rule exI [of _ k], rule exI [of _ "ilen it0"]) (use seg in blast)
  with st an d(9,10) i(2) show ?thesis
    by simp
qed

text \<open>A socket with 20 bytes to send in segments of four, and a peer window of four bytes.\<close>

definition quiet :: app where
  "quiet u s = s"

definition demo_data :: sock where
  "demo_data = demo_sock\<lparr>sk_tx := demo_buffer 100 20, sk_rWnd := 4, sk_highRxAckMark := 100,
     sk_tcb := (sk_tcb demo_sock)\<lparr>m_segmentSize := 4, m_nextTxSequence := 100, m_highTxMark := 100\<rparr>\<rparr>"

lemma demo_data_facts:
  "tx_wf (sk_tx demo_data)" "tx_firstByteSeq (sk_tx demo_data) = 100" "length (tx_stream (sk_tx demo_data)) = 20"
  "NextSeg 4 False (sk_tx demo_data) = Some (100, 104)" "sk_sent demo_data = []"
  "tx_stream (sk_tx demo_data) = map of_nat [0 ..< 20]" "sk_rWnd demo_data = 4"
proof -
  have b: "sk_tx demo_data = demo_buffer 100 20" "sk_sent demo_data = []" "sk_rWnd demo_data = 4"
    by (simp_all add: demo_data_def demo_sock_def new_sock_def)
  show "tx_wf (sk_tx demo_data)" "sk_sent demo_data = []" "sk_rWnd demo_data = 4"
    unfolding b by (simp_all add: demo_buffer_wf)
  show "tx_firstByteSeq (sk_tx demo_data) = 100" "length (tx_stream (sk_tx demo_data)) = 20"
    "NextSeg 4 False (sk_tx demo_data) = Some (100, 104)"
    "tx_stream (sk_tx demo_data) = map of_nat [0 ..< 20]"
    unfolding b(1) by code_simp+
qed

lemma demo_data_sent:
  "is_ok (SendDataPacket 100 4 True demo_data)" "is_ok (send_segment quiet True 4 demo_data)"
  by code_simp+

text \<open>
  C1: Every segment of data carries the bytes of the stream its sequence number names: the
  payload is the part of the send buffer that starts at the distance of the sequence number
  from the first unacknowledged byte, it is not empty and not longer than asked for, the
  peer's \<open>Deserialize\<close> gives back the header and leaves the payload, and the stream
  held for retransmission is unchanged.
\<close>

theorem data_segment_carries_stream:
  assumes "SendDataPacket q n b s = Inr (sz, t)" "tx_wf (sk_tx s)" "NextSeg rWnd r3 (sk_tx s) = Some (q, h)"
    and "0 < unat (tx_firstByteSeq (sk_tx s))"
    and "unat (tx_firstByteSeq (sk_tx s)) + length (tx_stream (sk_tx s)) \<le> 2 ^ 32"
  shows "\<exists>sg k m i. sk_sent t = sk_sent s @ [sg] \<and> sz = of_nat m \<and> 0 < m \<and> m \<le> unat n
    \<and> h_sequenceNumber (sg_header sg) = q \<and> q = seqof (tx_firstByteSeq (sk_tx s)) k
    \<and> sg_packet sg = take m (drop k (tx_stream (sk_tx s))) \<and> length (sg_packet sg) = m
    \<and> Serialize (sg_header sg) (sg_packet sg) = Inr (i @ sg_packet sg)
    \<and> Deserialize (i @ sg_packet sg) new_TcpHeader = Inr (received (sg_header sg) new_TcpHeader, of_nat (length i))
    \<and> tx_stream (sk_tx t) = tx_stream (sk_tx s) \<and> tx_wf (sk_tx t)"
proof -
  note st = SendDataPacket_step [OF assms]
  then obtain sg k m u w f ep where d: "sk_sent t = sk_sent s @ [sg]" "q = seqof (tx_firstByteSeq (sk_tx s)) k"
    "sz = of_nat m" "0 < m" "m \<le> unat n" "k + m \<le> length (tx_stream (sk_tx s))"
    "sg_packet sg = take m (drop k (tx_stream (sk_tx s)))" "h_sequenceNumber (sg_header sg) = q"
    "sg_header sg = AddOptions u ((data_header f q u ep)\<lparr>h_windowSize := w\<rparr>)"
    by blast
  have "hdr_ok (sg_header sg)" "\<not> h_calcChecksum (sg_header sg)"
    unfolding d(9) using add_options_ok [of "(data_header f q u ep)\<lparr>h_windowSize := w\<rparr>" u]
    by (simp_all add: add_options_keeps data_header_def) (simp add: new_TcpHeader_def)
  moreover have "\<not> h_calcChecksum new_TcpHeader"
    by (simp add: new_TcpHeader_def)
  ultimately obtain i where "Serialize (sg_header sg) (sg_packet sg) = Inr (i @ sg_packet sg)"
    "Deserialize (i @ sg_packet sg) new_TcpHeader = Inr (received (sg_header sg) new_TcpHeader, of_nat (length i))"
    using parse_written_header [of "sg_header sg" new_TcpHeader "sg_packet sg"] by blast
  with d st show ?thesis
    by (intro exI [of _ sg] exI [of _ k] exI [of _ m] exI [of _ i]) simp
qed

theorem data_segment_carries_stream_witness:
  "\<exists>sz t sg i. SendDataPacket 100 4 True demo_data = Inr (sz, t) \<and> sk_sent t = [sg]
    \<and> h_sequenceNumber (sg_header sg) = 100 \<and> sg_packet sg \<noteq> []
    \<and> Serialize (sg_header sg) (sg_packet sg) = Inr (i @ sg_packet sg)"
proof -
  obtain sz t where r: "SendDataPacket 100 4 True demo_data = Inr (sz, t)"
    using demo_data_sent(1) by (cases "SendDataPacket 100 4 True demo_data") auto
  from data_segment_carries_stream [OF r demo_data_facts(1,4)] demo_data_facts(2,3,5) r show ?thesis
    by fastforce
qed

end
