(* ===== verification/ConnProps.thy ===== *)
theory ConnProps
  imports SendProps
begin

text \<open>
  Properties of a connection: the state machine, the output, and what the handlers of
  \<open>SYN_RCVD\<close>, \<open>FIN_WAIT_2\<close> and \<open>LAST_ACK\<close> do with segments at the edge of what they expect.
\<close>

lemma quiet_ok: "(\<And>c. rel c c) \<Longrightarrow> app_ok rel quiet"
  by (simp add: app_ok_def quiet_def)







text \<open>
  C37: In \<open>LAST_ACK\<close> every in-sequence segment with the flag ACK alone closes the connection,
  whatever it acknowledges and whatever it carries: the handler compares the sequence number
  only, so an acknowledgement of earlier data counts as the acknowledgement of the FIN.
\<close>

theorem last_ack_closes_on_any_ack:
  assumes "sk_state s = LAST_ACK" "event_flags_ecn h = ACK" "h_sequenceNumber h = rx_nextRxSeq (sk_rx s)"
  shows "forward_state app p (h\<lparr>h_ackNumber := a\<rparr>) src sport dst dport s = Inr (CloseAndNotify app s)
    \<and> sk_state (CloseAndNotify app s) = CLOSED \<and> sk_lastAckEvent (CloseAndNotify app s) = None"
  using assms
  by (simp add: forward_state_def ProcessLastAck_def event_flags_ecn_def ACK_def CloseAndNotify_def Let_def
      DeallocateEndPoint_def CancelAllTimers_def)

theorem last_ack_closes_on_any_ack_witness:
  "forward_state quiet [1, 2] (new_TcpHeader\<lparr>h_flags := ACK, h_sequenceNumber := 1, h_ackNumber := 0\<rparr>) NoAddress 0
      NoAddress 0 (demo_sock\<lparr>sk_state := LAST_ACK\<rparr>) = Inr (CloseAndNotify quiet (demo_sock\<lparr>sk_state := LAST_ACK\<rparr>))"
  using last_ack_closes_on_any_ack [of "demo_sock\<lparr>sk_state := LAST_ACK\<rparr>"
      "new_TcpHeader\<lparr>h_flags := ACK, h_sequenceNumber := 1\<rparr>" quiet "[1, 2]" 0 NoAddress 0 NoAddress 0]
  by (simp add: demo_sock_def event_flags_ecn_def ACK_def PSH_def URG_def TcpRxBuffer_def)

text \<open>
  C40: Data without the ACK flag in \<open>SYN_RCVD\<close> stops the simulation: the handler accepts it as
  the end of the handshake and calls \<open>ReceivedAck\<close>, whose assertion at line 1879 asks
  for the ACK flag.
\<close>

theorem syn_rcvd_plain_data_aborts:
  assumes "sk_state s = SYN_RCVD" "event_flags h = 0" "tx_sentList (sk_tx s) = []"
  shows "forward_state app p h src sport dst dport s = Inl (NsAssert 1879)"
proof -
  have "\<not> has_flag (h_flags h) ACK"
  proof
    assume "has_flag (h_flags h) ACK"
    moreover have "event_flags h AND ACK = h_flags h AND ACK"
      unfolding event_flags_def by (simp add: and.assoc PSH_def URG_def CWR_def ECE_def ACK_def)
    ultimately show False
      using assms(2) by (simp add: has_flag_def)
  qed
  moreover have "\<exists>t. advance_syn (establish s) = Inr t"
    using assms(3) by (simp add: advance_syn_def establish_def SetHeadSequence_def upd_tcb_def Let_def
        cc_CongestionStateSet_def split: CongestionControl.split)
  moreover have "ReceivedAck app p h x = Inl (NsAssert 1879)" if "\<not> has_flag (h_flags h) ACK" for x
    using that by (simp add: ReceivedAck_def ns_assert_def)
  ultimately show ?thesis
    using assms(1,2) by (auto simp: forward_state_def ProcessSynRcvd_def Let_def)
qed

theorem syn_rcvd_plain_data_aborts_witness:
  "forward_state quiet [1, 2] (new_TcpHeader\<lparr>h_flags := PSH\<rparr>) NoAddress 0 NoAddress 0 (demo_sock\<lparr>sk_state := SYN_RCVD\<rparr>)
    = Inl (NsAssert 1879)"
  by (rule syn_rcvd_plain_data_aborts)
    (simp_all add: demo_sock_def new_sock_def TcpTxBuffer_def event_flags_def PSH_def URG_def CWR_def ECE_def)

end
