(* ===== verification/LossProps.thy ===== *)
theory LossProps
  imports SendProps
begin

text \<open>
  How the sender reacts to loss: the retransmission timeout, the round-trip time of
  retransmitted segments, and the entry into fast recovery.
\<close>

subsection \<open>The send buffer after a timeout\<close>





subsection \<open>Retransmission timeouts\<close>



subsection \<open>Karn's rule\<close>

text \<open>
  C20: No round-trip time is measured on a segment that was retransmitted: once
  \<open>UpdateRttHistory\<close> has recorded the retransmission of bytes of the oldest segment in the
  history, the acknowledgement that covers it leaves the estimate, the variation and the timeout
  unchanged, whatever it acknowledges and whether or not it carries a timestamp.
\<close>

theorem retransmission_is_not_sampled:
  assumes "sk_history s = h # hs" "seq_ge q (rh_seq h)" "seq_lt q (rh_seq h + rh_count h)"
  shows "\<exists>t. EstimateRtt tcpHeader (UpdateRttHistory q sz True s) = Inr t \<and> sk_rtt t = sk_rtt s
    \<and> sk_rto t = sk_rto s \<and> m_lastRtt (sk_tcb t) = m_lastRtt (sk_tcb s)"
  using assms by (simp add: UpdateRttHistory_def EstimateRtt_def rtt_sample_def Let_def)

theorem retransmission_is_not_sampled_witness:
  "\<exists>t. EstimateRtt new_TcpHeader (UpdateRttHistory 100 4 True
      (demo_sock\<lparr>sk_history := [\<lparr> rh_seq = 100, rh_count = 4, rh_time = 5, rh_retx = False \<rparr>]\<rparr>)) = Inr t
    \<and> sk_rtt t = sk_rtt demo_sock"
  using retransmission_is_not_sampled [of "demo_sock\<lparr>sk_history :=
      [\<lparr> rh_seq = 100, rh_count = 4, rh_time = 5, rh_retx = False \<rparr>]\<rparr>" _ "[]" 100 new_TcpHeader 4]
  by (simp add: seq_ge_def seq_lt_def seq_gt_def halfMaxValue_eq) auto

subsection \<open>Fast retransmit\<close>

text \<open>What the calls of the algorithms leave alone on the way into recovery.\<close>

definition loss_view ::
  "sock \<Rightarrow> tx_buffer \<times> segment list \<times> TcpCongState \<times> seq \<times> bool \<times> bool \<times> seq" where
  "loss_view s = (sk_tx s, sk_sent s, m_congState (sk_tcb s), sk_recover s, sk_recoverActive s, sk_sackEnabled s,
     m_highTxMark (sk_tcb s))"


lemma loss_view_keep [simp]:
  "loss_view (cc_EnterRecovery s) = loss_view s"
  "loss_view (cc_CongestionStateSet c s) = loss_view s"
  "loss_view (upd_tcb (\<lambda>tcb. tcb\<lparr>m_ssThresh := x\<rparr>) s) = loss_view s"
  by (auto simp: cc_EnterRecovery_def Cerl_EnterRecovery_def Base_EnterRecovery_def Let_def
      cc_CongestionStateSet_def Base_CongestionStateSet_def loss_view_def upd_tcb_def
      split: CongestionControl.split prod.split)










end
