(* ===== verification/SendLoop.thy ===== *)
theory SendLoop
  imports SendProps
begin

text \<open>
  The loop of \<open>SendPendingData\<close>: what one pass sends, that the loop ends, and what it keeps
  of the send buffer.
\<close>

subsection \<open>One pass\<close>






subsection \<open>Termination\<close>















end
