(* ===== verification/Handshake.thy ===== *)
theory Handshake
  imports SendProps
begin

text \<open>
  The three-way handshake: the client's \<open>Connect\<close>, the listening socket's fork and the
  handlers of \<open>SYN_SENT\<close> and \<open>SYN_RCVD\<close> composed over a network that delivers the bytes of
  each segment to its peer.
\<close>

subsection \<open>Two sockets\<close>

text \<open>
  A segment arrives: its bytes are handed up to the socket, without an ECN mark; connection
  requests are accepted.
\<close>

definition arrive :: "segment \<Rightarrow> sock \<Rightarrow> (sock option \<times> sock) result" where
  "arrive sg s =
    bindE (Serialize (sg_header sg) (sg_packet sg)) (\<lambda>bytes.
      ForwardUp quiet (\<lambda>_ _. True) bytes ECN_NotECT (sg_source sg) (h_sourcePort (sg_header sg))
        (sg_destination sg) s)"

text \<open>The call \<open>ProcessListen\<close> schedules on the forked socket.\<close>

definition run_fork :: "sock \<Rightarrow> sock result" where
  "run_fork s =
    (case sk_later s of
       LaterCompleteFork p h a port b port' # rest \<Rightarrow> CompleteFork quiet h a port b port' (s\<lparr>sk_later := rest\<rparr>)
     | _ \<Rightarrow> Inr s)"

text \<open>The client and the accepted socket behind SYN, SYN and ACK, and ACK.\<close>

definition handshake :: "sock \<Rightarrow> sock \<Rightarrow> (sock \<times> sock) result" where
  "handshake c l =
    bindE (connect_bound quiet c) (\<lambda>c.
    bindE (arrive (last (sk_sent c)) l) (\<lambda>(f, l).
    case f of
      None \<Rightarrow> Inr (c, l)
    | Some s \<Rightarrow>
        bindE (run_fork s) (\<lambda>s.
        bindE (arrive (last (sk_sent s)) c) (\<lambda>(_, c).
        bindE (arrive (last (sk_sent c)) s) (\<lambda>(_, s). Inr (c, s))))))"

subsection \<open>A SYN\<close>

definition syn_options :: "sock \<Rightarrow> TcpOption list" where
  "syn_options s =
    base_options s @ (if sk_winScalingEnabled s then [TcpOptionWinScale (CalculateWScale s)] else [])
      @ (if sk_sackEnabled s then [TcpOptionSackPermitted] else [])"

lemma CalculateWScale_le: "\<not> 14 < CalculateWScale s" "unat (CalculateWScale s) \<le> 14"
  by (simp_all add: CalculateWScale_def Let_def word_less_nat_alt)

lemma SetScale_ok: "SetScale (CalculateWScale s) = Inr (TcpOptionWinScale (CalculateWScale s))"
  using CalculateWScale_le(1) [of s] by (simp add: SetScale_def not_less)

lemma CalculateWScale_record [simp]:
  "CalculateWScale (s\<lparr>sk_rto := a\<rparr>) = CalculateWScale s" "CalculateWScale (s\<lparr>sk_advWnd := w\<rparr>) = CalculateWScale s"
  by (simp_all add: CalculateWScale_def)

text \<open>The window of a socket whose peer has not closed, in terms of its receive buffer.\<close>

definition rx_room :: "rx_buffer \<Rightarrow> u32" where
  "rx_room rx = MaxRxSequence rx - rx_nextRxSeq rx"

definition rx_open :: "rx_buffer \<Rightarrow> bool" where
  "rx_open rx \<longleftrightarrow> \<not> rx_gotFin rx \<and> unat (rx_room rx) < 2 ^ 31"

definition win_field :: "bool \<Rightarrow> rx_buffer \<Rightarrow> u8 \<Rightarrow> u16 \<Rightarrow> u16" where
  "win_field scale rx shift mx =
    ucast (min (if scale then drop_bit (unat shift) (rx_room rx) else rx_room rx) (ucast mx :: u32))"

lemma adv_eq:
  assumes "rx_open (sk_rx s)"
  shows "AdvertisedWindowSize b s
    = Inr (win_field b (sk_rx s) (sk_rcvWindShift s) (sk_maxWinSize s), s\<lparr>sk_advWnd := rx_room (sk_rx s)\<rparr>)"
  using AdvertisedWindowSize_eq [of s b] assms
  by (simp add: rx_open_def rx_room_def window_ok_def adv_window_def adv_field_def win_field_def)

text \<open>The header of a SYN: the options of every segment, then the window scale and SACK permitted.\<close>

definition syn_extras :: "sock \<Rightarrow> TcpHeader \<Rightarrow> TcpHeader" where
  "syn_extras s h =
    (let h = (if sk_winScalingEnabled s then snd (AppendOption (TcpOptionWinScale (CalculateWScale s)) h) else h)
     in if sk_sackEnabled s then snd (AppendOption TcpOptionSackPermitted h) else h)"

definition syn_base :: "u8 \<Rightarrow> EndPoint \<Rightarrow> sock \<Rightarrow> TcpHeader" where
  "syn_base flags ep s =
    AddOptions s (new_TcpHeader\<lparr>h_flags := flags, h_sequenceNumber := m_nextTxSequence (sk_tcb s),
      h_ackNumber := rx_nextRxSeq (sk_rx s), h_sourcePort := ep_localPort ep, h_destinationPort := ep_peerPort ep\<rparr>)"

definition syn_header :: "u8 \<Rightarrow> EndPoint \<Rightarrow> sock \<Rightarrow> TcpHeader" where
  "syn_header flags ep s = (syn_extras s (syn_base flags ep s))\<lparr>h_windowSize := win_field False (sk_rx s) 0 (sk_maxWinSize s)\<rparr>"

lemma syn_header_fields:
  "\<not> h_calcChecksum (syn_header flags ep s)" "h_flags (syn_header flags ep s) = flags"
  "h_sequenceNumber (syn_header flags ep s) = m_nextTxSequence (sk_tcb s)"
  "h_ackNumber (syn_header flags ep s) = rx_nextRxSeq (sk_rx s)"
  "h_windowSize (syn_header flags ep s) = win_field False (sk_rx s) 0 (sk_maxWinSize s)" "h_sourcePort (syn_header flags ep s) = ep_localPort ep"
  by (simp_all add: syn_header_def syn_extras_def syn_base_def Let_def append_option_keeps add_options_keeps)
    (simp add: new_TcpHeader_def)

lemma syn_header_ok: "hdr_ok (syn_header flags ep s) \<and> h_options (syn_header flags ep s) = syn_options s"
proof -
  let ?h = "syn_base flags ep s"
  let ?ws = "TcpOptionWinScale (CalculateWScale s)"
  have b: "options_bytes (base_options s) \<le> 16"
    by (simp add: base_options_def)
  have h: "hdr_ok ?h" "h_options ?h = base_options s"
    using add_options_ok by (simp_all add: syn_base_def)
  have w: "hdr_ok (snd (AppendOption ?ws ?h))" "h_options (snd (AppendOption ?ws ?h)) = base_options s @ [?ws]"
    using append_fits [OF h(1), of ?ws] h(2) b CalculateWScale_le(2) [of s]
    by (simp_all add: IsKindKnown_def word_le_nat_alt)
  have p: "hdr_ok (snd (AppendOption TcpOptionSackPermitted x))
      \<and> h_options (snd (AppendOption TcpOptionSackPermitted x)) = h_options x @ [TcpOptionSackPermitted]"
    if "hdr_ok x" "options_bytes (h_options x) \<le> 19" for x
    using append_fits [OF that(1), of TcpOptionSackPermitted] that(2) by (simp add: IsKindKnown_def)
  show ?thesis
    using h w p [OF h(1)] p [OF w(1)] b by (simp add: syn_header_def syn_extras_def syn_options_def Let_def)
qed

lemma syn_part_syn:
  assumes "rx_open (sk_rx s)" "has_flag (h_flags h0) SYN"
    and "0 < sk_synCount s" "sk_synRetries s = sk_synCount s"
  shows "\<exists>h. syn_part app q h0 s = Inr (Some (syn_extras s h0, win_field False (sk_rx s) 0 (sk_maxWinSize s)),
    s\<lparr>sk_rcvWindShift := (if sk_winScalingEnabled s then CalculateWScale s else sk_rcvWindShift s),
      sk_rto := sk_cnTimeout s, sk_synCount := sk_synCount s - 1, sk_history := h, sk_advWnd := rx_room (sk_rx s)\<rparr>)"
proof -
  define k where "k = (if sk_winScalingEnabled s then CalculateWScale s else sk_rcvWindShift s)"
  define x where "x = (if sk_winScalingEnabled s then snd (AppendOption (TcpOptionWinScale (CalculateWScale s)) h0) else h0)"
  let ?u = "s\<lparr>sk_rcvWindShift := k, sk_rto := sk_cnTimeout s, sk_synCount := sk_synCount s - 1\<rparr>"
  have x: "has_flag (h_flags x) SYN" "(if sk_winScalingEnabled s then AddOptionWScale h0 s else Inr (h0, s))
      = Inr (x, s\<lparr>sk_rcvWindShift := k\<rparr>)"
    using assms(2) by (simp_all add: AddOptionWScale_def SetScale_ok Let_def k_def x_def append_option_keeps)
  obtain h where h: "UpdateRttHistory q 0 False ?u = ?u\<lparr>sk_history := h\<rparr>"
    using UpdateRttHistory_eq by blast
  have adv: "AdvertisedWindowSize False (?u\<lparr>sk_history := h\<rparr>)
    = Inr (win_field False (sk_rx s) 0 (sk_maxWinSize s), ?u\<lparr>sk_history := h, sk_advWnd := rx_room (sk_rx s)\<rparr>)"
    using assms(1) by (simp add: adv_eq win_field_def)
  have n: "sk_synCount s \<noteq> 0"
    using assms(3) by auto
  show ?thesis
    unfolding syn_part_def x(2)
    by (rule exI [of _ h])
      (simp add: adv n h x(1) assms(4) Let_def syn_extras_def AddOptionSackPermitted_def flip: k_def x_def)
qed

text \<open>The segment \<open>SendEmptyPacket\<close> sends with the flag SYN, and all it changes of the socket.\<close>

lemma SendEmptyPacket_syn:
  assumes "rx_open (sk_rx s)"
    and "flags = SYN \<or> flags = SYN OR ACK" "rx_sackList (sk_rx s) = []" "endpoint s = Some ep"
    and "0 < sk_synCount s" "sk_synRetries s = sk_synCount s" "sk_state s \<notin> {FIN_WAIT_1, LAST_ACK, CLOSING}"
  shows "\<exists>h de dc hta rt. SendEmptyPacket app flags s = Inr (s\<lparr>sk_rto := sk_cnTimeout s, sk_advWnd := rx_room (sk_rx s),
      sk_rcvWindShift := (if sk_winScalingEnabled s then CalculateWScale s else sk_rcvWindShift s),
      sk_synCount := sk_synCount s - 1, sk_history := h, sk_delAckEvent := de, sk_delAckCount := dc,
      sk_highTxAck := hta, sk_retxEvent := rt, sk_sent := sk_sent s @ [\<lparr> sg_packet = [], sg_header = syn_header flags ep s,
        sg_source = ep_localAddress ep, sg_destination = ep_peerAddress ep \<rparr>]\<rparr>)"
proof -
  have bits: "\<not> has_flag flags FIN" "has_flag flags SYN" "flags \<noteq> ACK"
    using assms(2) by (auto simp: has_flag_def FIN_def SYN_def ACK_def)
  let ?r = "s\<lparr>sk_rto := max (backoff_rto s) (sk_minRto s)\<rparr>"
  let ?s = "?r\<lparr>sk_advWnd := rx_room (sk_rx s)\<rparr>"
  have eq: "syn_extras ?s = syn_extras s" "CalculateWScale ?s = CalculateWScale s"
    "sk_rcvWindShift ?s = sk_rcvWindShift s" "sk_winScalingEnabled ?s = sk_winScalingEnabled s"
    by (simp_all add: syn_extras_def fun_eq_iff)
  have "\<exists>h. syn_part app (m_nextTxSequence (sk_tcb s)) (syn_base flags ep s) ?s
    = Inr (Some (syn_extras ?s (syn_base flags ep s), win_field False (sk_rx ?s) 0 (sk_maxWinSize ?s)),
    ?s\<lparr>sk_rcvWindShift := (if sk_winScalingEnabled ?s then CalculateWScale ?s else sk_rcvWindShift ?s),
      sk_rto := sk_cnTimeout ?s, sk_synCount := sk_synCount ?s - 1, sk_history := h, sk_advWnd := rx_room (sk_rx ?s)\<rparr>)"
    by (rule syn_part_syn) (use assms bits in \<open>simp_all add: add_options_keeps syn_base_def\<close>)
  then obtain h where h: "syn_part app (m_nextTxSequence (sk_tcb s)) (syn_base flags ep s) ?s
    = Inr (Some (syn_extras s (syn_base flags ep s), win_field False (sk_rx s) 0 (sk_maxWinSize s)),
      ?s\<lparr>sk_rcvWindShift := (if sk_winScalingEnabled s then CalculateWScale s else sk_rcvWindShift s),
        sk_rto := sk_cnTimeout s, sk_synCount := sk_synCount s - 1, sk_history := h, sk_advWnd := rx_room (sk_rx s)\<rparr>)"
    unfolding eq by auto
  have base: "AddOptions s (new_TcpHeader\<lparr>h_flags := flags, h_sequenceNumber := m_nextTxSequence (sk_tcb s),
      h_ackNumber := rx_nextRxSeq (sk_rx s), h_sourcePort := ep_localPort ep, h_destinationPort := ep_peerPort ep\<rparr>)
    = syn_base flags ep s"
    by (simp add: syn_base_def)
  have size: "GetSackListSize (sk_rx s) = 0"
    using assms(3) by (simp add: GetSackListSize_def)
  let ?q = "m_nextTxSequence (sk_tcb s)"
  have sq: "(if has_flag flags FIN then ?q else if sk_state s \<in> {FIN_WAIT_1, LAST_ACK, CLOSING} then ?q + 1 else ?q) = ?q"
    "(if has_flag flags FIN then flags OR ACK else flags) = flags"
    using bits(1) assms(7) by simp_all
  define k where "k = (if sk_winScalingEnabled s then CalculateWScale s else sk_rcvWindShift s)"
  define x where "x = syn_extras s (syn_base flags ep s)"
  define w where "w = win_field False (sk_rx s) 0 (sk_maxWinSize s)"
  have hd: "syn_header flags ep s = x\<lparr>h_windowSize := w\<rparr>"
    by (simp add: syn_header_def x_def w_def)
  note h' = h [folded k_def x_def w_def]
  have "SendEmptyPacket app flags s = Inr (s\<lparr>sk_rto := sk_cnTimeout s, sk_advWnd := rx_room (sk_rx s),
      sk_rcvWindShift := k, sk_synCount := sk_synCount s - 1, sk_history := h,
      sk_delAckEvent := (if has_flag flags ACK then None else sk_delAckEvent s),
      sk_delAckCount := (if has_flag flags ACK then 0 else sk_delAckCount s),
      sk_highTxAck := (if has_flag flags ACK \<and> seq_lt (sk_highTxAck s) (rx_nextRxSeq (sk_rx s))
        then rx_nextRxSeq (sk_rx s) else sk_highTxAck s),
      sk_retxEvent := (if sk_retxEvent s = None then Some (sk_now s + sk_cnTimeout s, SendEmptyPacketEvent flags)
        else sk_retxEvent s),
      sk_sent := sk_sent s @ [\<lparr> sg_packet = [], sg_header = x\<lparr>h_windowSize := w\<rparr>,
        sg_source = ep_localAddress ep, sg_destination = ep_peerAddress ep \<rparr>]\<rparr>)"
  proof -
    have ack: "h_ackNumber x = rx_nextRxSeq (sk_rx s)"
      using syn_header_fields(4) [of flags ep s] by (simp add: hd)
    show ?thesis
      unfolding SendEmptyPacket_def assms(4) option.case Let_def sq base
      by (cases "has_flag flags ACK"; cases "sk_retxEvent s"; cases "seq_lt (sk_highTxAck s) (rx_nextRxSeq (sk_rx s))")
        (simp_all add: adv_eq assms(1) bits h' size ack SendPacket_def)
  qed
  then show ?thesis
    unfolding hd k_def by blast
qed

subsection \<open>Arrival\<close>

lemma arrive_eq:
  assumes "hdr_ok (sg_header sg)" "\<not> h_calcChecksum (sg_header sg)" "sg_packet sg = []" "sk_endPoint s = Some ep"
  shows "arrive sg s = DoForwardUp quiet (\<lambda>_ _. True) [] (received (sg_header sg) new_TcpHeader) (sg_source sg)
    (h_sourcePort (sg_header sg)) (sg_destination sg) (ep_localPort ep) s"
proof -
  have "\<not> h_calcChecksum new_TcpHeader"
    by (simp add: new_TcpHeader_def)
  from parse_written_header [OF assms(1,2) this, of "[]"] obtain b where b: "Serialize (sg_header sg) [] = Inr b"
    "length b = 20 + 4 * options_words (sg_header sg)"
    "Deserialize b new_TcpHeader = Inr (received (sg_header sg) new_TcpHeader, of_nat (length b))"
    by auto
  have "options_words (sg_header sg) \<le> 10"
    using assms(1) by (auto simp: hdr_ok_def options_words_def)
  then have n: "20 \<le> length b" "length b \<le> 60"
    using b(2) by simp_all
  then have u: "unat (of_nat (length b) :: u32) = length b"
    by simp
  moreover have "(of_nat (length b) :: u32) \<noteq> 0"
  proof
    assume "(of_nat (length b) :: u32) = 0"
    then have "unat (of_nat (length b) :: u32) = 0"
      by (metis unat_0)
    with u n show False by linarith
  qed
  ultimately have "\<not> (of_nat (length b) = (0 :: u32) \<or> of_nat (length b) > (60 :: u32))" "drop (unat (of_nat (length b) :: u32)) b = []"
    "pkt_size b - of_nat (length b) = 0"
    using n by (simp_all add: word_less_nat_alt pkt_size_def)
  then show ?thesis
    by (simp add: arrive_def assms(3,4) b ForwardUp_def forward_up_def IsValidTcpSegment_def forward_ce_def)
qed

text \<open>What the handlers read of a header and its options.\<close>

lemma received_fields [simp]:
  "h_flags (received h r) = h_flags h" "h_sequenceNumber (received h r) = h_sequenceNumber h"
  "h_ackNumber (received h r) = h_ackNumber h" "h_windowSize (received h r) = h_windowSize h"
  "h_sourcePort (received h r) = h_sourcePort h" "h_destinationPort (received h r) = h_destinationPort h"
  "h_options (received h r) = padded (h_options h)"
  by (simp_all add: received_def)

lemma find_padded: "k \<noteq> 0 \<Longrightarrow> List.find (\<lambda>op. GetKind op = k) (padded l) = List.find (\<lambda>op. GetKind op = k) l"
proof -
  assume "k \<noteq> 0"
  then have "List.find (\<lambda>op. GetKind op = k) (l @ [TcpOptionEnd]) = List.find (\<lambda>op. GetKind op = k) l"
    by (induction l) auto
  then show ?thesis
    by (simp add: padded_def)
qed

lemma syn_option_lookup:
  assumes "h_options h = syn_options s"
  shows "GetOption 3 (received h r) = (if sk_winScalingEnabled s then Some (TcpOptionWinScale (CalculateWScale s)) else None)"
    "GetOption 4 (received h r) = (if sk_sackEnabled s then Some TcpOptionSackPermitted else None)"
    "GetOption 8 (received h r) = (if sk_timestampEnabled s
      then Some (TcpOptionTS (NowToTsValue (sk_now s)) (sk_timestampToEcho s)) else None)"
    "GetOption 16 (received h r) = (if sk_congestionWindowEnabled s then Some (TcpOptionCwnd (m_cWnd (sk_tcb s))) else None)"
  by (simp_all add: GetOption_def assms find_padded) (simp_all add: syn_options_def base_options_def)

lemma HasOption_iff: "HasOption k h \<longleftrightarrow> GetOption k h \<noteq> None"
  by (auto simp: HasOption_def GetOption_def find_None_iff list_ex_iff)

subsection \<open>The first round-trip time\<close>

lemma EstimateRtt_first:
  assumes "m_nSamples (sk_rtt s) = 0" "\<And>op. GetOption 8 h = Some op \<Longrightarrow> \<exists>a b. op = TcpOptionTS a b"
  shows "\<exists>hs r rto l m. EstimateRtt h s = Inr (s\<lparr>sk_history := hs, sk_rtt := r, sk_rto := rto,
    sk_tcb := (sk_tcb s)\<lparr>m_lastRtt := l, m_minRtt := m\<rparr>\<rparr>)"
proof -
  have "\<exists>m. rtt_sample h s = Inr m"
  proof (cases "HasOption 8 h")
    case True
    then obtain a b where "GetOption 8 h = Some (TcpOptionTS a b)"
      using assms(2) HasOption_iff by blast
    then show ?thesis
      by (auto simp: rtt_sample_def Let_def split: list.split)
  qed (auto simp: rtt_sample_def split: list.split)
  then obtain m where m: "rtt_sample h s = Inr m"
    by blast
  define hs where "hs = dropWhile (\<lambda>x. \<not> seq_gt (rh_seq x + rh_count x) (h_ackNumber h)) (sk_history s)"
  show ?thesis
  proof (cases "m = 0")
    case True
    then have "EstimateRtt h s = Inr (s\<lparr>sk_history := hs\<rparr>)"
      using m by (simp add: EstimateRtt_def hs_def)
    then show ?thesis
      by (intro exI [of _ hs] exI [of _ "sk_rtt s"] exI [of _ "sk_rto s"] exI [of _ "m_lastRtt (sk_tcb s)"]
          exI [of _ "m_minRtt (sk_tcb s)"]) simp
  next
    case False
    obtain r where r: "RttMeasurement (sk_rtt s) m = Inr r"
      using assms(1) by (simp add: RttMeasurement_def)
    let ?s = "s\<lparr>sk_history := hs, sk_rtt := r\<rparr>"
    have "EstimateRtt h s = Inr (s\<lparr>sk_history := hs, sk_rtt := r, sk_rto := max (backoff_rto ?s) (sk_minRto s),
        sk_tcb := (sk_tcb s)\<lparr>m_lastRtt := GetEstimate r, m_minRtt := min (GetEstimate r) (m_minRtt (sk_tcb s))\<rparr>\<rparr>)"
      using m r False by (simp add: EstimateRtt_def Let_def upd_tcb_def flip: hs_def)
    then show ?thesis
      by blast
  qed
qed

subsection \<open>The options of a SYN\<close>

text \<open>Each option is used when both sockets have it, and switched off otherwise.\<close>

lemma flag_self:
  "sk_winScalingEnabled s \<Longrightarrow> s\<lparr>sk_winScalingEnabled := True\<rparr> = s" "sk_sackEnabled s \<Longrightarrow> s\<lparr>sk_sackEnabled := True\<rparr> = s"
  "sk_timestampEnabled s \<Longrightarrow> s\<lparr>sk_timestampEnabled := True\<rparr> = s"
  "sk_congestionWindowEnabled s \<Longrightarrow> s\<lparr>sk_congestionWindowEnabled := True\<rparr> = s"
  by (cases s; simp)+


lemma process_wscale: "ProcessOptionWScale (TcpOptionWinScale (CalculateWScale u)) s = Inr (s\<lparr>sk_sndWindShift := CalculateWScale u\<rparr>)"
proof -
  have "CalculateWScale u \<le> 14"
    using CalculateWScale_le(1) [of u] by (simp only: not_less)
  then show ?thesis
    by (simp only: ProcessOptionWScale_def GetScale_def TcpOption.case ns_assert_True bindE_simps not_less [symmetric]
        if_False CalculateWScale_le(1) simp_thms ns_assert_def if_True)
qed

lemma process_timestamp:
  "\<exists>a b e. ProcessOptionTimestamp (TcpOptionTS ts echo) q s = Inr (s\<lparr>sk_timestampToEcho := e,
    sk_tcb := (sk_tcb s)\<lparr>m_rcvTimestampValue := a, m_rcvTimestampEchoReply := b\<rparr>\<rparr>)"
proof -
  let ?c = "q = rx_nextRxSeq (sk_rx s) \<and> seq_le q (sk_highTxAck s)"
  consider "m_rcvTimestampValue (sk_tcb s) > ts" | "\<not> m_rcvTimestampValue (sk_tcb s) > ts" "q = rx_nextRxSeq (sk_rx s)" "seq_le q (sk_highTxAck s)"
    | "\<not> m_rcvTimestampValue (sk_tcb s) > ts" "\<not> ?c"
    by blast
  then show ?thesis
  proof cases
    case 1
    show ?thesis
      by (rule exI [of _ "m_rcvTimestampValue (sk_tcb s)"], rule exI [of _ "m_rcvTimestampEchoReply (sk_tcb s)"],
          rule exI [of _ "sk_timestampToEcho s"]) (use 1 in \<open>simp add: ProcessOptionTimestamp_def\<close>)
  next
    case 2
    show ?thesis
      by (rule exI [of _ ts], rule exI [of _ echo], rule exI [of _ ts]) (use 2 in \<open>simp add: ProcessOptionTimestamp_def Let_def upd_tcb_def\<close>)
  next
    case 3
    show ?thesis
      by (rule exI [of _ ts], rule exI [of _ echo], rule exI [of _ "sk_timestampToEcho s"])
        (use 3(1) in \<open>simp add: ProcessOptionTimestamp_def Let_def upd_tcb_def if_not_P [OF 3(2)]\<close>)
  qed
qed

lemma process_cwnd:
  "\<exists>c d. ProcessOptionCongestionWindow (TcpOptionCwnd w) s
    = Inr (s\<lparr>sk_cwndDiff := d, sk_tcb := (sk_tcb s)\<lparr>m_rcvCwndValue := c\<rparr>\<rparr>)"
  by (rule exI [of _ w], rule exI [of _ "sint (w - m_rcvCwndValue (sk_tcb s))"])
    (simp add: ProcessOptionCongestionWindow_def upd_tcb_def)

lemma syn_option_each:
  assumes "h_options h = syn_options u"
  shows "syn_option 3 (received h r) (sk_winScalingEnabled s) ProcessOptionWScale
      (\<lambda>s. s\<lparr>sk_winScalingEnabled := False\<rparr>) s
    = Inr (s\<lparr>sk_sndWindShift := (if sk_winScalingEnabled u \<and> sk_winScalingEnabled s then CalculateWScale u
          else sk_sndWindShift s), sk_winScalingEnabled := sk_winScalingEnabled u \<and> sk_winScalingEnabled s\<rparr>)"
    "syn_option 4 (received h r) (sk_sackEnabled s) ProcessOptionSackPermitted
      (\<lambda>s. s\<lparr>sk_sackEnabled := False, sk_tx := SetSackEnabled False (sk_tx s)\<rparr>) s
    = Inr (s\<lparr>sk_sackEnabled := sk_sackEnabled u \<and> sk_sackEnabled s,
        sk_tx := (if sk_sackEnabled u \<and> sk_sackEnabled s then sk_tx s else SetSackEnabled False (sk_tx s))\<rparr>)"
    "\<exists>a b e. syn_option 8 (received h r) (sk_timestampEnabled s) (\<lambda>op. ProcessOptionTimestamp op q)
      (\<lambda>s. s\<lparr>sk_timestampEnabled := False\<rparr>) s
    = Inr (s\<lparr>sk_timestampEnabled := sk_timestampEnabled u \<and> sk_timestampEnabled s, sk_timestampToEcho := e,
        sk_tcb := (sk_tcb s)\<lparr>m_rcvTimestampValue := a, m_rcvTimestampEchoReply := b\<rparr>\<rparr>)"
    "\<exists>c d. syn_option 16 (received h r) (sk_congestionWindowEnabled s) ProcessOptionCongestionWindow
      (\<lambda>s. s\<lparr>sk_congestionWindowEnabled := False\<rparr>) s
    = Inr (s\<lparr>sk_congestionWindowEnabled := sk_congestionWindowEnabled u \<and> sk_congestionWindowEnabled s, sk_cwndDiff := d,
        sk_tcb := (sk_tcb s)\<lparr>m_rcvCwndValue := c\<rparr>\<rparr>)"
proof -
  note look = syn_option_lookup [OF assms, of r]
  show "syn_option 3 (received h r) (sk_winScalingEnabled s) ProcessOptionWScale
      (\<lambda>s. s\<lparr>sk_winScalingEnabled := False\<rparr>) s
    = Inr (s\<lparr>sk_sndWindShift := (if sk_winScalingEnabled u \<and> sk_winScalingEnabled s then CalculateWScale u
          else sk_sndWindShift s), sk_winScalingEnabled := sk_winScalingEnabled u \<and> sk_winScalingEnabled s\<rparr>)"
    by (cases "sk_winScalingEnabled u"; cases "sk_winScalingEnabled s")
      (simp_all add: syn_option_def look process_wscale flip: flag_self(1))
  show "syn_option 4 (received h r) (sk_sackEnabled s) ProcessOptionSackPermitted
      (\<lambda>s. s\<lparr>sk_sackEnabled := False, sk_tx := SetSackEnabled False (sk_tx s)\<rparr>) s
    = Inr (s\<lparr>sk_sackEnabled := sk_sackEnabled u \<and> sk_sackEnabled s,
        sk_tx := (if sk_sackEnabled u \<and> sk_sackEnabled s then sk_tx s else SetSackEnabled False (sk_tx s))\<rparr>)"
    by (cases "sk_sackEnabled u"; cases "sk_sackEnabled s")
      (simp_all add: syn_option_def look ProcessOptionSackPermitted_def flip: flag_self(2))
  show "\<exists>a b e. syn_option 8 (received h r) (sk_timestampEnabled s) (\<lambda>op. ProcessOptionTimestamp op q)
      (\<lambda>s. s\<lparr>sk_timestampEnabled := False\<rparr>) s
    = Inr (s\<lparr>sk_timestampEnabled := sk_timestampEnabled u \<and> sk_timestampEnabled s, sk_timestampToEcho := e,
        sk_tcb := (sk_tcb s)\<lparr>m_rcvTimestampValue := a, m_rcvTimestampEchoReply := b\<rparr>\<rparr>)"
  proof (cases "sk_timestampEnabled u \<and> sk_timestampEnabled s")
    case True
    with process_timestamp [of "NowToTsValue (sk_now u)" "sk_timestampToEcho u" q s] obtain a b e
      where "ProcessOptionTimestamp (TcpOptionTS (NowToTsValue (sk_now u)) (sk_timestampToEcho u)) q s
        = Inr (s\<lparr>sk_timestampToEcho := e, sk_tcb := (sk_tcb s)\<lparr>m_rcvTimestampValue := a, m_rcvTimestampEchoReply := b\<rparr>\<rparr>)"
      by blast
    with True show ?thesis
      by (intro exI [of _ a] exI [of _ b] exI [of _ e]) (simp add: syn_option_def look flip: flag_self(3))
  next
    case False
    then show ?thesis
      by (intro exI [of _ "m_rcvTimestampValue (sk_tcb s)"] exI [of _ "m_rcvTimestampEchoReply (sk_tcb s)"]
          exI [of _ "sk_timestampToEcho s"]) (auto simp: syn_option_def look)
  qed
  show "\<exists>c d. syn_option 16 (received h r) (sk_congestionWindowEnabled s) ProcessOptionCongestionWindow
      (\<lambda>s. s\<lparr>sk_congestionWindowEnabled := False\<rparr>) s
    = Inr (s\<lparr>sk_congestionWindowEnabled := sk_congestionWindowEnabled u \<and> sk_congestionWindowEnabled s, sk_cwndDiff := d,
        sk_tcb := (sk_tcb s)\<lparr>m_rcvCwndValue := c\<rparr>\<rparr>)"
  proof (cases "sk_congestionWindowEnabled u \<and> sk_congestionWindowEnabled s")
    case True
    with process_cwnd [of "m_cWnd (sk_tcb u)" s] obtain c d
      where "ProcessOptionCongestionWindow (TcpOptionCwnd (m_cWnd (sk_tcb u))) s
        = Inr (s\<lparr>sk_cwndDiff := d, sk_tcb := (sk_tcb s)\<lparr>m_rcvCwndValue := c\<rparr>\<rparr>)"
      by blast
    with True show ?thesis
      by (intro exI [of _ c] exI [of _ d]) (simp add: syn_option_def look flip: flag_self(4))
  next
    case False
    then show ?thesis
      by (intro exI [of _ "m_rcvCwndValue (sk_tcb s)"] exI [of _ "sk_cwndDiff s"]) (auto simp: syn_option_def look)
  qed
qed

text \<open>
  The socket behind the SYN of \<open>u\<close>: the options are agreed on, the window is the one of the
  header, and besides the congestion state only the timestamps change.
\<close>

lemma forward_syn_agrees:
  assumes "h_options h = syn_options u" "m_nSamples (sk_rtt s) = 0"
  shows "\<exists>a b c d e hi hs r rto l m w x. forward_syn (received h r0) s = Inr (s\<lparr>sk_rWnd := ucast (h_windowSize h),
      sk_sndWindShift := (if sk_winScalingEnabled u \<and> sk_winScalingEnabled s then CalculateWScale u else sk_sndWindShift s),
      sk_winScalingEnabled := sk_winScalingEnabled u \<and> sk_winScalingEnabled s,
      sk_sackEnabled := sk_sackEnabled u \<and> sk_sackEnabled s,
      sk_tx := (if sk_sackEnabled u \<and> sk_sackEnabled s then sk_tx s else SetSackEnabled False (sk_tx s)),
      sk_timestampEnabled := sk_timestampEnabled u \<and> sk_timestampEnabled s, sk_timestampToEcho := e,
      sk_congestionWindowEnabled := sk_congestionWindowEnabled u \<and> sk_congestionWindowEnabled s, sk_cwndDiff := d,
      sk_highRxAckMark := hi, sk_history := hs, sk_rto := rto,
      sk_rtt := (if has_flag (h_flags h) ACK then r else sk_rtt s),
      sk_tcb := (sk_tcb s)\<lparr>m_rcvTimestampValue := a, m_rcvTimestampEchoReply := b, m_rcvCwndValue := c,
        m_cWnd := w, m_cWndInfl := w, m_ssThresh := x, m_lastRtt := l, m_minRtt := m\<rparr>\<rparr>)"
proof -
  let ?h = "received h r0"
  define k where "k = (if sk_winScalingEnabled u \<and> sk_winScalingEnabled s then CalculateWScale u else sk_sndWindShift s)"
  define ws where "ws \<longleftrightarrow> sk_winScalingEnabled u \<and> sk_winScalingEnabled s"
  define sack where "sack \<longleftrightarrow> sk_sackEnabled u \<and> sk_sackEnabled s"
  define tx where "tx = (if sack then sk_tx s else SetSackEnabled False (sk_tx s))"
  define ts where "ts \<longleftrightarrow> sk_timestampEnabled u \<and> sk_timestampEnabled s"
  define cw where "cw \<longleftrightarrow> sk_congestionWindowEnabled u \<and> sk_congestionWindowEnabled s"
  let ?s0 = "s\<lparr>sk_rWnd := ucast (h_windowSize h)\<rparr>"
  let ?s1 = "?s0\<lparr>sk_sndWindShift := k, sk_winScalingEnabled := ws\<rparr>"
  let ?s2 = "?s1\<lparr>sk_sackEnabled := sack, sk_tx := tx\<rparr>"
  note ops = syn_option_each [OF assms(1), of r0]
  have 1: "syn_option 3 ?h (sk_winScalingEnabled s) ProcessOptionWScale (\<lambda>s. s\<lparr>sk_winScalingEnabled := False\<rparr>) ?s0 = Inr ?s1"
    using ops(1) [of ?s0] by (simp add: k_def ws_def)
  have 2: "syn_option 4 ?h (sk_sackEnabled s) ProcessOptionSackPermitted
      (\<lambda>s. s\<lparr>sk_sackEnabled := False, sk_tx := SetSackEnabled False (sk_tx s)\<rparr>) ?s1 = Inr ?s2"
    using ops(2) [of ?s1] by (simp add: sack_def tx_def)
  obtain a b e where 3: "syn_option 8 ?h (sk_timestampEnabled s) (\<lambda>op. ProcessOptionTimestamp op (h_sequenceNumber h))
      (\<lambda>s. s\<lparr>sk_timestampEnabled := False\<rparr>) ?s2
    = Inr (?s2\<lparr>sk_timestampEnabled := ts, sk_timestampToEcho := e,
        sk_tcb := (sk_tcb s)\<lparr>m_rcvTimestampValue := a, m_rcvTimestampEchoReply := b\<rparr>\<rparr>)"
    using ops(3) [of ?s2 "h_sequenceNumber h"] by (auto simp: ts_def)
  let ?s3 = "?s2\<lparr>sk_timestampEnabled := ts, sk_timestampToEcho := e,
        sk_tcb := (sk_tcb s)\<lparr>m_rcvTimestampValue := a, m_rcvTimestampEchoReply := b\<rparr>\<rparr>"
  obtain c d where 4: "syn_option 16 ?h (sk_congestionWindowEnabled s) ProcessOptionCongestionWindow
      (\<lambda>s. s\<lparr>sk_congestionWindowEnabled := False\<rparr>) ?s3
    = Inr (?s3\<lparr>sk_congestionWindowEnabled := cw, sk_cwndDiff := d,
        sk_tcb := (sk_tcb s)\<lparr>m_rcvTimestampValue := a, m_rcvTimestampEchoReply := b, m_rcvCwndValue := c\<rparr>\<rparr>)"
    using ops(4) [of ?s3] by (auto simp: cw_def)
  let ?w = "m_initialCWnd (sk_tcb s) * m_segmentSize (sk_tcb s)" and ?x = "m_initialSsThresh (sk_tcb s)"
  define t where "t = s\<lparr>sk_rWnd := ucast (h_windowSize h), sk_sndWindShift := k, sk_winScalingEnabled := ws,
      sk_sackEnabled := sack, sk_tx := tx, sk_timestampEnabled := ts, sk_timestampToEcho := e,
      sk_congestionWindowEnabled := cw, sk_cwndDiff := d,
      sk_tcb := (sk_tcb s)\<lparr>m_rcvTimestampValue := a, m_rcvTimestampEchoReply := b, m_rcvCwndValue := c,
        m_cWnd := ?w, m_cWndInfl := ?w, m_ssThresh := ?x\<rparr>\<rparr>"
  have f: "forward_syn ?h s = (if has_flag (h_flags h) ACK
      then bindE (EstimateRtt ?h t) (\<lambda>s. Inr (s\<lparr>sk_highRxAckMark := h_ackNumber h\<rparr>)) else Inr t)"
    by (simp add: forward_syn_def Let_def upd_tcb_def 1 2 3 4 flip: t_def)
  have t: "m_nSamples (sk_rtt t) = 0"
    by (simp add: t_def assms(2))
  have look: "\<exists>x y. op = TcpOptionTS x y" if "GetOption 8 ?h = Some op" for op
    using that syn_option_lookup(3) [OF assms(1), of r0] by (auto split: if_splits)
  have "\<exists>a b c d e hi hs r rto l m w x. forward_syn ?h s = Inr (s\<lparr>sk_rWnd := ucast (h_windowSize h),
      sk_sndWindShift := k, sk_winScalingEnabled := ws, sk_sackEnabled := sack, sk_tx := tx,
      sk_timestampEnabled := ts, sk_timestampToEcho := e, sk_congestionWindowEnabled := cw, sk_cwndDiff := d,
      sk_highRxAckMark := hi, sk_history := hs, sk_rto := rto,
      sk_rtt := (if has_flag (h_flags h) ACK then r else sk_rtt s),
      sk_tcb := (sk_tcb s)\<lparr>m_rcvTimestampValue := a, m_rcvTimestampEchoReply := b, m_rcvCwndValue := c,
        m_cWnd := w, m_cWndInfl := w, m_ssThresh := x, m_lastRtt := l, m_minRtt := m\<rparr>\<rparr>)"
  proof (cases "has_flag (h_flags h) ACK")
    case True
    from EstimateRtt_first [OF t look] obtain hs r rto l m where "EstimateRtt ?h t = Inr (t\<lparr>sk_history := hs, sk_rtt := r,
        sk_rto := rto, sk_tcb := (sk_tcb t)\<lparr>m_lastRtt := l, m_minRtt := m\<rparr>\<rparr>)"
      by blast
    with f True have e: "forward_syn ?h s = Inr (t\<lparr>sk_history := hs, sk_rtt := r, sk_rto := rto,
        sk_tcb := (sk_tcb t)\<lparr>m_lastRtt := l, m_minRtt := m\<rparr>, sk_highRxAckMark := h_ackNumber h\<rparr>)"
      by simp
    show ?thesis
      by (rule exI [of _ a], rule exI [of _ b], rule exI [of _ c], rule exI [of _ d], rule exI [of _ e], 
          rule exI [of _ "h_ackNumber h"], rule exI [of _ hs], rule exI [of _ r], rule exI [of _ rto], rule exI [of _ l],
          rule exI [of _ m], rule exI [of _ ?w], rule exI [of _ ?x]) (simp add: e True t_def)
  next
    case False
    show ?thesis
      by (rule exI [of _ a], rule exI [of _ b], rule exI [of _ c], rule exI [of _ d], rule exI [of _ e], 
          rule exI [of _ "sk_highRxAckMark s"], rule exI [of _ "sk_history s"], rule exI [of _ "sk_rtt s"],
          rule exI [of _ "sk_rto s"], rule exI [of _ "m_lastRtt (sk_tcb s)"],
          rule exI [of _ "m_minRtt (sk_tcb s)"], rule exI [of _ ?w], rule exI [of _ ?x]) (simp add: f False t_def)
  qed
  then show ?thesis
    unfolding k_def tx_def ws_def sack_def ts_def cw_def .
qed

subsection \<open>Sockets ready to connect\<close>

text \<open>
  An unused socket: empty buffers, no scaling yet, no sample of the round-trip
  time, and neither pacing nor ECN.  Which options it has enabled, its initial sequence number
  and its algorithms are free.
\<close>

definition unused :: "sock \<Rightarrow> bool" where
  "unused s \<longleftrightarrow> tx_wf (sk_tx s) \<and> tx_sentList (sk_tx s) = [] \<and> tx_appList (sk_tx s) = []
    \<and> rx_data (sk_rx s) = [] \<and> rx_sackList (sk_rx s) = [] \<and> \<not> rx_gotFin (sk_rx s)
    \<and> unat (rx_maxBuffer (sk_rx s)) < 2 ^ 31
    \<and> sk_rcvWindShift s = 0 \<and> sk_sndWindShift s = 0 \<and> sk_persistEvent s = None \<and> 0 < sk_synRetries s
    \<and> m_nSamples (sk_rtt s) = 0 \<and> \<not> m_pacing (sk_tcb s) \<and> 0 < m_segmentSize (sk_tcb s)
    \<and> m_useEcn (sk_tcb s) = EcnOff"

lemma rx_room_empty: "rx_data rx = [] \<Longrightarrow> \<not> rx_gotFin rx \<Longrightarrow> rx_room rx = rx_maxBuffer rx"
  by (simp add: rx_room_def MaxRxSequence_def)

lemma unused_open: "unused s \<Longrightarrow> rx_open (sk_rx s)" "unused s \<Longrightarrow> rx_room (sk_rx s) = rx_maxBuffer (sk_rx s)"
  by (auto simp: unused_def rx_open_def rx_room_empty)

text \<open>Persist probing starts with a zero window, and only a wider one ends it.\<close>

lemma forward_persist_eq:
  assumes "sk_persistEvent s = None"
  shows "\<exists>re pe. forward_persist s = s\<lparr>sk_retxEvent := re, sk_persistEvent := pe\<rparr> \<and> (sk_rWnd s = 0 \<or> pe = None)"
proof (cases "sk_rWnd s = 0")
  case True
  then show ?thesis
    using assms by (auto simp: forward_persist_def)
next
  case False
  have "s = s\<lparr>sk_retxEvent := sk_retxEvent s, sk_persistEvent := None\<rparr>"
    by (cases s) (use assms in simp)
  with False show ?thesis
    by (metis forward_persist_def)
qed

lemma forward_unpersist_id: "sk_rWnd s = 0 \<or> sk_persistEvent s = None \<Longrightarrow> forward_unpersist app s = Inr s"
  by (auto simp: forward_unpersist_def)

lemma connect_sends_syn:
  assumes "unused c" "sk_state c = CLOSED" "sk_endPoint c = Some ep"
  shows "\<exists>w n d rto h de dc hta rt. connect_bound quiet c = Inr (c\<lparr>sk_rtt := RttReset (sk_rtt c), sk_dataRetrCount := d,
      sk_rto := rto, sk_advWnd := w,
      sk_rcvWindShift := (if sk_winScalingEnabled c then CalculateWScale c else 0), sk_synCount := n,
      sk_history := h, sk_delAckEvent := de, sk_delAckCount := dc, sk_highTxAck := hta, sk_retxEvent := rt,
      sk_sent := sk_sent c @ [\<lparr> sg_packet = [], sg_header = syn_header SYN ep c,
        sg_source = ep_localAddress ep, sg_destination = ep_peerAddress ep \<rparr>],
      sk_state := SYN_SENT, sk_tcb := (sk_tcb c)\<lparr>m_ecnState := ECN_DISABLED\<rparr>\<rparr>)"
proof -
  let ?c = "c\<lparr>sk_rtt := RttReset (sk_rtt c), sk_synCount := sk_synRetries c, sk_dataRetrCount := sk_dataRetries c\<rparr>"
  have eq: "CalculateWScale ?c = CalculateWScale c" "syn_header SYN ep ?c = syn_header SYN ep c"
    by (simp_all add: CalculateWScale_def syn_header_def syn_extras_def syn_base_def option_adders Let_def)
  have pre: "rx_open (sk_rx ?c)" "SYN = SYN \<or> SYN = SYN OR ACK" "rx_sackList (sk_rx ?c) = []" "endpoint ?c = Some ep"
    "0 < sk_synCount ?c" "sk_synRetries ?c = sk_synCount ?c" "sk_state ?c \<notin> {FIN_WAIT_1, LAST_ACK, CLOSING}"
    using assms unused_open by (simp_all add: unused_def endpoint_def)
  obtain h de dc hta rt where "SendEmptyPacket quiet SYN ?c = Inr (?c\<lparr>sk_rto := sk_cnTimeout ?c, sk_advWnd := rx_room (sk_rx ?c),
      sk_rcvWindShift := (if sk_winScalingEnabled ?c then CalculateWScale ?c else sk_rcvWindShift ?c),
      sk_synCount := sk_synCount ?c - 1, sk_history := h, sk_delAckEvent := de, sk_delAckCount := dc,
      sk_highTxAck := hta, sk_retxEvent := rt, sk_sent := sk_sent ?c @ [\<lparr> sg_packet = [], sg_header = syn_header SYN ep ?c,
        sg_source = ep_localAddress ep, sg_destination = ep_peerAddress ep \<rparr>]\<rparr>)"
    using SendEmptyPacket_syn [OF pre] by blast
  then have "connect_bound quiet c = Inr (c\<lparr>sk_rtt := RttReset (sk_rtt c), sk_dataRetrCount := sk_dataRetries c,
      sk_rto := sk_cnTimeout c, sk_advWnd := rx_room (sk_rx c),
      sk_rcvWindShift := (if sk_winScalingEnabled c then CalculateWScale c else 0), sk_synCount := sk_synRetries c - 1,
      sk_history := h, sk_delAckEvent := de, sk_delAckCount := dc, sk_highTxAck := hta, sk_retxEvent := rt,
      sk_sent := sk_sent c @ [\<lparr> sg_packet = [], sg_header = syn_header SYN ep c,
        sg_source = ep_localAddress ep, sg_destination = ep_peerAddress ep \<rparr>],
      sk_state := SYN_SENT, sk_tcb := (sk_tcb c)\<lparr>m_ecnState := ECN_DISABLED\<rparr>\<rparr>)"
    using assms unfolding eq by (simp add: connect_bound_def DoConnect_def unused_def set_ecn_def upd_tcb_def)
  then show ?thesis
    by blast
qed

subsection \<open>The accepted socket\<close>

text \<open>Nothing was sent or received yet, without pacing and ECN.\<close>

definition idle :: "sock \<Rightarrow> bool" where
  "idle s \<longleftrightarrow> rx_open (sk_rx s) \<and> rx_sackList (sk_rx s) = [] \<and> rx_data (sk_rx s) = []
    \<and> tx_wf (sk_tx s) \<and> tx_sentList (sk_tx s) = [] \<and> tx_appList (sk_tx s) = []
    \<and> \<not> m_pacing (sk_tcb s) \<and> 0 < m_segmentSize (sk_tcb s) \<and> m_useEcn (sk_tcb s) = EcnOff"

text \<open>
  What both sockets have in common once a SYN was exchanged: \<open>s\<close> comes from the unused socket
  \<open>b\<close> and has seen the SYN of \<open>u\<close>.
\<close>

definition opened :: "sock \<Rightarrow> sock \<Rightarrow> sock \<Rightarrow> bool" where
  "opened u b s \<longleftrightarrow>
    (sk_winScalingEnabled s \<longleftrightarrow> sk_winScalingEnabled u \<and> sk_winScalingEnabled b)
    \<and> (sk_sackEnabled s \<longleftrightarrow> sk_sackEnabled u \<and> sk_sackEnabled b)
    \<and> (sk_timestampEnabled s \<longleftrightarrow> sk_timestampEnabled u \<and> sk_timestampEnabled b)
    \<and> (sk_congestionWindowEnabled s \<longleftrightarrow> sk_congestionWindowEnabled u \<and> sk_congestionWindowEnabled b)
    \<and> sk_sndWindShift s = (if sk_winScalingEnabled u \<and> sk_winScalingEnabled b then CalculateWScale u else 0)
    \<and> CalculateWScale s = CalculateWScale b \<and> rx_maxBuffer (sk_rx s) = rx_maxBuffer (sk_rx b)
    \<and> sk_maxWinSize s = sk_maxWinSize b \<and> idle s"

lemma openedD:
  assumes "opened u b s"
  shows "sk_winScalingEnabled s = (sk_winScalingEnabled u \<and> sk_winScalingEnabled b)"
    "sk_sackEnabled s = (sk_sackEnabled u \<and> sk_sackEnabled b)"
    "sk_timestampEnabled s = (sk_timestampEnabled u \<and> sk_timestampEnabled b)"
    "sk_congestionWindowEnabled s = (sk_congestionWindowEnabled u \<and> sk_congestionWindowEnabled b)"
    "sk_sndWindShift s = (if sk_winScalingEnabled u \<and> sk_winScalingEnabled b then CalculateWScale u else 0)"
    "CalculateWScale s = CalculateWScale b" "rx_maxBuffer (sk_rx s) = rx_maxBuffer (sk_rx b)"
    "sk_maxWinSize s = sk_maxWinSize b" "idle s"
  using assms unfolding opened_def by blast+

lemma SetSackEnabled_wf [simp]:
  "tx_wf (SetSackEnabled b tx) = tx_wf tx" "tx_sentList (SetSackEnabled b tx) = tx_sentList tx"
  "tx_appList (SetSackEnabled b tx) = tx_appList tx"
  by (simp_all add: SetSackEnabled_def tx_wf_def ConsistencyCheck_iff tx_items_def)

lemma CalculateWScale_cong:
  "rx_maxBuffer (sk_rx s) = rx_maxBuffer (sk_rx t) \<Longrightarrow> sk_maxWinSize s = sk_maxWinSize t
    \<Longrightarrow> CalculateWScale s = CalculateWScale t"
  by (simp add: CalculateWScale_def)

lemma syn_arrives:
  assumes "unused s" "sk_endPoint s = Some ep" "hdr_ok h0" "\<not> h_calcChecksum h0" "h_options h0 = syn_options u"
    and "h_flags h0 = SYN" "sk_state s = LISTEN"
  shows "\<exists>t. arrive \<lparr> sg_packet = [], sg_header = h0, sg_source = a, sg_destination = b \<rparr> s = Inr (Some ((Fork t)\<lparr>sk_later :=
      [LaterCompleteFork [] (received h0 new_TcpHeader) a (h_sourcePort h0) b (ep_localPort ep)]\<rparr>), t)
    \<and> opened u s t \<and> sk_rx t = sk_rx s \<and> sk_maxWinSize t = sk_maxWinSize s \<and> sk_rcvWindShift t = 0
    \<and> m_nextTxSequence (sk_tcb t) = m_nextTxSequence (sk_tcb s) \<and> sk_synRetries t = sk_synRetries s
    \<and> m_nSamples (sk_rtt t) = 0 \<and> sk_state t = LISTEN"
proof -
  let ?h = "received h0 new_TcpHeader"
  have flags: "has_flag SYN SYN" "\<not> has_flag SYN ACK" "event_flags ?h = SYN"
    using assms(6) by (simp_all add: has_flag_def SYN_def ACK_def event_flags_def PSH_def URG_def CWR_def ECE_def)
  have "m_nSamples (sk_rtt s) = 0"
    using assms(1) by (simp add: unused_def)
  from forward_syn_agrees [OF assms(5) this, of new_TcpHeader] flags(2) assms(6)
  obtain aa b' c d e hi hs r rto l m w x where f: "forward_syn ?h s = Inr (s\<lparr>sk_rWnd := ucast (h_windowSize h0),
      sk_sndWindShift := (if sk_winScalingEnabled u \<and> sk_winScalingEnabled s then CalculateWScale u else sk_sndWindShift s),
      sk_winScalingEnabled := sk_winScalingEnabled u \<and> sk_winScalingEnabled s,
      sk_sackEnabled := sk_sackEnabled u \<and> sk_sackEnabled s,
      sk_tx := (if sk_sackEnabled u \<and> sk_sackEnabled s then sk_tx s else SetSackEnabled False (sk_tx s)),
      sk_timestampEnabled := sk_timestampEnabled u \<and> sk_timestampEnabled s, sk_timestampToEcho := e,
      sk_congestionWindowEnabled := sk_congestionWindowEnabled u \<and> sk_congestionWindowEnabled s, sk_cwndDiff := d,
      sk_highRxAckMark := hi, sk_history := hs, sk_rto := rto, sk_rtt := sk_rtt s,
      sk_tcb := (sk_tcb s)\<lparr>m_rcvTimestampValue := aa, m_rcvTimestampEchoReply := b', m_rcvCwndValue := c,
        m_cWnd := w, m_cWndInfl := w, m_ssThresh := x, m_lastRtt := l, m_minRtt := m\<rparr>\<rparr>)" (is "_ = Inr ?t0")
    by auto
  obtain re pe where p: "forward_persist ?t0 = ?t0\<lparr>sk_retxEvent := re, sk_persistEvent := pe\<rparr>" "sk_rWnd ?t0 = 0 \<or> pe = None"
    using forward_persist_eq [of ?t0] assms(1) by (auto simp: unused_def)
  define t where "t = ?t0\<lparr>sk_retxEvent := re, sk_persistEvent := pe\<rparr>"
  have st: "sk_state t = LISTEN" "forward_persist ?t0 = t" "sk_rWnd t = 0 \<or> sk_persistEvent t = None"
    using assms(7) p by (simp_all add: t_def)
  have "opened u s t"
    using assms(1) by (simp add: opened_def idle_def t_def unused_def unused_open CalculateWScale_def)
  moreover have "arrive \<lparr> sg_packet = [], sg_header = h0, sg_source = a, sg_destination = b \<rparr> s = Inr (Some ((Fork t)\<lparr>sk_later :=
      [LaterCompleteFork [] ?h a (h_sourcePort h0) b (ep_localPort ep)]\<rparr>), t)"
    using arrive_eq [of "\<lparr> sg_packet = [], sg_header = h0, sg_source = a, sg_destination = b \<rparr>" s ep] assms(2-4,6,7) flags st
    by (simp add: DoForwardUp_def forward_cwr_def Let_def f ProcessListen_def forward_state_def forward_unpersist_id)
  ultimately show ?thesis
    using assms(1,7) by (intro exI [of _ t]) (simp add: t_def unused_def)
qed

lemma rx_open_next: "rx_open rx \<Longrightarrow> rx_data rx = [] \<Longrightarrow> rx_open (SetNextRxSequence q rx)"
  by (auto simp: rx_open_def rx_room_empty SetNextRxSequence_def)

text \<open>The accepted socket answers with SYN and ACK.\<close>

lemma fork_replies:
  assumes "opened u b t" "sk_rcvWindShift t = 0" "0 < sk_synRetries t" "m_nSamples (sk_rtt t) = 0"
  shows "\<exists>s s1 h2. run_fork ((Fork t)\<lparr>sk_later := [LaterCompleteFork [] h a port (Ipv4Address x) port']\<rparr>) = Inr s
    \<and> last (sk_sent s) = \<lparr> sg_packet = [], sg_header = h2, sg_source = Ipv4Address x, sg_destination = a \<rparr>
    \<and> hdr_ok h2 \<and> \<not> h_calcChecksum h2 \<and> h_options h2 = syn_options s1 \<and> h_flags h2 = SYN OR ACK
    \<and> h_sequenceNumber h2 = m_nextTxSequence (sk_tcb t) \<and> h_ackNumber h2 = h_sequenceNumber h + 1
    \<and> opened u b s1 \<and> opened u b s \<and> sk_state s = SYN_RCVD
    \<and> sk_endPoint s = Some \<lparr> ep_localAddress = Ipv4Address x, ep_localPort = port', ep_peerAddress = a, ep_peerPort = port \<rparr>
    \<and> m_nextTxSequence (sk_tcb s) = m_nextTxSequence (sk_tcb t) \<and> rx_nextRxSeq (sk_rx s) = h_sequenceNumber h + 1
    \<and> sk_rcvWindShift s = (if sk_winScalingEnabled s then CalculateWScale s else 0)
    \<and> m_nSamples (sk_rtt s) = 0 \<and> sk_persistEvent s = None \<and> m_ecnState (sk_tcb s) = ECN_DISABLED"
proof -
  let ?ep = "\<lparr> ep_localAddress = Ipv4Address x, ep_localPort = port', ep_peerAddress = a, ep_peerPort = port \<rparr>"
  define s1 where "s1 = (Fork t)\<lparr>sk_later := [], sk_endPoint := Some ?ep, sk_endPoint6 := None, sk_state := SYN_RCVD, sk_synCount := sk_synRetries t,
    sk_dataRetrCount := sk_dataRetries t, sk_rx := SetNextRxSequence (h_sequenceNumber h + 1) (sk_rx t)\<rparr>"
  have o: "opened u b s1"
    using assms(1) by (simp add: opened_def idle_def s1_def Fork_def rx_open_next) (simp add: SetNextRxSequence_def CalculateWScale_def)
  have e: "endpoint s1 = Some ?ep"
    by (simp add: s1_def endpoint_def)
  have f: "sk_rcvWindShift s1 = 0" "m_nextTxSequence (sk_tcb s1) = m_nextTxSequence (sk_tcb t)"
    "rx_nextRxSeq (sk_rx s1) = h_sequenceNumber h + 1" "m_nSamples (sk_rtt s1) = 0" "sk_persistEvent s1 = None"
    "sk_endPoint s1 = Some ?ep" "sk_state s1 = SYN_RCVD"
    using assms by (simp_all add: s1_def Fork_def SetNextRxSequence_def)
  have c: "run_fork ((Fork t)\<lparr>sk_later := [LaterCompleteFork [] h a port (Ipv4Address x) port']\<rparr>)
    = bindE (SendEmptyPacket quiet (SYN OR ACK) s1) (\<lambda>s. Inr (set_ecn ECN_DISABLED s))"
    using assms(1) by (simp add: run_fork_def CompleteFork_def Let_def s1_def Fork_def opened_def idle_def)
  have pre: "rx_open (sk_rx s1)" "SYN OR ACK = SYN \<or> SYN OR ACK = SYN OR ACK" "rx_sackList (sk_rx s1) = []"
    "0 < sk_synCount s1" "sk_synRetries s1 = sk_synCount s1" "sk_state s1 \<notin> {FIN_WAIT_1, LAST_ACK, CLOSING}"
    using o assms(3) by (simp_all add: opened_def idle_def s1_def Fork_def)
  obtain hs de dc hta rt where r: "SendEmptyPacket quiet (SYN OR ACK) s1
    = Inr (s1\<lparr>sk_rto := sk_cnTimeout s1, sk_advWnd := rx_room (sk_rx s1),
      sk_rcvWindShift := (if sk_winScalingEnabled s1 then CalculateWScale s1 else sk_rcvWindShift s1),
      sk_synCount := sk_synCount s1 - 1, sk_history := hs, sk_delAckEvent := de, sk_delAckCount := dc,
      sk_highTxAck := hta, sk_retxEvent := rt, sk_sent := sk_sent s1 @ [\<lparr> sg_packet = [],
        sg_header = syn_header (SYN OR ACK) ?ep s1, sg_source = ep_localAddress ?ep, sg_destination = ep_peerAddress ?ep \<rparr>]\<rparr>)"
    (is "_ = Inr ?s2")
    using SendEmptyPacket_syn [OF pre(1-3) e pre(4-6)] by blast
  have o2: "opened u b (set_ecn ECN_DISABLED ?s2)"
    using o by (simp add: opened_def idle_def set_ecn_def upd_tcb_def CalculateWScale_def)
  have w: "CalculateWScale (set_ecn ECN_DISABLED ?s2) = CalculateWScale s1"
    by (simp add: set_ecn_def upd_tcb_def CalculateWScale_def)
  show ?thesis
    by (rule exI [of _ "set_ecn ECN_DISABLED ?s2"], rule exI [of _ s1], rule exI [of _ "syn_header (SYN OR ACK) ?ep s1"],
        unfold w) (use o o2 f in \<open>simp add: c r syn_header_ok syn_header_fields\<close>, simp add: set_ecn_def upd_tcb_def f)
qed

subsection \<open>Established\<close>

lemma idle_tx:
  assumes "tx_wf tx" "tx_sentList tx = []" "tx_appList tx = []"
  shows "tx_size tx = 0" "TxBytesInFlight tx = Inr 0" "tx_wf (tx\<lparr>tx_firstByteSeq := q, tx_highestSack := hs\<rparr>)"
  using assms by (simp_all add: tx_wf_def tx_items_def ConsistencyCheck_iff TxBytesInFlight_def)

lemma send_pending_idle: "tx_size (sk_tx s) = 0 \<Longrightarrow> send_pending app b s = Inr s"
  by (simp add: send_pending_def SendPendingData_def)

lemma UpdatePacingRate_off: "\<not> m_pacing (sk_tcb s) \<Longrightarrow> UpdatePacingRate s = Inr s"
  by (simp add: UpdatePacingRate_def Let_def)

lemma establish_eq:
  "\<exists>cc. establish s = s\<lparr>sk_congestionControl := cc, sk_tcb := (sk_tcb s)\<lparr>m_congState := CA_OPEN\<rparr>,
    sk_state := ESTABLISHED, sk_connected := True, sk_retxEvent := None\<rparr>"
proof -
  obtain cc where "cc_CongestionStateSet CA_OPEN s = s\<lparr>sk_congestionControl := cc\<rparr>"
  proof (cases "sk_congestionControl s")
    case CC_NewReno
    then have "cc_CongestionStateSet CA_OPEN s = s\<lparr>sk_congestionControl := sk_congestionControl s\<rparr>"
      by (simp add: cc_CongestionStateSet_def Base_CongestionStateSet_def upd_tcb_def)
    then show thesis by (rule that)
  next
    case (CC_LinuxReno n)
    then have "cc_CongestionStateSet CA_OPEN s = s\<lparr>sk_congestionControl := sk_congestionControl s\<rparr>"
      by (simp add: cc_CongestionStateSet_def Base_CongestionStateSet_def upd_tcb_def)
    then show thesis by (rule that)
  qed (auto simp: cc_CongestionStateSet_def intro: that)
  then show ?thesis
    by (intro exI [of _ cc]) (simp add: establish_def upd_tcb_def)
qed

lemma advance_syn_eq:
  "tx_sentList (sk_tx s) = [] \<Longrightarrow> advance_syn s = Inr (s\<lparr>sk_tcb := (sk_tcb s)\<lparr>m_nextTxSequence := m_nextTxSequence (sk_tcb s) + 1,
      m_highTxMark := m_nextTxSequence (sk_tcb s) + 1\<rparr>,
    sk_tx := (sk_tx s)\<lparr>tx_firstByteSeq := m_nextTxSequence (sk_tcb s) + 1, tx_highestSack := (None, 0)\<rparr>\<rparr>)"
  by (simp add: advance_syn_def SetHeadSequence_def upd_tcb_def Let_def)

text \<open>The client answers the SYN and ACK with an ACK.\<close>

lemma syn_sent_acks:
  assumes "opened u b t" "sk_endPoint t = Some ep" "h_flags h = SYN OR ACK" "h_ackNumber h = m_nextTxSequence (sk_tcb t) + 1"
  shows "\<exists>c a h3. ProcessSynSent quiet [] h t = Inr c
    \<and> last (sk_sent c) = \<lparr> sg_packet = [], sg_header = h3, sg_source = ep_localAddress ep, sg_destination = ep_peerAddress ep \<rparr>
    \<and> hdr_ok h3 \<and> \<not> h_calcChecksum h3 \<and> h_options h3 = base_options a \<and> h_flags h3 = ACK
    \<and> h_sequenceNumber h3 = m_nextTxSequence (sk_tcb t) + 1 \<and> h_ackNumber h3 = h_sequenceNumber h + 1
    \<and> opened u b a \<and> opened u b c \<and> sk_state c = ESTABLISHED \<and> sk_connected c
    \<and> m_nextTxSequence (sk_tcb c) = m_nextTxSequence (sk_tcb t) + 1 \<and> m_highTxMark (sk_tcb c) = m_nextTxSequence (sk_tcb t) + 1
    \<and> tx_firstByteSeq (sk_tx c) = m_nextTxSequence (sk_tcb t) + 1 \<and> rx_nextRxSeq (sk_rx c) = h_sequenceNumber h + 1
    \<and> sk_rcvWindShift c = sk_rcvWindShift t \<and> sk_persistEvent c = sk_persistEvent t \<and> sk_rWnd c = sk_rWnd t"
proof -
  obtain cc where e: "establish t = t\<lparr>sk_congestionControl := cc, sk_tcb := (sk_tcb t)\<lparr>m_congState := CA_OPEN\<rparr>,
    sk_state := ESTABLISHED, sk_connected := True, sk_retxEvent := None\<rparr>"
    using establish_eq by blast
  let ?n = "m_nextTxSequence (sk_tcb t) + 1"
  define a where "a = t\<lparr>sk_congestionControl := cc, sk_state := ESTABLISHED, sk_connected := True, sk_retxEvent := None,
    sk_rx := SetNextRxSequence (h_sequenceNumber h + 1) (sk_rx t),
    sk_tcb := (sk_tcb t)\<lparr>m_congState := CA_OPEN, m_nextTxSequence := ?n, m_highTxMark := ?n\<rparr>,
    sk_tx := (sk_tx t)\<lparr>tx_firstByteSeq := ?n, tx_highestSack := (None, 0)\<rparr>\<rparr>"
  define c where "c = (set_ecn ECN_DISABLED (after_ack ACK ep a))\<lparr>sk_later := sk_later t @ [LaterConnectionSucceeded],
    sk_delAckCount := sk_delAckMaxCount t\<rparr>"
  note tx = idle_tx [of "sk_tx t"]
  have w: "CalculateWScale a = CalculateWScale t" "CalculateWScale c = CalculateWScale t"
    by (simp_all add: c_def a_def after_ack_def set_ecn_def upd_tcb_def CalculateWScale_def SetNextRxSequence_def)
  have o: "opened u b a"
    using assms(1) tx unfolding opened_def idle_def w by (simp add: a_def rx_open_next) (simp add: SetNextRxSequence_def)
  have o': "opened u b c"
    using o unfolding opened_def idle_def w by (simp add: c_def after_ack_def set_ecn_def upd_tcb_def)
  have win: "window_ok a"
    using o by (simp add: opened_def idle_def window_ok_def adv_window_def rx_open_def rx_room_def)
  have ep: "endpoint a = Some ep" "endpoint t = Some ep"
    using assms(2) by (simp_all add: endpoint_def a_def)
  have size: "tx_size (sk_tx (after_ack ACK ep a)) = 0" "\<not> m_pacing (sk_tcb a)" "m_useEcn (sk_tcb a) = EcnOff"
    "rx_sackList (sk_rx a) = []" "tx_sentList (sk_tx t) = []"
    using o tx assms(1) by (simp_all add: opened_def idle_def after_ack_def a_def)
  have flags: "event_flags_ecn h = SYN OR ACK" "has_flag (SYN OR ACK) ACK" "has_flag (SYN OR ACK) SYN"
    "has_flag (SYN OR ACK) (SYN OR ACK)" "SYN OR ACK \<noteq> (0 :: u8)"
    using assms(3) by (simp_all add: event_flags_ecn_def has_flag_def SYN_def ACK_def PSH_def URG_def)
  have adv: "advance_syn ((establish t)\<lparr>sk_rx := SetNextRxSequence (h_sequenceNumber h + 1) (sk_rx t)\<rparr>) = Inr a"
    using size(5) by (simp add: e advance_syn_eq a_def)
  have fields: "m_useEcn (sk_tcb (after_ack ACK ep a)) = EcnOff" "sk_later (after_ack ACK ep a) = sk_later t"
    "sk_delAckMaxCount (after_ack ACK ep a) = sk_delAckMaxCount t" "sk_rx (establish t) = sk_rx t"
    using size by (simp_all add: after_ack_def a_def e)
  have "ProcessSynSent quiet [] h t = Inr c"
    using flags size adv ep win assms(4) fields
    by (simp add: ProcessSynSent_def Let_def UpdatePacingRate_off SendEmptyPacket_ack ack_flags_def send_pending_idle
        set_ecn_def upd_tcb_def c_def)
  moreover have "last (sk_sent c) = \<lparr> sg_packet = [], sg_header = ack_header ACK ep a, sg_source = ep_localAddress ep,
      sg_destination = ep_peerAddress ep \<rparr>"
    by (simp add: c_def set_ecn_def upd_tcb_def after_ack_def ack_segment_def)
  moreover have "hdr_ok (ack_header ACK ep a)" "h_options (ack_header ACK ep a) = base_options a"
    using ack_header_ok [of a ACK ep] size(4) by (simp_all add: ack_options_def base_options_def)
  moreover have "h_sequenceNumber (ack_header ACK ep a) = ?n" "h_ackNumber (ack_header ACK ep a) = h_sequenceNumber h + 1"
    "h_flags (ack_header ACK ep a) = ACK" "\<not> h_calcChecksum (ack_header ACK ep a)"
    by (simp_all add: ack_header_def Let_def add_options_keeps ack_sequence_def a_def SetNextRxSequence_def) (simp add: new_TcpHeader_def)
  moreover have "sk_state c = ESTABLISHED" "sk_connected c" "m_nextTxSequence (sk_tcb c) = ?n" "m_highTxMark (sk_tcb c) = ?n"
    "tx_firstByteSeq (sk_tx c) = ?n" "rx_nextRxSeq (sk_rx c) = h_sequenceNumber h + 1"
    "sk_rcvWindShift c = sk_rcvWindShift t" "sk_persistEvent c = sk_persistEvent t" "sk_rWnd c = sk_rWnd t"
    by (simp_all add: c_def set_ecn_def upd_tcb_def after_ack_def a_def SetNextRxSequence_def)
  ultimately show ?thesis
    using o o' by blast
qed

lemma syn_ack_arrives:
  assumes "sk_state s = SYN_SENT" "sk_endPoint s = Some ep" "idle s" "m_nSamples (sk_rtt s) = 0" "sk_persistEvent s = None"
    and "sk_sndWindShift s = 0"
    and "hdr_ok h2" "\<not> h_calcChecksum h2" "h_options h2 = syn_options u" "h_flags h2 = SYN OR ACK"
    and "h_ackNumber h2 = m_nextTxSequence (sk_tcb s) + 1"
  shows "\<exists>c a h3. arrive \<lparr> sg_packet = [], sg_header = h2, sg_source = x, sg_destination = y \<rparr> s = Inr (None, c)
    \<and> last (sk_sent c) = \<lparr> sg_packet = [], sg_header = h3, sg_source = ep_localAddress ep, sg_destination = ep_peerAddress ep \<rparr>
    \<and> hdr_ok h3 \<and> \<not> h_calcChecksum h3 \<and> h_options h3 = base_options a \<and> h_flags h3 = ACK
    \<and> h_sequenceNumber h3 = m_nextTxSequence (sk_tcb s) + 1 \<and> h_ackNumber h3 = h_sequenceNumber h2 + 1
    \<and> opened u s a \<and> opened u s c \<and> sk_state c = ESTABLISHED \<and> sk_connected c
    \<and> m_nextTxSequence (sk_tcb c) = m_nextTxSequence (sk_tcb s) + 1 \<and> m_highTxMark (sk_tcb c) = m_nextTxSequence (sk_tcb s) + 1
    \<and> tx_firstByteSeq (sk_tx c) = m_nextTxSequence (sk_tcb s) + 1 \<and> rx_nextRxSeq (sk_rx c) = h_sequenceNumber h2 + 1
    \<and> sk_rcvWindShift c = sk_rcvWindShift s"
proof -
  let ?h = "received h2 new_TcpHeader"
  have flags: "has_flag (h_flags h2) SYN" "has_flag (h_flags h2) ACK"
    using assms(10) by (simp_all add: has_flag_def SYN_def ACK_def)
  from forward_syn_agrees [OF assms(9,4), of new_TcpHeader]
  obtain aa b' c d e hi hs r rto l m w x' where f: "forward_syn ?h s = Inr (s\<lparr>sk_rWnd := ucast (h_windowSize h2),
      sk_sndWindShift := (if sk_winScalingEnabled u \<and> sk_winScalingEnabled s then CalculateWScale u else sk_sndWindShift s),
      sk_winScalingEnabled := sk_winScalingEnabled u \<and> sk_winScalingEnabled s,
      sk_sackEnabled := sk_sackEnabled u \<and> sk_sackEnabled s,
      sk_tx := (if sk_sackEnabled u \<and> sk_sackEnabled s then sk_tx s else SetSackEnabled False (sk_tx s)),
      sk_timestampEnabled := sk_timestampEnabled u \<and> sk_timestampEnabled s, sk_timestampToEcho := e,
      sk_congestionWindowEnabled := sk_congestionWindowEnabled u \<and> sk_congestionWindowEnabled s, sk_cwndDiff := d,
      sk_highRxAckMark := hi, sk_history := hs, sk_rto := rto, sk_rtt := (if has_flag (h_flags h2) ACK then r else sk_rtt s),
      sk_tcb := (sk_tcb s)\<lparr>m_rcvTimestampValue := aa, m_rcvTimestampEchoReply := b', m_rcvCwndValue := c,
        m_cWnd := w, m_cWndInfl := w, m_ssThresh := x', m_lastRtt := l, m_minRtt := m\<rparr>\<rparr>)" (is "_ = Inr ?t0")
    by blast
  obtain re pe where p: "forward_persist ?t0 = ?t0\<lparr>sk_retxEvent := re, sk_persistEvent := pe\<rparr>" "sk_rWnd ?t0 = 0 \<or> pe = None"
    using forward_persist_eq [of ?t0] assms(5) by auto
  define t where "t = ?t0\<lparr>sk_retxEvent := re, sk_persistEvent := pe\<rparr>"
  have st: "sk_state t = SYN_SENT" "forward_persist ?t0 = t" "sk_rWnd t = 0 \<or> sk_persistEvent t = None" "sk_endPoint t = Some ep"
    "m_nextTxSequence (sk_tcb t) = m_nextTxSequence (sk_tcb s)" "sk_rcvWindShift t = sk_rcvWindShift s"
    using assms(1,2) p by (simp_all add: t_def)
  have o: "opened u s t"
    using assms(3,6) by (simp add: opened_def idle_def t_def CalculateWScale_def)
  obtain c a h3 where c: "ProcessSynSent quiet [] ?h t = Inr c" "sk_persistEvent c = sk_persistEvent t" "sk_rWnd c = sk_rWnd t"
    and c': "last (sk_sent c) = \<lparr> sg_packet = [], sg_header = h3, sg_source = ep_localAddress ep, sg_destination = ep_peerAddress ep \<rparr>
    \<and> hdr_ok h3 \<and> \<not> h_calcChecksum h3 \<and> h_options h3 = base_options a \<and> h_flags h3 = ACK
    \<and> h_sequenceNumber h3 = m_nextTxSequence (sk_tcb t) + 1 \<and> h_ackNumber h3 = h_sequenceNumber ?h + 1
    \<and> opened u s a \<and> opened u s c \<and> sk_state c = ESTABLISHED \<and> sk_connected c
    \<and> m_nextTxSequence (sk_tcb c) = m_nextTxSequence (sk_tcb t) + 1 \<and> m_highTxMark (sk_tcb c) = m_nextTxSequence (sk_tcb t) + 1
    \<and> tx_firstByteSeq (sk_tx c) = m_nextTxSequence (sk_tcb t) + 1 \<and> rx_nextRxSeq (sk_rx c) = h_sequenceNumber ?h + 1
    \<and> sk_rcvWindShift c = sk_rcvWindShift t"
    using syn_sent_acks [OF o st(4), of ?h] assms(10,11) st(5) by auto
  have "forward_unpersist quiet c = Inr c"
    using st(3) c(2,3) by (intro forward_unpersist_id) simp
  then have "arrive \<lparr> sg_packet = [], sg_header = h2, sg_source = x, sg_destination = y \<rparr> s = Inr (None, c)"
    using arrive_eq [of "\<lparr> sg_packet = [], sg_header = h2, sg_source = x, sg_destination = y \<rparr>" s ep] assms(1,2,7,8) flags st c(1)
    by (simp add: DoForwardUp_def forward_cwr_def Let_def f forward_state_def)
  then show ?thesis
    using c' st(5,6) by (intro exI [of _ c] exI [of _ a] exI [of _ h3]) simp
qed

subsection \<open>The last segment\<close>

lemma base_option_lookup:
  assumes "h_options h = base_options a"
  shows "GetOption 8 (received h r) = (if sk_timestampEnabled a
      then Some (TcpOptionTS (NowToTsValue (sk_now a)) (sk_timestampToEcho a)) else None)"
    "GetOption 16 (received h r) = (if sk_congestionWindowEnabled a then Some (TcpOptionCwnd (m_cWnd (sk_tcb a))) else None)"
    "read_options (h_options (received h r)) 0 s = Inr (0, s)"
  by (simp_all add: GetOption_def assms find_padded) (simp_all add: padded_def base_options_def)

lemma forward_ack_base:
  assumes "h_options h = base_options a" "sk_timestampEnabled a = sk_timestampEnabled s"
    and "sk_congestionWindowEnabled a = sk_congestionWindowEnabled s"
    and "m_nSamples (sk_rtt s) = 0" "sk_state s = SYN_RCVD"
  shows "\<exists>e d hs r rto a b c l m w. forward_ack (received h r0) s = Inr (Some (s\<lparr>sk_timestampToEcho := e, sk_cwndDiff := d,
    sk_history := hs, sk_rtt := r, sk_rto := rto, sk_rWnd := w,
    sk_tcb := (sk_tcb s)\<lparr>m_rcvTimestampValue := a, m_rcvTimestampEchoReply := b, m_rcvCwndValue := c,
      m_lastRtt := l, m_minRtt := m\<rparr>\<rparr>))"
proof -
  let ?h = "received h r0"
  note look = base_option_lookup [OF assms(1), of r0]
  obtain av bv ev where 1: "(if sk_timestampEnabled s
              then case GetOption 8 ?h of
                     Some option \<Rightarrow> ProcessOptionTimestamp option (h_sequenceNumber ?h) s
                   | None \<Rightarrow> Inr s
              else Inr s) = Inr (s\<lparr>sk_timestampToEcho := ev,
        sk_tcb := (sk_tcb s)\<lparr>m_rcvTimestampValue := av, m_rcvTimestampEchoReply := bv\<rparr>\<rparr>)" (is "_ = Inr ?s1")
  proof (cases "sk_timestampEnabled s")
    case True
    with process_timestamp [of "NowToTsValue (sk_now a)" "sk_timestampToEcho a" "h_sequenceNumber ?h" s] show ?thesis
      using that look(1) assms(2) by auto
  next
    case False
    then show ?thesis
      using that [of "m_rcvTimestampEchoReply (sk_tcb s)" "m_rcvTimestampValue (sk_tcb s)" "sk_timestampToEcho s"] by simp
  qed
  have cw: "sk_congestionWindowEnabled ?s1 = sk_congestionWindowEnabled s"
    by simp
  obtain cv dv where 2: "syn_option 16 ?h (sk_congestionWindowEnabled ?s1) ProcessOptionCongestionWindow
      (\<lambda>s. s\<lparr>sk_congestionWindowEnabled := False\<rparr>) ?s1
    = Inr (?s1\<lparr>sk_cwndDiff := dv, sk_tcb := (sk_tcb ?s1)\<lparr>m_rcvCwndValue := cv\<rparr>\<rparr>)" (is "_ = Inr ?s2")
  proof (cases "sk_congestionWindowEnabled s")
    case True
    with process_cwnd [of "m_cWnd (sk_tcb a)" ?s1] show ?thesis
      using that look(2) assms(3) unfolding cw by (auto simp: syn_option_def)
  next
    case False
    have off: "?s1\<lparr>sk_congestionWindowEnabled := False\<rparr> = ?s1"
      by (cases s) (use False in simp)
    show ?thesis
      using that [of "m_rcvCwndValue (sk_tcb s)" "sk_cwndDiff s"] False look(2) assms(3) off
      unfolding cw by (simp add: syn_option_def)
  qed
  have n: "m_nSamples (sk_rtt ?s2) = 0"
    using assms(4) by simp
  have "\<exists>x y. op = TcpOptionTS x y" if "GetOption 8 ?h = Some op" for op
    using that look(1) by (auto split: if_splits)
  from EstimateRtt_first [OF n this] obtain hs r rto l m where 3: "EstimateRtt ?h ?s2 = Inr (?s2\<lparr>sk_history := hs, sk_rtt := r,
      sk_rto := rto, sk_tcb := (sk_tcb ?s2)\<lparr>m_lastRtt := l, m_minRtt := m\<rparr>\<rparr>)" (is "_ = Inr ?s3")
    by blast
  have "UpdateWindowSize ?h ?s3 = ?s3\<lparr>sk_rWnd := push_bit (unat (sk_sndWindShift s)) (ucast (h_windowSize h))\<rparr>"
    using assms(5) by (simp add: UpdateWindowSize_def Let_def less_TcpStates_def)
  moreover have "\<not> (sk_timestampEnabled s \<and> \<not> HasOption 8 ?h)"
    using assms(2) look(1) by (simp add: HasOption_iff)
  ultimately have f: "forward_ack ?h s = Inr (Some (?s3\<lparr>sk_rWnd := push_bit (unat (sk_sndWindShift s)) (ucast (h_windowSize h))\<rparr>))"
    unfolding forward_ack_def 1 by (simp only: bindE_simps 2 3 if_False)
  show ?thesis
    by (rule exI [of _ ev], rule exI [of _ dv], rule exI [of _ hs], rule exI [of _ r], rule exI [of _ rto], rule exI [of _ av],
        rule exI [of _ bv], rule exI [of _ cv], rule exI [of _ l], rule exI [of _ m],
        rule exI [of _ "push_bit (unat (sk_sndWindShift s)) (ucast (h_windowSize h))"]) (simp add: f)
qed

text \<open>An acknowledgement of nothing new, without data, on an idle socket.\<close>

lemma ReceivedAck_idle:
  assumes "has_flag (h_flags h) ACK" "0 < m_segmentSize (sk_tcb s)" "h_ackNumber h = tx_firstByteSeq (sk_tx s)"
    and "m_highTxMark (sk_tcb s) = tx_firstByteSeq (sk_tx s)" "\<And>x. read_options (h_options h) 0 x = Inr (0, x)"
    and "tx_size (sk_tx s) = 0" "TxBytesInFlight (sk_tx s) = Inr 0"
    and "m_congState (sk_tcb s) = CA_OPEN" "m_ecnState (sk_tcb s) = ECN_DISABLED"
  shows "\<exists>f q n ra. ReceivedAck app [] h s = Inr (s\<lparr>sk_tcb := (sk_tcb s)\<lparr>m_bytesInFlight := f, m_lastAckedSeq := q,
    m_lastAckedSackedBytes := n, m_isRetransDataAcked := ra\<rparr>\<rparr>)"
proof -
  let ?q = "tx_firstByteSeq (sk_tx s)"
  have q: "\<not> seq_lt ?q ?q" "\<not> seq_gt ?q ?q" "seq_ge ?q ?q"
    by (simp_all add: seq_lt_def seq_gt_def seq_ge_def)
  have "ReceivedAck app [] h s = Inr (s\<lparr>sk_tcb := (sk_tcb s)\<lparr>m_bytesInFlight := 0, m_lastAckedSeq := ?q,
    m_lastAckedSackedBytes := 0, m_isRetransDataAcked := False\<rparr>\<rparr>)"
    using assms q
    by (simp add: ReceivedAck_def ns_assert_def ReadOptions_def note_retrans_acked_def DiscardUpTo_def leave_cwr_def ecn_ack_def
        BytesInFlight_def ProcessAck_def cong_control_def Base_HasCongControl_def send_pending_idle upd_tcb_def Let_def pkt_size_def)
  then show ?thesis
    by blast
qed

lemma syn_rcvd_established:
  assumes "sk_state s = SYN_RCVD" "sk_endPoint s = Some ep" "opened u b s" "m_ecnState (sk_tcb s) = ECN_DISABLED"
    and "h_flags h = ACK" "h_ackNumber h = m_nextTxSequence (sk_tcb s) + 1" "\<And>x. read_options (h_options h) 0 x = Inr (0, x)"
  shows "\<exists>t. ProcessSynRcvd quiet [] h x port s = Inr t \<and> sk_state t = ESTABLISHED \<and> sk_connected t
    \<and> opened u b t \<and> m_nextTxSequence (sk_tcb t) = m_nextTxSequence (sk_tcb s) + 1
    \<and> m_highTxMark (sk_tcb t) = m_nextTxSequence (sk_tcb s) + 1 \<and> tx_firstByteSeq (sk_tx t) = m_nextTxSequence (sk_tcb s) + 1
    \<and> sk_rx t = sk_rx s \<and> sk_rcvWindShift t = sk_rcvWindShift s \<and> sk_persistEvent t = sk_persistEvent s \<and> sk_rWnd t = sk_rWnd s"
proof -
  obtain cc where e: "establish s = s\<lparr>sk_congestionControl := cc, sk_tcb := (sk_tcb s)\<lparr>m_congState := CA_OPEN\<rparr>,
    sk_state := ESTABLISHED, sk_connected := True, sk_retxEvent := None\<rparr>"
    using establish_eq by blast
  let ?n = "m_nextTxSequence (sk_tcb s) + 1"
  define a where "a = s\<lparr>sk_congestionControl := cc, sk_state := ESTABLISHED, sk_connected := True, sk_retxEvent := None,
    sk_tcb := (sk_tcb s)\<lparr>m_congState := CA_OPEN, m_nextTxSequence := ?n, m_highTxMark := ?n\<rparr>,
    sk_tx := (sk_tx s)\<lparr>tx_firstByteSeq := ?n, tx_highestSack := (None, 0)\<rparr>,
    sk_endPoint := Some (ep\<lparr>ep_peerAddress := x, ep_peerPort := port\<rparr>), sk_delAckCount := sk_delAckMaxCount s\<rparr>"
  have sl: "tx_sentList (sk_tx s) = []"
    using assms(3) by (simp add: opened_def idle_def)
  have a: "advance_syn (establish s) = Inr (a\<lparr>sk_endPoint := Some ep, sk_delAckCount := sk_delAckCount s\<rparr>)"
    unfolding e by (subst advance_syn_eq) (use sl assms(2) in \<open>simp_all add: a_def\<close>)
  have w: "CalculateWScale a = CalculateWScale s"
    by (simp add: a_def CalculateWScale_def)
  have tx: "tx_wf (sk_tx a)" "tx_sentList (sk_tx a) = []" "tx_appList (sk_tx a) = []"
    using assms(3) idle_tx(3) [of "sk_tx s"] by (simp_all add: opened_def idle_def a_def)
  have o: "opened u b a"
    using assms(3) tx unfolding opened_def idle_def w by (simp add: a_def)
  have "m_congState (sk_tcb a) = CA_OPEN" "m_ecnState (sk_tcb a) = ECN_DISABLED" "tx_firstByteSeq (sk_tx a) = ?n"
    "m_highTxMark (sk_tcb a) = ?n" "0 < m_segmentSize (sk_tcb a)"
    using assms(3,4) by (simp_all add: a_def opened_def idle_def)
  with ReceivedAck_idle [of h a quiet] idle_tx(1,2) [OF tx] assms(5,6,7) obtain f q n ra
    where r: "ReceivedAck quiet [] h a = Inr (a\<lparr>sk_tcb := (sk_tcb a)\<lparr>m_bytesInFlight := f, m_lastAckedSeq := q,
      m_lastAckedSackedBytes := n, m_isRetransDataAcked := ra\<rparr>\<rparr>)" (is "_ = Inr ?t")
    by (auto simp: has_flag_def ACK_def)
  have flags: "event_flags h = ACK"
    using assms(5) by (simp add: event_flags_def ACK_def PSH_def URG_def CWR_def ECE_def)
  have p: "set_peer x port (a\<lparr>sk_endPoint := Some ep, sk_delAckCount := sk_delAckCount s\<rparr>) = a\<lparr>sk_delAckCount := sk_delAckCount s\<rparr>"
    "a\<lparr>sk_delAckCount := sk_delAckMaxCount a\<rparr> = a"
    by (simp_all add: set_peer_def a_def)
  have pace: "\<not> m_pacing (sk_tcb ?t)"
    using o by (simp add: opened_def idle_def)
  have "ProcessSynRcvd quiet [] h x port s = Inr ?t"
    unfolding ProcessSynRcvd_def Let_def flags
    using a p r assms(6) UpdatePacingRate_off [OF pace] by (simp add: quiet_def notify_room_def)
  moreover have "opened u b ?t"
    using o by (simp add: opened_def idle_def CalculateWScale_def)
  moreover have "sk_state ?t = ESTABLISHED" "sk_connected ?t" "m_nextTxSequence (sk_tcb ?t) = ?n" "m_highTxMark (sk_tcb ?t) = ?n"
    "tx_firstByteSeq (sk_tx ?t) = ?n" "sk_rx ?t = sk_rx s" "sk_rcvWindShift ?t = sk_rcvWindShift s"
    "sk_persistEvent ?t = sk_persistEvent s" "sk_rWnd ?t = sk_rWnd s"
    by (simp_all add: a_def)
  ultimately show ?thesis
    by blast
qed

lemma ack_arrives:
  assumes "sk_state s = SYN_RCVD" "sk_endPoint s = Some ep" "opened u b s" "m_ecnState (sk_tcb s) = ECN_DISABLED"
    and "m_nSamples (sk_rtt s) = 0" "sk_persistEvent s = None"
    and "hdr_ok h3" "\<not> h_calcChecksum h3" "h_options h3 = base_options a" "h_flags h3 = ACK"
    and "h_ackNumber h3 = m_nextTxSequence (sk_tcb s) + 1"
    and "sk_timestampEnabled a = sk_timestampEnabled s" "sk_congestionWindowEnabled a = sk_congestionWindowEnabled s"
  shows "\<exists>t. arrive \<lparr> sg_packet = [], sg_header = h3, sg_source = x, sg_destination = y \<rparr> s = Inr (None, t)
    \<and> sk_state t = ESTABLISHED \<and> sk_connected t \<and> opened u b t
    \<and> m_nextTxSequence (sk_tcb t) = m_nextTxSequence (sk_tcb s) + 1
    \<and> m_highTxMark (sk_tcb t) = m_nextTxSequence (sk_tcb s) + 1 \<and> tx_firstByteSeq (sk_tx t) = m_nextTxSequence (sk_tcb s) + 1
    \<and> sk_rx t = sk_rx s \<and> sk_rcvWindShift t = sk_rcvWindShift s"
proof -
  let ?h = "received h3 new_TcpHeader"
  have flags: "\<not> has_flag (h_flags h3) SYN" "has_flag (h_flags h3) ACK"
    using assms(10) by (simp_all add: has_flag_def SYN_def ACK_def)
  from forward_ack_base [OF assms(9,12,13,5,1), of new_TcpHeader] obtain e d hs r rto a' b' c l m w
    where f: "forward_ack ?h s = Inr (Some (s\<lparr>sk_timestampToEcho := e, sk_cwndDiff := d,
      sk_history := hs, sk_rtt := r, sk_rto := rto, sk_rWnd := w,
      sk_tcb := (sk_tcb s)\<lparr>m_rcvTimestampValue := a', m_rcvTimestampEchoReply := b', m_rcvCwndValue := c,
        m_lastRtt := l, m_minRtt := m\<rparr>\<rparr>))" (is "_ = Inr (Some ?t0)")
    by blast
  obtain re pe where p: "forward_persist ?t0 = ?t0\<lparr>sk_retxEvent := re, sk_persistEvent := pe\<rparr>" "sk_rWnd ?t0 = 0 \<or> pe = None"
    using forward_persist_eq [of ?t0] assms(6) by auto
  define t where "t = ?t0\<lparr>sk_retxEvent := re, sk_persistEvent := pe\<rparr>"
  have st: "sk_state t = SYN_RCVD" "forward_persist ?t0 = t" "sk_rWnd t = 0 \<or> sk_persistEvent t = None" "sk_endPoint t = Some ep"
    "m_nextTxSequence (sk_tcb t) = m_nextTxSequence (sk_tcb s)" "sk_rcvWindShift t = sk_rcvWindShift s" "sk_rx t = sk_rx s"
    "m_ecnState (sk_tcb t) = ECN_DISABLED"
    using assms(1,2,4) p by (simp_all add: t_def)
  have o: "opened u b t"
    using assms(3) by (simp add: opened_def idle_def t_def CalculateWScale_def)
  obtain c where c: "ProcessSynRcvd quiet [] ?h x (h_sourcePort h3) t = Inr c" "sk_persistEvent c = sk_persistEvent t" "sk_rWnd c = sk_rWnd t"
    and c': "sk_state c = ESTABLISHED \<and> sk_connected c
    \<and> opened u b c \<and> m_nextTxSequence (sk_tcb c) = m_nextTxSequence (sk_tcb t) + 1
    \<and> m_highTxMark (sk_tcb c) = m_nextTxSequence (sk_tcb t) + 1 \<and> tx_firstByteSeq (sk_tx c) = m_nextTxSequence (sk_tcb t) + 1
    \<and> sk_rx c = sk_rx t \<and> sk_rcvWindShift c = sk_rcvWindShift t"
    using syn_rcvd_established [OF st(1,4) o st(8), of ?h x "h_sourcePort h3"] assms(10,11) st(5)
      base_option_lookup(3) [OF assms(9), of new_TcpHeader] by auto
  have "forward_unpersist quiet c = Inr c"
    using st(3) c(2,3) by (intro forward_unpersist_id) simp
  then have "arrive \<lparr> sg_packet = [], sg_header = h3, sg_source = x, sg_destination = y \<rparr> s = Inr (None, c)"
    using arrive_eq [of "\<lparr> sg_packet = [], sg_header = h3, sg_source = x, sg_destination = y \<rparr>" s ep] assms(1,2,7,8) flags st c(1)
    by (simp add: DoForwardUp_def forward_cwr_def Let_def f forward_state_def)
  then show ?thesis
    using c' st(5-7) by (intro exI [of _ c]) simp
qed

text \<open>What two connected sockets agree on.\<close>

definition agreed :: "sock \<Rightarrow> sock \<Rightarrow> bool" where
  "agreed c s \<longleftrightarrow>
    sk_state c = ESTABLISHED \<and> sk_state s = ESTABLISHED \<and> sk_connected c \<and> sk_connected s
    \<and> rx_nextRxSeq (sk_rx s) = m_nextTxSequence (sk_tcb c) \<and> rx_nextRxSeq (sk_rx c) = m_nextTxSequence (sk_tcb s)
    \<and> tx_firstByteSeq (sk_tx c) = m_nextTxSequence (sk_tcb c) \<and> tx_firstByteSeq (sk_tx s) = m_nextTxSequence (sk_tcb s)
    \<and> m_highTxMark (sk_tcb c) = m_nextTxSequence (sk_tcb c) \<and> m_highTxMark (sk_tcb s) = m_nextTxSequence (sk_tcb s)
    \<and> (sk_sackEnabled c \<longleftrightarrow> sk_sackEnabled s) \<and> (sk_timestampEnabled c \<longleftrightarrow> sk_timestampEnabled s)
    \<and> (sk_congestionWindowEnabled c \<longleftrightarrow> sk_congestionWindowEnabled s)
    \<and> (sk_winScalingEnabled c \<longleftrightarrow> sk_winScalingEnabled s)
    \<and> sk_sndWindShift c = sk_rcvWindShift s
    \<and> (sk_winScalingEnabled c \<longrightarrow> sk_sndWindShift s = sk_rcvWindShift c)"

lemma handshake_agreed:
  assumes "unused c" "sk_state c = CLOSED" "sk_endPoint c = Some ep" "ep_peerAddress ep = Ipv4Address x"
    and "unused l" "sk_state l = LISTEN" "sk_endPoint l = Some lp"
  shows "\<exists>c' s. handshake c l = Inr (c', s) \<and> agreed c' s
    \<and> m_nextTxSequence (sk_tcb c') = m_nextTxSequence (sk_tcb c) + 1
    \<and> m_nextTxSequence (sk_tcb s) = m_nextTxSequence (sk_tcb l) + 1
    \<and> (sk_winScalingEnabled s \<longleftrightarrow> sk_winScalingEnabled c \<and> sk_winScalingEnabled l)
    \<and> (sk_sackEnabled s \<longleftrightarrow> sk_sackEnabled c \<and> sk_sackEnabled l)
    \<and> (sk_timestampEnabled s \<longleftrightarrow> sk_timestampEnabled c \<and> sk_timestampEnabled l)
    \<and> (sk_congestionWindowEnabled s \<longleftrightarrow> sk_congestionWindowEnabled c \<and> sk_congestionWindowEnabled l)
    \<and> sk_sndWindShift s = (if sk_winScalingEnabled c \<and> sk_winScalingEnabled l then CalculateWScale c else 0)
    \<and> sk_rcvWindShift c' = (if sk_winScalingEnabled c then CalculateWScale c else 0)
    \<and> rx_maxBuffer (sk_rx c') = rx_maxBuffer (sk_rx c) \<and> sk_maxWinSize c' = sk_maxWinSize c \<and> idle c'"
proof -
  let ?h1 = "syn_header SYN ep c"
  obtain w n d rto h de dc hta rt where 1: "connect_bound quiet c = Inr (c\<lparr>sk_rtt := RttReset (sk_rtt c), sk_dataRetrCount := d,
      sk_rto := rto, sk_advWnd := w,
      sk_rcvWindShift := (if sk_winScalingEnabled c then CalculateWScale c else 0), sk_synCount := n,
      sk_history := h, sk_delAckEvent := de, sk_delAckCount := dc, sk_highTxAck := hta, sk_retxEvent := rt,
      sk_sent := sk_sent c @ [\<lparr> sg_packet = [], sg_header = ?h1,
        sg_source = ep_localAddress ep, sg_destination = ep_peerAddress ep \<rparr>],
      sk_state := SYN_SENT, sk_tcb := (sk_tcb c)\<lparr>m_ecnState := ECN_DISABLED\<rparr>\<rparr>)"
    using connect_sends_syn [OF assms(1-3)] by blast
  define c1 where "c1 = c\<lparr>sk_rtt := RttReset (sk_rtt c), sk_dataRetrCount := d,
      sk_rto := rto, sk_advWnd := w,
      sk_rcvWindShift := (if sk_winScalingEnabled c then CalculateWScale c else 0), sk_synCount := n,
      sk_history := h, sk_delAckEvent := de, sk_delAckCount := dc, sk_highTxAck := hta, sk_retxEvent := rt,
      sk_sent := sk_sent c @ [\<lparr> sg_packet = [], sg_header = ?h1,
        sg_source = ep_localAddress ep, sg_destination = ep_peerAddress ep \<rparr>],
      sk_state := SYN_SENT, sk_tcb := (sk_tcb c)\<lparr>m_ecnState := ECN_DISABLED\<rparr>\<rparr>"
  have c1: "sk_state c1 = SYN_SENT" "sk_endPoint c1 = Some ep" "m_nSamples (sk_rtt c1) = 0" "sk_persistEvent c1 = None"
    "sk_sndWindShift c1 = 0" "m_nextTxSequence (sk_tcb c1) = m_nextTxSequence (sk_tcb c)"
    "sk_rcvWindShift c1 = (if sk_winScalingEnabled c then CalculateWScale c else 0)"
    "sk_winScalingEnabled c1 = sk_winScalingEnabled c" "sk_sackEnabled c1 = sk_sackEnabled c"
    "sk_timestampEnabled c1 = sk_timestampEnabled c" "sk_congestionWindowEnabled c1 = sk_congestionWindowEnabled c"
    using assms(1,3) by (simp_all add: c1_def unused_def RttReset_def)
  have sent1: "last (sk_sent c1) = \<lparr> sg_packet = [], sg_header = ?h1,
      sg_source = ep_localAddress ep, sg_destination = ep_peerAddress ep \<rparr>"
    by (simp add: c1_def)
  obtain l1 where 2: "arrive (last (sk_sent c1)) l = Inr (Some ((Fork l1)\<lparr>sk_later :=
      [LaterCompleteFork [] (received ?h1 new_TcpHeader) (ep_localAddress ep) (ep_localPort ep) (ep_peerAddress ep) (ep_localPort lp)]\<rparr>), l1)"
    and l1: "opened c l l1" "sk_rcvWindShift l1 = 0" "0 < sk_synRetries l1" "m_nSamples (sk_rtt l1) = 0"
      "m_nextTxSequence (sk_tcb l1) = m_nextTxSequence (sk_tcb l)"
    using syn_arrives [OF assms(5,7), of ?h1 c "ep_localAddress ep" "ep_peerAddress ep"] syn_header_ok [of SYN ep c]
      syn_header_fields [of SYN ep c] assms(5,6) unfolding sent1 by (auto simp: unused_def)
  obtain s1 s2 h2 where 3: "run_fork ((Fork l1)\<lparr>sk_later :=
      [LaterCompleteFork [] (received ?h1 new_TcpHeader) (ep_localAddress ep) (ep_localPort ep) (Ipv4Address x) (ep_localPort lp)]\<rparr>) = Inr s2"
    and sent2: "last (sk_sent s2) = \<lparr> sg_packet = [], sg_header = h2, sg_source = Ipv4Address x, sg_destination = ep_localAddress ep \<rparr>"
    and h2: "hdr_ok h2" "\<not> h_calcChecksum h2" "h_options h2 = syn_options s1" "h_flags h2 = SYN OR ACK"
      "h_sequenceNumber h2 = m_nextTxSequence (sk_tcb l)" "h_ackNumber h2 = m_nextTxSequence (sk_tcb c1) + 1"
    and s1: "opened c l s1"
    and s2: "opened c l s2" "sk_state s2 = SYN_RCVD" "sk_endPoint s2 = Some \<lparr> ep_localAddress = Ipv4Address x,
        ep_localPort = ep_localPort lp, ep_peerAddress = ep_localAddress ep, ep_peerPort = ep_localPort ep \<rparr>"
      "m_nextTxSequence (sk_tcb s2) = m_nextTxSequence (sk_tcb l)" "rx_nextRxSeq (sk_rx s2) = m_nextTxSequence (sk_tcb c) + 1"
      "sk_rcvWindShift s2 = (if sk_winScalingEnabled s2 then CalculateWScale s2 else 0)"
      "m_nSamples (sk_rtt s2) = 0" "sk_persistEvent s2 = None" "m_ecnState (sk_tcb s2) = ECN_DISABLED"
    using fork_replies [OF l1(1-4), of "received ?h1 new_TcpHeader" "ep_localAddress ep" "ep_localPort ep" x "ep_localPort lp"]
    by (auto simp: syn_header_fields l1(5) c1(6))
  have idle: "idle c1"
    using assms(1) by (simp add: c1_def unused_def idle_def unused_open)
  obtain c2 a h3 where 4: "arrive (last (sk_sent s2)) c1 = Inr (None, c2)"
    and sent3: "last (sk_sent c2) = \<lparr> sg_packet = [], sg_header = h3, sg_source = ep_localAddress ep, sg_destination = ep_peerAddress ep \<rparr>"
    and h3: "hdr_ok h3" "\<not> h_calcChecksum h3" "h_options h3 = base_options a" "h_flags h3 = ACK"
      "h_ackNumber h3 = m_nextTxSequence (sk_tcb s2) + 1"
    and a: "opened s1 c1 a" and c2: "opened s1 c1 c2" "sk_state c2 = ESTABLISHED" "sk_connected c2"
      "m_nextTxSequence (sk_tcb c2) = m_nextTxSequence (sk_tcb c) + 1" "m_highTxMark (sk_tcb c2) = m_nextTxSequence (sk_tcb c) + 1"
      "tx_firstByteSeq (sk_tx c2) = m_nextTxSequence (sk_tcb c) + 1" "rx_nextRxSeq (sk_rx c2) = m_nextTxSequence (sk_tcb l) + 1"
      "sk_rcvWindShift c2 = sk_rcvWindShift c1"
    using syn_ack_arrives [OF c1(1,2) idle c1(3-5) h2(1-4,6), of "Ipv4Address x" "ep_localAddress ep"] h2(5) c1(6) s2(4)
    unfolding sent2 by auto
  have opts: "sk_timestampEnabled a = sk_timestampEnabled s2" "sk_congestionWindowEnabled a = sk_congestionWindowEnabled s2"
    by (simp_all add: openedD(3,4) [OF a] openedD(3,4) [OF s1] openedD(3,4) [OF s2(1)] c1(10,11) conj_commute)
  obtain s where 5: "arrive (last (sk_sent c2)) s2 = Inr (None, s)" and s: "opened c l s" "sk_state s = ESTABLISHED" "sk_connected s"
      "m_nextTxSequence (sk_tcb s) = m_nextTxSequence (sk_tcb l) + 1" "m_highTxMark (sk_tcb s) = m_nextTxSequence (sk_tcb l) + 1"
      "tx_firstByteSeq (sk_tx s) = m_nextTxSequence (sk_tcb l) + 1" "sk_rx s = sk_rx s2" "sk_rcvWindShift s = sk_rcvWindShift s2"
    using ack_arrives [OF s2(2,3,1,9,7,8) h3 opts, of "ep_localAddress ep" "ep_peerAddress ep"] s2(4)
    unfolding sent3 by auto
  have "connect_bound quiet c = Inr c1"
    using 1 by (simp only: c1_def)
  with 2 3 4 5 have run: "handshake c l = Inr (c2, s)"
    by (simp add: handshake_def assms(4))
  have eq: "CalculateWScale s1 = CalculateWScale s2"
    by (simp add: openedD(6) [OF s1] openedD(6) [OF s2(1)])
  note on = openedD(1-5) [OF s(1)] openedD(1-5) [OF c2(1)] openedD(1-5) [OF s1] openedD(1) [OF s2(1)]
  have and_self: "(A \<and> B \<and> A) = (A \<and> B)" for A B
    by blast
  have "agreed c2 s"
    unfolding agreed_def on c1 c2(8) s(8) s2(6) eq by (simp add: c2(2-7) s(2-7) s2(5) and_self)
  moreover have "rx_maxBuffer (sk_rx c2) = rx_maxBuffer (sk_rx c)" "sk_maxWinSize c2 = sk_maxWinSize c"
    by (simp_all add: openedD(7,8) [OF c2(1)] c1_def)
  ultimately show ?thesis
    using run c2(4,8) s(4) on(1-5) c1(7) openedD(9) [OF c2(1)] by (intro exI [of _ c2] exI [of _ s]) simp
qed

definition demo_client :: sock where
  "demo_client = demo_sock\<lparr>sk_state := CLOSED, sk_connected := False, sk_synRetries := 6, sk_cnTimeout := 3000000000,
    sk_dataRetries := 6, sk_rx := (TcpRxBuffer 0)\<lparr>rx_maxBuffer := 131072\<rparr>,
    sk_tcb := (sk_tcb demo_sock)\<lparr>m_nextTxSequence := 4294967295\<rparr>\<rparr>"

definition demo_listener :: sock where
  "demo_listener = demo_client\<lparr>sk_state := LISTEN, sk_tcb := (sk_tcb demo_sock)\<lparr>m_nextTxSequence := 7\<rparr>\<rparr>"

lemma demo_peers:
  "unused demo_client" "sk_state demo_client = CLOSED" "sk_endPoint demo_client = Some demo_ep"
  "unused demo_listener" "sk_state demo_listener = LISTEN" "sk_endPoint demo_listener = Some demo_ep"
  by (simp_all add: unused_def demo_client_def demo_listener_def demo_sock_def new_sock_def TcpTxBuffer_def TcpRxBuffer_def
      new_TcpSocketState_def tx_wf_def tx_items_def ConsistencyCheck_iff new_RttEstimator_def)

subsection \<open>Properties\<close>

text \<open>
  C5: the three-way handshake connects.  An unused client that calls \<open>Connect\<close> and an unused
  listening socket that forks end, behind SYN, SYN and ACK, and ACK delivered as bytes, with
  both ends established and agreed: each expects the first byte the other will send, nothing
  is outstanding, every option is used by both or by neither, namely when both had it
  enabled, and with window scaling each end undoes the shift of the other.
\<close>

theorem handshake_establishes:
  assumes "unused c" "sk_state c = CLOSED" "sk_endPoint c = Some ep" "ep_peerAddress ep = Ipv4Address x"
    and "unused l" "sk_state l = LISTEN" "sk_endPoint l = Some lp"
  shows "\<exists>c' s. handshake c l = Inr (c', s) \<and> agreed c' s
    \<and> m_nextTxSequence (sk_tcb c') = m_nextTxSequence (sk_tcb c) + 1
    \<and> m_nextTxSequence (sk_tcb s) = m_nextTxSequence (sk_tcb l) + 1
    \<and> (sk_winScalingEnabled s \<longleftrightarrow> sk_winScalingEnabled c \<and> sk_winScalingEnabled l)
    \<and> (sk_sackEnabled s \<longleftrightarrow> sk_sackEnabled c \<and> sk_sackEnabled l)
    \<and> (sk_timestampEnabled s \<longleftrightarrow> sk_timestampEnabled c \<and> sk_timestampEnabled l)
    \<and> (sk_congestionWindowEnabled s \<longleftrightarrow> sk_congestionWindowEnabled c \<and> sk_congestionWindowEnabled l)"
  using handshake_agreed [OF assms] by blast

theorem handshake_establishes_witness:
  "\<exists>c' s. handshake demo_client demo_listener = Inr (c', s) \<and> agreed c' s \<and> m_nextTxSequence (sk_tcb c') = 0"
proof -
  have "ep_peerAddress demo_ep = Ipv4Address [10, 0, 0, 2]"
    by (simp add: demo_ep_def)
  from handshake_establishes [OF demo_peers(1-3) this demo_peers(4-6)] show ?thesis
    by (auto simp: demo_client_def)
qed

text \<open>
  C21: a client whose offer of window scaling is refused goes on scaling.  When the listening
  socket does not scale, the accepted one reads the window fields as they are, but the client
  keeps the shift it had offered, and the window it advertises is its free space shifted
  right.  The code intends the shift for connections that agreed on it:
  \<open>m_winScalingEnabled\<close> is switched off, \<open>m_rcvWindShift\<close> is not reset.
\<close>

theorem refused_scaling_shifts_window:
  assumes "unused c" "sk_state c = CLOSED" "sk_endPoint c = Some ep" "ep_peerAddress ep = Ipv4Address x"
    and "unused l" "sk_state l = LISTEN" "sk_endPoint l = Some lp"
    and "sk_winScalingEnabled c" "\<not> sk_winScalingEnabled l"
  shows "\<exists>c' s t. handshake c l = Inr (c', s) \<and> \<not> sk_winScalingEnabled c' \<and> sk_sndWindShift s = 0
    \<and> AdvertisedWindowSize True c' = Inr (ucast (min (drop_bit (unat (CalculateWScale c)) (rx_maxBuffer (sk_rx c)))
        (ucast (sk_maxWinSize c)) :: u32), t)"
proof -
  obtain c' s where r: "handshake c l = Inr (c', s)" and f: "agreed c' s" "sk_sndWindShift s = 0" "\<not> sk_winScalingEnabled s"
      "sk_rcvWindShift c' = CalculateWScale c" "rx_maxBuffer (sk_rx c') = rx_maxBuffer (sk_rx c)" "sk_maxWinSize c' = sk_maxWinSize c"
      "idle c'"
    using handshake_agreed [OF assms(1-7)] assms(8,9) by auto
  from f(7) have "rx_open (sk_rx c')" "rx_room (sk_rx c') = rx_maxBuffer (sk_rx c')"
    by (auto simp: idle_def rx_open_def rx_room_empty)
  then have "AdvertisedWindowSize True c' = Inr (ucast (min (drop_bit (unat (CalculateWScale c)) (rx_maxBuffer (sk_rx c)))
        (ucast (sk_maxWinSize c)) :: u32), c'\<lparr>sk_advWnd := rx_maxBuffer (sk_rx c)\<rparr>)"
    using f by (simp add: adv_eq win_field_def)
  with r f(1-3) show ?thesis
    by (auto simp: agreed_def)
qed

theorem refused_scaling_shifts_window_witness:
  "\<exists>c' s t. handshake (demo_client\<lparr>sk_winScalingEnabled := True\<rparr>) (demo_listener\<lparr>sk_winScalingEnabled := False\<rparr>) = Inr (c', s)
    \<and> sk_sndWindShift s = 0 \<and> AdvertisedWindowSize True c' = Inr (32768, t)"
proof -
  let ?c = "demo_client\<lparr>sk_winScalingEnabled := True\<rparr>" and ?l = "demo_listener\<lparr>sk_winScalingEnabled := False\<rparr>"
  have pre: "unused ?c" "sk_state ?c = CLOSED" "sk_endPoint ?c = Some demo_ep" "ep_peerAddress demo_ep = Ipv4Address [10, 0, 0, 2]"
    "unused ?l" "sk_state ?l = LISTEN" "sk_endPoint ?l = Some demo_ep" "sk_winScalingEnabled ?c" "\<not> sk_winScalingEnabled ?l"
    using demo_peers by (simp_all add: unused_def demo_ep_def)
  have "CalculateWScale ?c = 2" "rx_maxBuffer (sk_rx ?c) = 131072" "sk_maxWinSize ?c = 65535"
    by (simp_all add: demo_client_def demo_sock_def CalculateWScale_def wscale_loop.simps TcpRxBuffer_def)
  with refused_scaling_shifts_window [OF pre] show ?thesis
    by auto
qed

end
